(* ===== verification/Go_Prelude.thy ===== *)
theory Go_Prelude
  imports Main "HOL-Library.State_Monad" "HOL-Library.Sublist"
begin

text \<open>
  The part of Go and of its standard library that the driver uses, and the proof library the
  component theories share:

  \<^item> strings are \<open>string\<close> (lists of bytes; the driver's identifiers, paths and UUIDs are ASCII),
    with the functions of the packages \<open>strings\<close> and \<open>strconv\<close> that the sources call;
  \<^item> an \<open>error\<close> result is the \<open>Inl\<close> side of a sum. A fallible stateful function is a
    \<open>('s, 'e + 'a) state\<close>; \<open>bindE\<close> is the idiom
    \<^verbatim>\<open>x, err := f(); if err != nil { return nil, err }\<close>;
  \<^item> a process records every call it makes to a system outside the repository (vCenter, CNS, the
    Kubernetes API, the operating system) in its \<open>trace\<close>, and the answer to a call is an
    arbitrary function of the calls made before it. A theorem that holds for every such function
    holds for every behaviour of the outside;
  \<^item> \<open>emits P m\<close> says that \<open>m\<close> only adds calls satisfying \<open>P\<close> to the trace, \<open>keeps I m\<close>
    that \<open>m\<close> preserves \<open>I\<close>; both have one introduction rule per program construct, collected
    in \<open>emits_rules\<close> and \<open>keeps_rules\<close>, so that a component's proof is a syntax-directed
    descent into its definition.
\<close>

named_theorems emits_rules \<open>introduction rules for the calls a program makes\<close>
named_theorems keeps_rules \<open>introduction rules for the invariants a program keeps\<close>

lemma ex_bool [simp]: "\<exists>b :: bool. b"
  by blast

section \<open>Package strings\<close>

definition ToLower_char :: "char \<Rightarrow> char" where
  "ToLower_char c =
     (if 65 \<le> (of_char c :: nat) \<and> (of_char c :: nat) \<le> 90
      then char_of ((of_char c :: nat) + 32) else c)"

definition ToLower :: "string \<Rightarrow> string" where
  "ToLower s = map ToLower_char s"

definition EqualFold :: "string \<Rightarrow> string \<Rightarrow> bool" where
  "EqualFold s t \<longleftrightarrow> ToLower s = ToLower t"

definition HasPrefix :: "string \<Rightarrow> string \<Rightarrow> bool" where
  "HasPrefix s p \<longleftrightarrow> prefix p s"

definition TrimPrefix :: "string \<Rightarrow> string \<Rightarrow> string" where
  "TrimPrefix s p = (if HasPrefix s p then drop (length p) s else s)"

definition Contains :: "string \<Rightarrow> string \<Rightarrow> bool" where
  "Contains s t \<longleftrightarrow> sublist t s"

fun Split :: "string \<Rightarrow> char \<Rightarrow> string list" where
  "Split [] sep = [[]]"
| "Split (c # cs) sep =
     (if c = sep then [] # Split cs sep
      else case Split cs sep of [] \<Rightarrow> [[c]] | w # ws \<Rightarrow> (c # w) # ws)"

text \<open>\<open>strings.Replace(s, sep, "", -1)\<close> for a one-character \<open>sep\<close>.\<close>

definition RemoveAll :: "string \<Rightarrow> char \<Rightarrow> string" where
  "RemoveAll s sep = filter (\<lambda>c. c \<noteq> sep) s"

definition is_space :: "char \<Rightarrow> bool" where
  "is_space c \<longleftrightarrow> (of_char c :: nat) \<in> {9, 10, 11, 12, 13, 32}"

definition TrimSpace :: "string \<Rightarrow> string" where
  "TrimSpace s = rev (dropWhile is_space (rev (dropWhile is_space s)))"

lemma of_char_ToLower_char:
  "(of_char (ToLower_char c) :: nat) =
     (let n = of_char c in if 65 \<le> n \<and> n \<le> 90 then n + 32 else n)"
  by (simp add: ToLower_char_def Let_def)

lemma ToLower_char_idem [simp]: "ToLower_char (ToLower_char c) = ToLower_char c"
  by (auto simp: ToLower_char_def [of "ToLower_char c"] of_char_ToLower_char Let_def split: if_splits)

lemma ToLower_idem [simp]: "ToLower (ToLower s) = ToLower s"
  by (simp add: ToLower_def)

lemma length_ToLower [simp]: "length (ToLower s) = length s"
  by (simp add: ToLower_def)

lemma ToLower_append [simp]: "ToLower (s @ t) = ToLower s @ ToLower t"
  by (simp add: ToLower_def)

lemma Split_nonempty [simp]: "Split s sep \<noteq> []"
  by (induction s) (auto split: list.splits)

lemma TrimPrefix_append [simp]: "TrimPrefix (p @ s) p = s"
  by (simp add: TrimPrefix_def HasPrefix_def)

section \<open>Package strconv\<close>

fun digit_val :: "char \<Rightarrow> nat option" where
  "digit_val c = (if 48 \<le> (of_char c :: nat) \<and> (of_char c :: nat) \<le> 57
                  then Some (of_char c - 48) else None)"

fun digits_val :: "nat \<Rightarrow> string \<Rightarrow> nat option" where
  "digits_val acc [] = Some acc"
| "digits_val acc (c # cs) =
     (case digit_val c of None \<Rightarrow> None | Some d \<Rightarrow> digits_val (10 * acc + d) cs)"

text \<open>
  \<open>strconv.Atoi\<close>: an optional sign and at least one decimal digit, with a value an \<open>int\<close> (64 bits)
  can hold; \<open>None\<close> is its error.
\<close>

definition Atoi :: "string \<Rightarrow> int option" where
  "Atoi s =
     (let neg = (s \<noteq> [] \<and> hd s = CHR ''-'');
          ds = (if s \<noteq> [] \<and> (hd s = CHR ''-'' \<or> hd s = CHR ''+'') then tl s else s)
      in if ds = [] then None
         else case digits_val 0 ds of
           None \<Rightarrow> None
         | Some n \<Rightarrow>
             (let v = (if neg then - int n else int n)
              in if - (2 ^ 63) \<le> v \<and> v < 2 ^ 63 then Some v else None))"

definition ParseBool :: "string \<Rightarrow> bool option" where
  "ParseBool s =
     (if s \<in> {''1'', ''t'', ''T'', ''TRUE'', ''true'', ''True''} then Some True
      else if s \<in> {''0'', ''f'', ''F'', ''FALSE'', ''false'', ''False''} then Some False
      else None)"

lemma Atoi_range: "Atoi s = Some v \<Longrightarrow> - (2 ^ 63) \<le> v \<and> v < 2 ^ 63"
  by (auto simp: Atoi_def Let_def split: if_splits option.splits)

lemma Atoi_empty [simp]: "Atoi [] = None"
  by (simp add: Atoi_def)

section \<open>Programs with state and errors\<close>

definition bindE ::
  "('s, 'e + 'a) state \<Rightarrow> ('a \<Rightarrow> ('s, 'e + 'b) state) \<Rightarrow> ('s, 'e + 'b) state" where
  "bindE m k = do {
     r \<leftarrow> m;
     case r of Inl e \<Rightarrow> State_Monad.return (Inl e) | Inr x \<Rightarrow> k x
   }"

text \<open>A \<open>for\<close> loop over a list whose body may change the state.\<close>

fun for_each :: "('x \<Rightarrow> ('s, 'u) state) \<Rightarrow> 'x list \<Rightarrow> ('s, unit) state" where
  "for_each f [] = State_Monad.return ()"
| "for_each f (x # xs) = do { _ \<leftarrow> f x; for_each f xs }"

text \<open>The same when an iteration may fail (here: panic), and the loop that collects results.\<close>

fun forE :: "('x \<Rightarrow> ('s, 'e + 'u) state) \<Rightarrow> 'x list \<Rightarrow> ('s, 'e + unit) state" where
  "forE f [] = State_Monad.return (Inr ())"
| "forE f (x # xs) = bindE (f x) (\<lambda>_. forE f xs)"

fun mapE :: "('x \<Rightarrow> ('s, 'e + 'y) state) \<Rightarrow> 'x list \<Rightarrow> ('s, 'e + 'y list) state" where
  "mapE f [] = State_Monad.return (Inr [])"
| "mapE f (x # xs) = bindE (f x) (\<lambda>y. bindE (mapE f xs) (\<lambda>ys. State_Monad.return (Inr (y # ys))))"

lemma run_bindE [simp]:
  "run_state (bindE m k) s =
     (case run_state m s of (Inl e, s') \<Rightarrow> (Inl e, s') | (Inr x, s') \<Rightarrow> run_state (k x) s')"
  by (auto simp: bindE_def split: prod.splits sum.splits)

lemma bindE_Inr:
  assumes "run_state (bindE m k) s = (Inr y, t)"
  obtains x s' where "run_state m s = (Inr x, s')" and "run_state (k x) s' = (Inr y, t)"
  using assms by (auto split: prod.splits sum.splits)

text \<open>A collecting loop whose body only reads the state.\<close>

lemma mapE_Inr:
  assumes body: "\<And>x y s'. run_state (f x) s = (Inr y, s') \<Longrightarrow> s' = s \<and> Q x y"
  shows "run_state (mapE f xs) s = (Inr ys, s') \<Longrightarrow> s' = s \<and> list_all2 Q xs ys"
proof (induction xs arbitrary: ys)
  case (Cons x xs)
  then obtain y s1 zs where x: "run_state (f x) s = (Inr y, s1)"
    and xs: "run_state (mapE f xs) s1 = (Inr zs, s')" and ys: "ys = y # zs"
    by (auto split: prod.splits sum.splits)
  from body [OF x] have "s1 = s" "Q x y" by auto
  with Cons.IH xs ys show ?case by simp
qed simp

section \<open>Calls to the outside\<close>

record 'c proc =
  trace :: "'c list"

definition perform :: "'c \<Rightarrow> ('c list \<Rightarrow> 'a) \<Rightarrow> (('c, 'z) proc_scheme, 'a) state" where
  "perform c answer = State (\<lambda>s. (answer (trace s), s\<lparr>trace := trace s @ [c]\<rparr>))"

lemma run_perform [simp]:
  "run_state (perform c answer) s = (answer (trace s), s\<lparr>trace := trace s @ [c]\<rparr>)"
  by (simp add: perform_def)

text \<open>An assignment: the state changes, nothing is called.\<close>

definition assign :: "('s \<Rightarrow> 's) \<Rightarrow> ('s, unit) state" where
  "assign f = State (\<lambda>s. ((), f s))"

lemma run_assign [simp]: "run_state (assign f) s = ((), f s)"
  by (simp add: assign_def)

lemma run_get [simp]: "run_state State_Monad.get s = (s, s)"
  by (simp add: State_Monad.get_def)

definition emits :: "('c \<Rightarrow> bool) \<Rightarrow> (('c, 'z) proc_scheme, 'a) state \<Rightarrow> bool" where
  "emits P m \<longleftrightarrow>
     state_io_rel (\<lambda>s s'. \<exists>ks. trace s' = trace s @ ks \<and> list_all P ks) m"

definition keeps :: "('s \<Rightarrow> bool) \<Rightarrow> ('s, 'a) state \<Rightarrow> bool" where
  "keeps I m \<longleftrightarrow> state_io_rel (\<lambda>s s'. I s \<longrightarrow> I s') m"

lemma emitsI:
  assumes "\<And>s a s'. run_state m s = (a, s') \<Longrightarrow> \<exists>ks. trace s' = trace s @ ks \<and> list_all P ks"
  shows "emits P m"
  unfolding emits_def by (rule state_io_relI) (rule assms)

lemma emitsE:
  assumes "emits P m" and "run_state m s = (a, s')"
  obtains ks where "trace s' = trace s @ ks" and "list_all P ks"
  using assms unfolding emits_def by blast

lemma emits_mono: "emits P m \<Longrightarrow> (\<And>c. P c \<Longrightarrow> Q c) \<Longrightarrow> emits Q m"
  unfolding emits_def by (fastforce simp: state_io_rel_def list_all_iff)

lemma emits_return [emits_rules]: "emits P (State_Monad.return a)"
  by (rule emitsI) simp

lemma emits_get [emits_rules]: "emits P State_Monad.get"
  by (rule emitsI) simp

lemma emits_assign [emits_rules]: "(\<And>s. trace (f s) = trace s) \<Longrightarrow> emits P (assign f)"
  by (rule emitsI) auto

lemma emits_perform [emits_rules]: "P c \<Longrightarrow> emits P (perform c answer)"
  by (rule emitsI) auto

lemma emits_bind [emits_rules]:
  assumes "emits P m" and "\<And>a. emits P (f a)"
  shows "emits P (State_Monad.bind m f)"
proof (rule emitsI)
  fix s b t
  assume run: "run_state (State_Monad.bind m f) s = (b, t)"
  obtain a s' where m: "run_state m s = (a, s')" by fastforce
  with run have fa: "run_state (f a) s' = (b, t)" by simp
  from assms(1) m obtain ks where "trace s' = trace s @ ks" "list_all P ks" by (rule emitsE)
  moreover from assms(2) fa obtain ks' where "trace t = trace s' @ ks'" "list_all P ks'"
    by (rule emitsE)
  ultimately show "\<exists>ks. trace t = trace s @ ks \<and> list_all P ks"
    by (intro exI [of _ "ks @ ks'"]) simp
qed

lemma emits_bindE [emits_rules]:
  "emits P m \<Longrightarrow> (\<And>x. emits P (k x)) \<Longrightarrow> emits P (bindE m k)"
  unfolding bindE_def by (intro emits_bind) (auto split: sum.splits intro: emits_return)

lemma emits_for_each [emits_rules]:
  "(\<And>x. x \<in> set xs \<Longrightarrow> emits P (f x)) \<Longrightarrow> emits P (for_each f xs)"
  by (induction xs) (auto intro!: emits_rules)

lemma emits_forE [emits_rules]:
  "(\<And>x. x \<in> set xs \<Longrightarrow> emits P (f x)) \<Longrightarrow> emits P (forE f xs)"
  by (induction xs) (auto intro!: emits_rules)

lemma emits_mapE [emits_rules]:
  "(\<And>x. x \<in> set xs \<Longrightarrow> emits P (f x)) \<Longrightarrow> emits P (mapE f xs)"
  by (induction xs) (auto intro!: emits_rules)

lemma emits_case_sum [emits_rules]:
  "(\<And>e. r = Inl e \<Longrightarrow> emits P (f e)) \<Longrightarrow> (\<And>x. r = Inr x \<Longrightarrow> emits P (g x)) \<Longrightarrow>
   emits P (case r of Inl e \<Rightarrow> f e | Inr x \<Rightarrow> g x)"
  by (cases r) auto

lemma emits_case_option [emits_rules]:
  "(r = None \<Longrightarrow> emits P f) \<Longrightarrow> (\<And>x. r = Some x \<Longrightarrow> emits P (g x)) \<Longrightarrow>
   emits P (case r of None \<Rightarrow> f | Some x \<Rightarrow> g x)"
  by (cases r) auto

lemma emits_case_prod [emits_rules]:
  "(\<And>x y. r = (x, y) \<Longrightarrow> emits P (f x y)) \<Longrightarrow> emits P (case r of (x, y) \<Rightarrow> f x y)"
  by (cases r) auto

lemma emits_if [emits_rules]:
  "(b \<Longrightarrow> emits P m) \<Longrightarrow> (\<not> b \<Longrightarrow> emits P n) \<Longrightarrow> emits P (if b then m else n)"
  by simp

lemma keepsI: "(\<And>s a s'. run_state m s = (a, s') \<Longrightarrow> I s \<Longrightarrow> I s') \<Longrightarrow> keeps I m"
  unfolding keeps_def by blast

lemma keepsD: "keeps I m \<Longrightarrow> run_state m s = (a, s') \<Longrightarrow> I s \<Longrightarrow> I s'"
  unfolding keeps_def by blast

lemma keeps_return [keeps_rules]: "keeps I (State_Monad.return a)"
  by (rule keepsI) simp

lemma keeps_get [keeps_rules]: "keeps I State_Monad.get"
  by (rule keepsI) simp

lemma keeps_assign [keeps_rules]: "(\<And>s. I s \<Longrightarrow> I (f s)) \<Longrightarrow> keeps I (assign f)"
  by (rule keepsI) auto

lemma keeps_perform [keeps_rules]:
  "(\<And>s. I s \<Longrightarrow> I (s\<lparr>trace := trace s @ [c]\<rparr>)) \<Longrightarrow> keeps I (perform c answer)"
  by (rule keepsI) auto

lemma keeps_bind [keeps_rules]:
  assumes "keeps I m" and "\<And>a. keeps I (f a)"
  shows "keeps I (State_Monad.bind m f)"
proof (rule keepsI)
  fix s b t
  assume run: "run_state (State_Monad.bind m f) s = (b, t)" and I: "I s"
  obtain a s' where m: "run_state m s = (a, s')" by fastforce
  with run have fa: "run_state (f a) s' = (b, t)" by simp
  from assms(1) m I have "I s'" by (rule keepsD)
  with assms(2) fa show "I t" by (rule keepsD)
qed

lemma keeps_bindE [keeps_rules]:
  "keeps I m \<Longrightarrow> (\<And>x. keeps I (k x)) \<Longrightarrow> keeps I (bindE m k)"
  unfolding bindE_def by (intro keeps_bind) (auto split: sum.splits intro: keeps_return)

lemma keeps_for_each [keeps_rules]:
  "(\<And>x. x \<in> set xs \<Longrightarrow> keeps I (f x)) \<Longrightarrow> keeps I (for_each f xs)"
  by (induction xs) (auto intro!: keeps_rules)

lemma keeps_forE [keeps_rules]:
  "(\<And>x. x \<in> set xs \<Longrightarrow> keeps I (f x)) \<Longrightarrow> keeps I (forE f xs)"
  by (induction xs) (auto intro!: keeps_rules)

lemma keeps_mapE [keeps_rules]:
  "(\<And>x. x \<in> set xs \<Longrightarrow> keeps I (f x)) \<Longrightarrow> keeps I (mapE f xs)"
  by (induction xs) (auto intro!: keeps_rules)

lemma keeps_case_sum [keeps_rules]:
  "(\<And>e. r = Inl e \<Longrightarrow> keeps I (f e)) \<Longrightarrow> (\<And>x. r = Inr x \<Longrightarrow> keeps I (g x)) \<Longrightarrow>
   keeps I (case r of Inl e \<Rightarrow> f e | Inr x \<Rightarrow> g x)"
  by (cases r) auto

lemma keeps_case_option [keeps_rules]:
  "(r = None \<Longrightarrow> keeps I f) \<Longrightarrow> (\<And>x. r = Some x \<Longrightarrow> keeps I (g x)) \<Longrightarrow>
   keeps I (case r of None \<Rightarrow> f | Some x \<Rightarrow> g x)"
  by (cases r) auto

lemma keeps_case_prod [keeps_rules]:
  "(\<And>x y. r = (x, y) \<Longrightarrow> keeps I (f x y)) \<Longrightarrow> keeps I (case r of (x, y) \<Rightarrow> f x y)"
  by (cases r) auto

lemma keeps_if [keeps_rules]:
  "(b \<Longrightarrow> keeps I m) \<Longrightarrow> (\<not> b \<Longrightarrow> keeps I n) \<Longrightarrow> keeps I (if b then m else n)"
  by simp

end
