(* ===== verification/External.thy ===== *)
theory External
  imports Go_Prelude
begin

text \<open>
  What the driver exchanges with the systems outside this repository: the errors it returns, the
  fields it reads and writes of the Kubernetes and CNS API objects, the calls it makes, and the
  answers it may get. The answers are the fields of \<open>vsphere_env\<close> and \<open>k8s_env\<close>: arbitrary functions
  of the calls made so far and of the call's arguments, so nothing is assumed of vCenter, CNS or the
  Kubernetes API.

  Error values keep what the driver branches on (sentinel errors, gRPC codes, SOAP faults). The
  text of an error built by \<open>fmt.Errorf\<close>, \<open>fmt.Sprintf\<close> or \<open>status.Errorf\<close> is its format string,
  without the arguments. \<open>Panic\<close> stands for a Go run-time panic. Logging has no counterpart.
\<close>

section \<open>Errors\<close>

datatype vim_fault = InvalidLogin | OtherVimFault string

datatype code =
  InvalidArgument | NotFound | AlreadyExists | FailedPrecondition | Internal | Unimplemented

datatype error =
    Errorf string
  | Status code string
  | SoapFault vim_fault
  | LocalizedFault string
  | OutsideError string
  | NotExist
  | ContextCanceled
  | ErrVCAlreadyRegistered
  | ErrVCNotFound
  | ErrVMNotFound
  | ErrNodeNotFound
  | ErrNodeAlreadyExists
  | ErrUsernameMissing
  | ErrPasswordMissing
  | ErrInvalidVCenterIP
  | ErrMissingVCenter
  | Panic string

text \<open>
  \<^verbatim>\<open>x, err := f(); if err != nil { h }; k\<close>: a caller that handles the error. A panic is not an error
  value, nobody recovers from it.
\<close>

definition handle ::
  "('s, error + 'a) state \<Rightarrow> (error \<Rightarrow> ('s, error + 'b) state) \<Rightarrow> ('a \<Rightarrow> ('s, error + 'b) state) \<Rightarrow>
   ('s, error + 'b) state" where
  "handle m h k = do {
     r \<leftarrow> m;
     case r of
       Inr x \<Rightarrow> k x
     | Inl (Panic p) \<Rightarrow> State_Monad.return (Inl (Panic p))
     | Inl err \<Rightarrow> h err
   }"

lemma run_handle [simp]:
  "run_state (handle m h k) s =
     (case run_state m s of
        (Inr x, s') \<Rightarrow> run_state (k x) s'
      | (Inl err, s') \<Rightarrow> (case err of Panic p \<Rightarrow> (Inl err, s') | _ \<Rightarrow> run_state (h err) s'))"
  by (auto simp: handle_def split: prod.splits sum.splits error.splits)

lemma emits_handle [emits_rules]:
  "emits P m \<Longrightarrow> (\<And>err. emits P (h err)) \<Longrightarrow> (\<And>x. emits P (k x)) \<Longrightarrow> emits P (handle m h k)"
  unfolding handle_def by (intro emits_bind) (auto split: sum.splits error.splits intro: emits_return)

lemma keeps_handle [keeps_rules]:
  "keeps I m \<Longrightarrow> (\<And>err. keeps I (h err)) \<Longrightarrow> (\<And>x. keeps I (k x)) \<Longrightarrow> keeps I (handle m h k)"
  unfolding handle_def by (intro keeps_bind) (auto split: sum.splits error.splits intro: keeps_return)

section \<open>Kubernetes objects\<close>

text \<open>
  A Go \<open>map[string]string\<close> that the code iterates over is the list of its entries in iteration
  order; \<open>None\<close> is the nil map.
\<close>

type_synonym label_map = "(string \<times> string) list option"

text \<open>\<open>reflect.DeepEqual\<close> on two label maps: a nil map differs from an empty one.\<close>

definition DeepEqual_labels :: "label_map \<Rightarrow> label_map \<Rightarrow> bool" where
  "DeepEqual_labels a b =
     (case (a, b) of (None, None) \<Rightarrow> True
      | (Some xs, Some ys) \<Rightarrow>
          list_all (\<lambda>k. map_of xs k = map_of ys k) (map fst xs @ map fst ys)
      | _ \<Rightarrow> False)"

datatype volume_phase =
  VolumePending | VolumeAvailable | VolumeBound | VolumeReleased | VolumeFailed
  | OtherVolumePhase string

datatype claim_phase = ClaimPending | ClaimBound | ClaimLost | OtherClaimPhase string

datatype pod_phase = PodPending | PodRunning | OtherPodPhase string

datatype reclaim_policy =
  PersistentVolumeReclaimRecycle | PersistentVolumeReclaimDelete | PersistentVolumeReclaimRetain
  | OtherReclaimPolicy string

record csi_source =
  Driver :: string
  VolumeHandle :: string

record claim_ref =
  ref_Namespace :: string
  ref_Name :: string

record pv =
  pv_Name :: string
  pv_Namespace :: string
  pv_Labels :: label_map
  pv_Phase :: volume_phase
  pv_CSI :: "csi_source option"
  pv_ClaimRef :: "claim_ref option"
  pv_ReclaimPolicy :: reclaim_policy
  pv_StorageClassName :: string
  pv_Deleting :: bool  \<comment> \<open>\<open>DeletionTimestamp != nil\<close>\<close>

record pvc =
  pvc_Name :: string
  pvc_Namespace :: string
  pvc_Labels :: label_map
  pvc_Phase :: claim_phase
  pvc_VolumeName :: string

record pod_volume =
  podvol_Name :: string
  podvol_ClaimName :: "string option"

record pod =
  pod_Name :: string
  pod_Namespace :: string
  pod_Phase :: pod_phase
  pod_Volumes :: "pod_volume list"

section \<open>CNS objects\<close>

datatype entity_type = PVType | PVCType | PODType | OtherEntityType string

record entity_metadata =
  EntityName :: string
  DeleteFlag :: bool
  EntityLabels :: "(string \<times> string) list"
  EntityType :: entity_type
  EntityNamespace :: string

text \<open>
  CNS answers with a list of the interface type \<open>BaseCnsEntityMetadata\<close>: an entry is Kubernetes metadata
  or something of another type.
\<close>

datatype base_entity_metadata =
    KubernetesEntity entity_metadata
  | OtherEntity string

record container_cluster =
  ClusterType :: string
  ClusterId :: string
  VSphereUser :: string

record volume_metadata =
  ContainerCluster :: container_cluster
  EntityMetadata :: "entity_metadata list"

datatype backing_details =
    BlockBackingDetails (BackingDiskId: string)
  | BackingObjectDetails (CapacityInMb: int)

record create_spec =
  create_Name :: string
  create_VolumeType :: string
  create_Datastores :: "string list"
  create_Metadata :: volume_metadata
  create_Backing :: backing_details
  create_Profile :: "string list"

record update_spec =
  update_VolumeId :: string
  update_Metadata :: volume_metadata

record cns_volume =
  vol_Id :: string
  vol_DatastoreUrl :: string
  vol_EntityMetadata :: "base_entity_metadata list"

record query_filter =
  filter_VolumeIds :: "string list"
  filter_ContainerClusterIds :: "string list"

lemma emits_case_backing [emits_rules]:
  "(\<And>d. b = BlockBackingDetails d \<Longrightarrow> emits P (f d)) \<Longrightarrow>
   (\<And>c. b = BackingObjectDetails c \<Longrightarrow> emits P (g c)) \<Longrightarrow>
   emits P (case b of BlockBackingDetails d \<Rightarrow> f d | BackingObjectDetails c \<Rightarrow> g c)"
  by (cases b) auto

text \<open>
  The result of a CNS task: every result carries an operation result (its fault's localized message,
  if any, and the volume id); the result of an attach task also carries the disk UUID.
\<close>

datatype task_result =
    OperationResult (res_Fault: "string option") (res_VolumeId: string)
  | AttachResult (res_Fault: "string option") (res_VolumeId: string) (res_DiskUUID: string)

datatype disk_backing = FlatVer2Backing string | OtherBacking

datatype vm_device =
    VirtualDisk "string option" disk_backing  \<comment> \<open>\<open>VDiskId\<close> and \<open>Backing\<close>\<close>
  | OtherDevice string

section \<open>Calls and answers\<close>

text \<open>
  A vim client is the number vCenter's answer names it by; a CNS or PBM client is identified by the
  vim client it was made from. Managed objects are named by their reference.
\<close>

type_synonym client = nat
type_synonym moref = string

datatype call =
    CallNewVimClient string int bool
  | CallLogin client string string
  | CallStsNewClient client
  | CallStsIssue client
  | CallLoginByToken client
  | CallUserSession client
  | CallNewPbmClient client
  | CallNewCnsClient client
  | CallLogout client
  | CallProfileIDByName client string
  | CallDatacenterList client
  | CallDatacenter client string
  | CallDatastoreList client moref
  | CallRetrieve client "moref list" string
  | CallFindByUuid client moref string bool
  | CallVmHost client moref
  | CallAncestors client moref
  | CallRestLogin client string string
  | CallRestLoginByToken client
  | CallRestLogout client
  | CallListAttachedTags client moref
  | CallGetTag client string
  | CallGetCategory client string
  | CallCnsCreate client "create_spec list"
  | CallCnsAttach client "(string \<times> moref) list"
  | CallCnsDetach client "(string \<times> moref) list"
  | CallCnsDelete client "string list" bool
  | CallCnsUpdate client "update_spec list"
  | CallCnsQuery client query_filter
  | CallCnsQueryAll client query_filter
  | CallTaskInfo string
  | CallTaskResult string
  | CallVmDevices moref
  | CallReadConfig string
  | CallListPVs
  | CallGetPVC string string
  | CallListPods string
  | CallPVLister string
  | CallPVCLister string string
  | CallGetNode string
  | CallNewKubernetesClient
  | CallListenNodes

type_synonym 'a answer = "call list \<Rightarrow> 'a"

record vsphere_env =
  ans_NewVimClient :: "(error + client) answer"
  ans_PemDecode :: "string \<Rightarrow> bool"
  ans_X509KeyPair :: "string \<Rightarrow> string \<Rightarrow> error + unit"
  ans_StsNewClient :: "(error + unit) answer"
  ans_StsIssue :: "(error + unit) answer"
  ans_Login :: "(error + unit) answer"
  ans_UserSession :: "(error + string option) answer"
  ans_NewPbmClient :: "(error + unit) answer"
  ans_NewCnsClient :: "(error + unit) answer"
  ans_Logout :: "(error + unit) answer"
  ans_ProfileIDByName :: "string \<Rightarrow> (error + string) answer"
  ans_CnsTask :: "(error + string) answer"
  ans_CnsQuery :: "query_filter \<Rightarrow> (error + cns_volume list) answer"
  ans_CnsQueryAll :: "query_filter \<Rightarrow> (error + cns_volume list) answer"
  ans_TaskInfo :: "(error + string) answer"
  ans_TaskResult :: "(error + task_result option) answer"
  ans_VmDevices :: "moref \<Rightarrow> (error + vm_device list) answer"

record k8s_env =
  ans_ListPVs :: "(error + pv list) answer"
  ans_GetPVC :: "string \<Rightarrow> string \<Rightarrow> (error + pvc) answer"
  ans_ListPods :: "string \<Rightarrow> (error + pod list) answer"
  ans_PVLister :: "string \<Rightarrow> (error + pv) answer"
  ans_PVCLister :: "string \<Rightarrow> string \<Rightarrow> (error + pvc) answer"
  ans_GetNode :: "string \<Rightarrow> (error + string) answer"

text \<open>
  The inventory of vCenter as the driver reads it: datacenters, datastores with their URLs, virtual
  machines, hosts, and the tags with their categories; and the order in which the goroutines of a
  virtual machine search are scheduled: the number of a step picks one of the goroutines that can move.
\<close>

record inventory_env =
  ans_DatacenterList :: "client \<Rightarrow> (error + moref list) answer"
  ans_Datacenter :: "client \<Rightarrow> string \<Rightarrow> (error + moref) answer"
  ans_DatastoreList :: "client \<Rightarrow> moref \<Rightarrow> (error + moref list) answer"
  ans_DatastoreInfo :: "client \<Rightarrow> moref list \<Rightarrow> (error + (moref \<times> string) list) answer"
  ans_DatastoreSummary :: "client \<Rightarrow> moref \<Rightarrow> (error + string) answer"
  ans_FindByUuid :: "client \<Rightarrow> moref \<Rightarrow> string \<Rightarrow> bool \<Rightarrow> (error + moref option) answer"
  ans_VmSummary :: "client \<Rightarrow> moref list \<Rightarrow> (error + string list) answer"  \<comment> \<open>the power states\<close>
  ans_VmHost :: "client \<Rightarrow> moref \<Rightarrow> (error + moref) answer"
  ans_HostSummary :: "client \<Rightarrow> moref \<Rightarrow> (error + unit) answer"
  ans_HostDatastores :: "client \<Rightarrow> moref \<Rightarrow> (error + moref list) answer"
  ans_ClusterHosts :: "client \<Rightarrow> moref \<Rightarrow> (error + moref list) answer"
  ans_Ancestors :: "client \<Rightarrow> moref \<Rightarrow> (error + moref list) answer"
  ans_RestLogin :: "client \<Rightarrow> (error + unit) answer"
  ans_ListAttachedTags :: "client \<Rightarrow> moref \<Rightarrow> (error + string list) answer"
  ans_GetTag :: "client \<Rightarrow> string \<Rightarrow> (error + string \<times> string) answer"  \<comment> \<open>name and category id\<close>
  ans_GetCategory :: "client \<Rightarrow> string \<Rightarrow> (error + string) answer"
  ans_ApiVersion :: "client \<Rightarrow> string"
  schedule :: "(nat \<Rightarrow> nat) answer"

text \<open>
  The calls that change what CNS stores. A task id names a task, the other calls only read.
\<close>

fun cns_mutation :: "call \<Rightarrow> bool" where
  "cns_mutation (CallCnsCreate _ _) = True"
| "cns_mutation (CallCnsAttach _ _) = True"
| "cns_mutation (CallCnsDetach _ _) = True"
| "cns_mutation (CallCnsDelete _ _ _) = True"
| "cns_mutation (CallCnsUpdate _ _) = True"
| "cns_mutation _ = False"

lemma DeepEqual_labels_Some [simp]:
  "DeepEqual_labels (Some xs) (Some ys) \<longleftrightarrow> map_of xs = map_of ys"
proof
  assume eq: "DeepEqual_labels (Some xs) (Some ys)"
  show "map_of xs = map_of ys"
  proof
    fix k show "map_of xs k = map_of ys k"
    proof (cases "k \<in> fst ` set xs \<union> fst ` set ys")
      case True with eq show ?thesis by (auto simp: DeepEqual_labels_def list_all_iff)
    next
      case False then show ?thesis by (simp add: map_of_eq_None_iff [THEN iffD2])
    qed
  qed
qed (simp add: DeepEqual_labels_def list_all_iff)

lemma DeepEqual_labels_None [simp]:
  "DeepEqual_labels None b \<longleftrightarrow> b = None" "DeepEqual_labels a None \<longleftrightarrow> a = None"
  by (auto simp: DeepEqual_labels_def split: option.splits)

text \<open>A Kubernetes API that has no objects, for the witnesses.\<close>

definition sample_k8s :: k8s_env where
  "sample_k8s = \<lparr>ans_ListPVs = (\<lambda>_. Inr []), ans_GetPVC = (\<lambda>_ _ _. Inl (OutsideError ''not found'')),
     ans_ListPods = (\<lambda>_ _. Inr []), ans_PVLister = (\<lambda>_ _. Inl (OutsideError ''not found'')),
     ans_PVCLister = (\<lambda>_ _ _. Inl (OutsideError ''not found'')),
     ans_GetNode = (\<lambda>_ _. Inl (OutsideError ''not found''))\<rparr>"

end
