(* ===== verification/Program_Logic.thy ===== *)
theory Program_Logic
  imports External
begin

text \<open>
  Triples for programs that may fail: \<open>valid P m Q E\<close> says that \<open>m\<close>, started in a state that satisfies \<open>P\<close>,
  ends in one that satisfies \<open>Q\<close> for its result, or \<open>E\<close> for its error. A program is \<open>sound\<close> for an
  invariant when it keeps the invariant whatever its outcome and panics only where \<open>lost\<close> holds; the rules for
  the constructs of a program are collected in \<open>sound_rules\<close>.
\<close>

named_theorems sound_rules \<open>introduction rules for sound programs\<close>

definition valid ::
  "('s \<Rightarrow> bool) \<Rightarrow> ('s, error + 'a) state \<Rightarrow> ('a \<Rightarrow> 's \<Rightarrow> bool) \<Rightarrow> (error \<Rightarrow> 's \<Rightarrow> bool) \<Rightarrow> bool" where
  "valid P m Q E \<longleftrightarrow> (\<forall>s. P s \<longrightarrow> (case run_state m s of (Inr x, s') \<Rightarrow> Q x s' | (Inl e, s') \<Rightarrow> E e s'))"

lemma validI:
  assumes "\<And>s x s'. P s \<Longrightarrow> run_state m s = (Inr x, s') \<Longrightarrow> Q x s'"
    and "\<And>s e s'. P s \<Longrightarrow> run_state m s = (Inl e, s') \<Longrightarrow> E e s'"
  shows "valid P m Q E"
  unfolding valid_def using assms by (auto split: prod.splits sum.splits)

lemma validD:
  assumes "valid P m Q E" and "P s" and "run_state m s = (r, s')"
  shows "case r of Inr x \<Rightarrow> Q x s' | Inl e \<Rightarrow> E e s'"
  using assms unfolding valid_def by (cases r) fastforce+

lemma valid_Inr: "valid P m Q E \<Longrightarrow> P s \<Longrightarrow> run_state m s = (Inr x, s') \<Longrightarrow> Q x s'"
  using validD by fastforce

lemma valid_Inl: "valid P m Q E \<Longrightarrow> P s \<Longrightarrow> run_state m s = (Inl e, s') \<Longrightarrow> E e s'"
  using validD by fastforce

lemma valid_conseq:
  assumes "valid P' m Q' E'" and "\<And>s. P s \<Longrightarrow> P' s" and "\<And>x s. Q' x s \<Longrightarrow> Q x s" and "\<And>e s. E' e s \<Longrightarrow> E e s"
  shows "valid P m Q E"
  using assms by (intro validI) (blast dest: valid_Inr valid_Inl)+

lemma valid_return: "(\<And>s. P s \<Longrightarrow> case r of Inr x \<Rightarrow> Q x s | Inl e \<Rightarrow> E e s) \<Longrightarrow> valid P (State_Monad.return r) Q E"
  by (rule validI) fastforce+

lemma valid_bindE:
  assumes "valid P m R E" and "\<And>x. valid (R x) (k x) Q E"
  shows "valid P (bindE m k) Q E"
  using assms
  by (intro validI) (auto split: prod.splits sum.splits dest: valid_Inr valid_Inl)

lemma valid_bind:
  assumes "\<And>s a s'. P s \<Longrightarrow> run_state m s = (a, s') \<Longrightarrow> R a s'" and "\<And>a. valid (R a) (k a) Q E"
  shows "valid P (State_Monad.bind m k) Q E"
proof (rule validI)
  fix s x s' assume "P s" and run: "run_state (State_Monad.bind m k) s = (Inr x, s')"
  moreover obtain a s1 where "run_state m s = (a, s1)" by fastforce
  ultimately show "Q x s'" using assms valid_Inr by fastforce
next
  fix s e s' assume "P s" and run: "run_state (State_Monad.bind m k) s = (Inl e, s')"
  moreover obtain a s1 where "run_state m s = (a, s1)" by fastforce
  ultimately show "E e s'" using assms valid_Inl by fastforce
qed

section \<open>Sound programs\<close>

fun panics :: "error \<Rightarrow> bool" where
  "panics (Panic _) = True"
| "panics _ = False"

text \<open>The states in which a program may fail: with a plain error only if \<open>plain\<close>, with a panic only if \<open>lost\<close>.\<close>

definition fails :: "('s \<Rightarrow> bool) \<Rightarrow> ('s \<Rightarrow> bool) \<Rightarrow> bool \<Rightarrow> error \<Rightarrow> 's \<Rightarrow> bool" where
  "fails I lost plain e s \<longleftrightarrow> I s \<and> (if panics e then lost s else plain)"

definition sound :: "('s \<Rightarrow> bool) \<Rightarrow> ('s \<Rightarrow> bool) \<Rightarrow> bool \<Rightarrow> ('s, error + 'a) state \<Rightarrow> bool" where
  "sound I lost plain m \<longleftrightarrow> valid I m (\<lambda>_. I) (fails I lost plain)"

text \<open>A call to the outside, or a function of a library, that returns.\<close>

definition returns :: "('h \<Rightarrow> error + 'a) \<Rightarrow> bool" where
  "returns answer \<longleftrightarrow> (\<forall>h e. answer h = Inl e \<longrightarrow> \<not> panics e)"

lemma soundI:
  assumes "\<And>s x s'. I s \<Longrightarrow> run_state m s = (Inr x, s') \<Longrightarrow> I s'"
    and "\<And>s e s'. I s \<Longrightarrow> run_state m s = (Inl e, s') \<Longrightarrow> I s' \<and> (if panics e then lost s' else plain)"
  shows "sound I lost plain m"
  unfolding sound_def
proof (rule validI)
  fix s e s' assume "I s" and "run_state m s = (Inl e, s')"
  then show "fails I lost plain e s'" unfolding fails_def by (rule assms(2))
qed (rule assms(1))

lemma sound_Inr: "sound I lost plain m \<Longrightarrow> I s \<Longrightarrow> run_state m s = (Inr x, s') \<Longrightarrow> I s'"
  unfolding sound_def by (rule valid_Inr)

lemma sound_Inl:
  "sound I lost plain m \<Longrightarrow> I s \<Longrightarrow> run_state m s = (Inl e, s') \<Longrightarrow> I s' \<and> (if panics e then lost s' else plain)"
  unfolding sound_def using valid_Inl by (fastforce simp: fails_def)

lemma sound_keeps: "sound I lost plain m \<Longrightarrow> I s \<Longrightarrow> run_state m s = (r, s') \<Longrightarrow> I s'"
  by (cases r) (auto dest: sound_Inr sound_Inl)

lemma sound_no_panic:
  "sound I (\<lambda>_. False) False m \<Longrightarrow> I s \<Longrightarrow> run_state m s = (r, s') \<Longrightarrow> \<exists>x. r = Inr x"
  by (cases r) (auto dest: sound_Inl split: if_splits)

lemma sound_weaken:
  "sound I lost plain m \<Longrightarrow> (\<And>s. lost s \<Longrightarrow> lost' s) \<Longrightarrow> (plain \<Longrightarrow> plain') \<Longrightarrow> sound I lost' plain' m"
  unfolding sound_def by (erule valid_conseq) (auto simp: fails_def split: if_splits)

lemma sound_Inr_return [sound_rules]: "sound I lost plain (State_Monad.return (Inr x))"
  by (rule soundI) auto

lemma sound_return: "(\<And>e. r = Inl e \<Longrightarrow> plain \<and> \<not> panics e) \<Longrightarrow> sound I lost plain (State_Monad.return r)"
  by (rule soundI) auto

lemma sound_bindE [sound_rules]:
  "sound I lost plain m \<Longrightarrow> (\<And>x. sound I lost plain (k x)) \<Longrightarrow> sound I lost plain (bindE m k)"
  unfolding sound_def by (rule valid_bindE)

lemma sound_bind [sound_rules]:
  "keeps I m \<Longrightarrow> (\<And>a. sound I lost plain (k a)) \<Longrightarrow> sound I lost plain (State_Monad.bind m k)"
  unfolding sound_def by (rule valid_bind [where R = "\<lambda>_. I"]) (auto dest: keepsD)

lemma sound_bind_fact:
  assumes "\<And>s a s'. I s \<Longrightarrow> run_state m s = (a, s') \<Longrightarrow> I s' \<and> F a"
    and "\<And>a. F a \<Longrightarrow> sound I lost plain (k a)"
  shows "sound I lost plain (State_Monad.bind m k)"
  unfolding sound_def
proof (rule valid_bind [where R = "\<lambda>a s. I s \<and> F a"])
  fix a
  show "valid (\<lambda>s. I s \<and> F a) (k a) (\<lambda>_. I) (fails I lost plain)"
    by (cases "F a") (use assms(2) in \<open>auto simp: sound_def valid_def\<close>)
qed (rule assms(1))

lemma sound_handle [sound_rules]:
  assumes "sound I lost True m" and "\<And>err. sound I lost plain (h err)" and "\<And>x. sound I lost plain (k x)"
  shows "sound I lost plain (handle m h k)"
proof -
  have step: "if panics e then I s1 \<and> lost s1 \<and> run_state (handle m h k) s = (Inl e, s1)
      else I s1 \<and> run_state (handle m h k) s = run_state (h e) s1"
    if "I s" "run_state m s = (Inl e, s1)" for s e s1
    using sound_Inl [OF assms(1) that] that by (cases e) auto
  show ?thesis
  proof (rule soundI)
    fix s x s' assume "I s" and run: "run_state (handle m h k) s = (Inr x, s')"
    obtain r s1 where m: "run_state m s = (r, s1)" by fastforce
    show "I s'"
    proof (cases r)
      case (Inl e)
      from step [OF \<open>I s\<close>, of e s1] m run Inl have "I s1" "run_state (h e) s1 = (Inr x, s')"
        by (auto split: if_splits)
      with assms(2) show ?thesis by (blast intro: sound_Inr)
    next
      case (Inr y)
      with run m sound_Inr [OF assms(1) \<open>I s\<close>, of y s1] show ?thesis by (auto intro: sound_Inr [OF assms(3)])
    qed
  next
    fix s e s' assume "I s" and run: "run_state (handle m h k) s = (Inl e, s')"
    obtain r s1 where m: "run_state m s = (r, s1)" by fastforce
    show "I s' \<and> (if panics e then lost s' else plain)"
    proof (cases r)
      case (Inl e1)
      show ?thesis
      proof (cases "panics e1")
        case True with step [OF \<open>I s\<close>, of e1 s1] m run Inl show ?thesis by auto
      next
        case False
        with step [OF \<open>I s\<close>, of e1 s1] m run Inl have "I s1" "run_state (h e1) s1 = (Inl e, s')" by auto
        then show ?thesis by (rule sound_Inl [OF assms(2)])
      qed
    next
      case (Inr y)
      with run m sound_Inr [OF assms(1) \<open>I s\<close>, of y s1] show ?thesis
        by (intro sound_Inl [OF assms(3), of s1 y]) auto
    qed
  qed
qed

lemma sound_if [sound_rules]:
  "(b \<Longrightarrow> sound I lost plain m) \<Longrightarrow> (\<not> b \<Longrightarrow> sound I lost plain n) \<Longrightarrow> sound I lost plain (if b then m else n)"
  by simp

lemma sound_case_option [sound_rules]:
  "(r = None \<Longrightarrow> sound I lost plain f) \<Longrightarrow> (\<And>x. r = Some x \<Longrightarrow> sound I lost plain (g x)) \<Longrightarrow>
   sound I lost plain (case r of None \<Rightarrow> f | Some x \<Rightarrow> g x)"
  by (cases r) auto

lemma sound_case_sum [sound_rules]:
  "(\<And>e. r = Inl e \<Longrightarrow> sound I lost plain (f e)) \<Longrightarrow> (\<And>x. r = Inr x \<Longrightarrow> sound I lost plain (g x)) \<Longrightarrow>
   sound I lost plain (case r of Inl e \<Rightarrow> f e | Inr x \<Rightarrow> g x)"
  by (cases r) auto

lemma sound_case_prod [sound_rules]:
  "(\<And>x y. r = (x, y) \<Longrightarrow> sound I lost plain (f x y)) \<Longrightarrow> sound I lost plain (case r of (x, y) \<Rightarrow> f x y)"
  by (cases r) auto

lemma sound_case_list [sound_rules]:
  "(xs = [] \<Longrightarrow> sound I lost plain f) \<Longrightarrow> (\<And>y ys. xs = y # ys \<Longrightarrow> sound I lost plain (g y ys)) \<Longrightarrow>
   sound I lost plain (case xs of [] \<Rightarrow> f | y # ys \<Rightarrow> g y ys)"
  by (cases xs) auto

lemma sound_mapE [sound_rules]:
  "(\<And>x. sound I lost plain (f x)) \<Longrightarrow> sound I lost plain (mapE f xs)"
  by (induction xs) (auto intro!: sound_rules)

lemma sound_perform:
  "returns answer \<Longrightarrow> (\<And>s tr. I (s\<lparr>trace := tr\<rparr>) = I s) \<Longrightarrow> sound I lost True (perform c answer)"
  by (rule soundI) (auto simp: returns_def)

text \<open>A program that cleans up after an error and passes the error on, or that handles only some errors.\<close>

lemma sound_result:
  assumes "sound I (\<lambda>_. False) True m" and "\<And>err. \<not> panics err \<Longrightarrow> sound I lost plain (h err)"
    and "\<And>x. sound I lost plain (k x)"
  shows "sound I lost plain (State_Monad.bind m (\<lambda>r. case r of Inl err \<Rightarrow> h err | Inr x \<Rightarrow> k x))"
    (is "sound I lost plain ?p")
proof -
  have step: "(\<exists>err. \<not> panics err \<and> run_state ?p s = run_state (h err) s1) \<or> (\<exists>x. run_state ?p s = run_state (k x) s1)"
    and kept: "I s1" if "I s" "run_state m s = (r, s1)" for s r s1
    using that sound_Inl [OF assms(1) that(1)] sound_keeps [OF assms(1) that] by (cases r; auto split: if_splits)+
  show ?thesis
  proof (rule soundI)
    fix s x s' assume "I s" "run_state ?p s = (Inr x, s')"
    moreover obtain r s1 where "run_state m s = (r, s1)" by fastforce
    ultimately show "I s'" using step kept assms(2,3) by (metis sound_Inr)
  next
    fix s e s' assume "I s" "run_state ?p s = (Inl e, s')"
    moreover obtain r s1 where "run_state m s = (r, s1)" by fastforce
    ultimately show "I s' \<and> (if panics e then lost s' else plain)"
      using step kept sound_Inl [OF assms(2)] sound_Inl [OF assms(3)] by metis
  qed
qed

text \<open>A case distinction on the result that passes a panic on is a handler.\<close>

lemma bind_case_handle:
  assumes "\<And>err. panics err \<Longrightarrow> h err = State_Monad.return (Inl err)"
  shows "State_Monad.bind m (\<lambda>r. case r of Inl err \<Rightarrow> h err | Inr x \<Rightarrow> k x) = handle m h k"
  unfolding handle_def
  by (rule arg_cong [where f = "State_Monad.bind m"]) (auto simp: fun_eq_iff assms split: sum.splits error.splits)

lemma sound_handle_plain:
  assumes "sound I lost True m" and "\<And>err. \<not> panics err \<Longrightarrow> sound I lost plain (h err)"
    and "\<And>x. sound I lost plain (k x)"
  shows "sound I lost plain (handle m h k)"
proof -
  have "handle m h k = handle m (\<lambda>err. if panics err then State_Monad.return (Inr undefined) else h err) k"
    unfolding handle_def
    by (rule arg_cong [where f = "State_Monad.bind m"]) (auto simp: fun_eq_iff split: sum.splits error.splits)
  also have "sound I lost plain \<dots>"
    using assms by (intro sound_handle sound_if sound_Inr_return) auto
  finally show ?thesis .
qed

lemma sound_result_panic:
  assumes "sound I lost True m" and "\<And>err. \<not> panics err \<Longrightarrow> sound I lost plain (h err)"
    and "\<And>x. sound I lost plain (k x)" and "\<And>err. panics err \<Longrightarrow> h err = State_Monad.return (Inl err)"
  shows "sound I lost plain (State_Monad.bind m (\<lambda>r. case r of Inl err \<Rightarrow> h err | Inr x \<Rightarrow> k x))"
proof -
  have "State_Monad.bind m (\<lambda>r. case r of Inl err \<Rightarrow> h err | Inr x \<Rightarrow> k x) = handle m h k"
    using assms(4) by (rule bind_case_handle)
  moreover have "sound I lost plain (handle m h k)" using assms(1-3) by (rule sound_handle_plain)
  ultimately show ?thesis by simp
qed

text \<open>A program that first strengthens the invariant.\<close>

lemma valid_then_sound:
  assumes "valid I m (\<lambda>_. J) (fails I lost plain)" and "\<And>x. sound J lost plain (k x)" and "\<And>s. J s \<Longrightarrow> I s"
  shows "sound I lost plain (bindE m k)"
  unfolding sound_def
  by (rule valid_bindE [OF assms(1)], rule valid_conseq [OF assms(2) [unfolded sound_def]])
     (auto simp: fails_def dest: assms(3))

end
