(* ===== verification/Config.thy ===== *)
theory Config
  imports External "HOL-Library.AList"
begin

text \<open>
  \<open>pkg/common/config\<close>: the driver's configuration, read from the file and overridden by the
  environment (\<open>GetCnsconfig\<close>, \<open>ReadConfig\<close>, \<open>FromEnv\<close>) and validated (\<open>validateConfig\<close>).

  \<open>cfg.VirtualCenter\<close> is the list of its entries in the order \<open>range\<close> visits them; the theorems hold
  for every such list, hence for every iteration order. The environment is what \<open>os.Environ\<close>
  returns, a list of \<open>KEY=value\<close> strings. The \<open>gcfg\<close> parser and the file system are the parameter
  \<open>file_answer\<close>. \<open>FromEnv\<close> and \<open>validateConfig\<close> update the configuration in place, also when they
  fail, so they return an error and the updated configuration.
\<close>

section \<open>Types\<close>

record vc_section =
  User :: string
  Password :: string
  VCenterPort :: string
  InsecureFlag :: bool
  Datacenters :: string

record config =
  Global_VCenterIP :: string
  Global_ClusterID :: string
  Global_User :: string
  Global_Password :: string
  Global_VCenterPort :: string
  Global_InsecureFlag :: bool
  Global_Datacenters :: string
  VirtualCenter :: "(string \<times> vc_section) list"
  Labels_Zone :: string
  Labels_Region :: string

definition empty_config :: config where
  "empty_config =
     \<lparr>Global_VCenterIP = [], Global_ClusterID = [], Global_User = [], Global_Password = [],
      Global_VCenterPort = [], Global_InsecureFlag = False, Global_Datacenters = [],
      VirtualCenter = [], Labels_Zone = [], Labels_Region = []\<rparr>"

definition DefaultVCenterPort :: string where "DefaultVCenterPort = ''443''"

definition DefaultCloudConfigPath :: string where
  "DefaultCloudConfigPath = ''/etc/cloud/csi-vsphere.conf''"

section \<open>The environment\<close>

type_synonym environ = "string list"

text \<open>\<open>os.Getenv\<close>: the value of the first entry with that key, or the empty string.\<close>

fun Getenv :: "environ \<Rightarrow> string \<Rightarrow> string" where
  "Getenv [] key = []"
| "Getenv (e # es) key =
     (if HasPrefix e (key @ ''='') \<and> CHR ''='' \<notin> set key then drop (Suc (length key)) e
      else Getenv es key)"

fun getEnvKeyValue :: "environ \<Rightarrow> string \<Rightarrow> bool \<Rightarrow> error + string \<times> string" where
  "getEnvKeyValue [] match partial = Inl (Errorf ''Failed to find %s with %s'')"
| "getEnvKeyValue (e # es) match partial =
     (case Split e (CHR ''='') of
        [key, value] \<Rightarrow>
          if partial \<and> Contains key match then Inr (key, value)
          else if key = match then Inr (key, value)
          else getEnvKeyValue es match partial
      | _ \<Rightarrow> getEnvKeyValue es match partial)"

text \<open>The value \<open>getEnvKeyValue\<close> found, or the default the caller falls back to.\<close>

definition env_or :: "environ \<Rightarrow> string \<Rightarrow> string \<Rightarrow> string" where
  "env_or environ match dflt =
     (case getEnvKeyValue environ match False of Inl _ \<Rightarrow> dflt | Inr (_, v) \<Rightarrow> v)"

section \<open>Validation\<close>

definition validateVC :: "config \<Rightarrow> string \<Rightarrow> vc_section \<Rightarrow> error option \<times> vc_section" where
  "validateVC cfg vcServer vc =
     (if vcServer = [] then (Some ErrInvalidVCenterIP, vc)
      else
        let vc1 = (if User vc = [] then vc\<lparr>User := Global_User cfg\<rparr> else vc)
        in if User vc1 = [] then (Some ErrUsernameMissing, vc1)
        else
          let vc2 = (if Password vc1 = [] then vc1\<lparr>Password := Global_Password cfg\<rparr> else vc1)
          in if Password vc2 = [] then (Some ErrPasswordMissing, vc2)
          else
            let vc3 = (if VCenterPort vc2 = [] then vc2\<lparr>VCenterPort := Global_VCenterPort cfg\<rparr>
                       else vc2);
                vc4 = (if Datacenters vc3 = [] \<and> Global_Datacenters cfg \<noteq> []
                       then vc3\<lparr>Datacenters := Global_Datacenters cfg\<rparr> else vc3);
                vc5 = (if \<not> InsecureFlag vc4 then vc4\<lparr>InsecureFlag := Global_InsecureFlag cfg\<rparr>
                       else vc4)
            in (None, vc5))"

fun validateVCs ::
  "config \<Rightarrow> (string \<times> vc_section) list \<Rightarrow> error option \<times> (string \<times> vc_section) list" where
  "validateVCs cfg [] = (None, [])"
| "validateVCs cfg ((server, vc) # rest) =
     (case validateVC cfg server vc of
        (Some e, vc') \<Rightarrow> (Some e, (server, vc') # rest)
      | (None, vc') \<Rightarrow>
          (case validateVCs cfg rest of (err, rest') \<Rightarrow> (err, (server, vc') # rest')))"

definition validateConfig :: "config \<Rightarrow> error option \<times> config" where
  "validateConfig cfg =
     (let cfg1 = (if Global_VCenterPort cfg = [] then cfg\<lparr>Global_VCenterPort := DefaultVCenterPort\<rparr>
                  else cfg)
      in if VirtualCenter cfg1 = [] then (Some ErrMissingVCenter, cfg1)
         else case validateVCs cfg1 (VirtualCenter cfg1) of
           (err, vcs) \<Rightarrow> (err, cfg1\<lparr>VirtualCenter := vcs\<rparr>))"

section \<open>Configuration from the environment\<close>

definition overrideGlobals :: "environ \<Rightarrow> config \<Rightarrow> config" where
  "overrideGlobals environ cfg =
     (let or_env = (\<lambda>key old. let v = Getenv environ key in if v \<noteq> [] then v else old);
          insecure = (case ParseBool (Getenv environ ''VSPHERE_INSECURE'') of
                        None \<Rightarrow> Global_InsecureFlag cfg | Some b \<Rightarrow> b)
      in cfg\<lparr>Global_VCenterIP := or_env ''VSPHERE_VCENTER'' (Global_VCenterIP cfg),
             Global_VCenterPort := or_env ''VSPHERE_VCENTER_PORT'' (Global_VCenterPort cfg),
             Global_User := or_env ''VSPHERE_USER'' (Global_User cfg),
             Global_Password := or_env ''VSPHERE_PASSWORD'' (Global_Password cfg),
             Global_Datacenters := or_env ''VSPHERE_DATACENTER'' (Global_Datacenters cfg),
             Global_InsecureFlag := insecure,
             Labels_Region := or_env ''VSPHERE_LABEL_REGION'' (Labels_Region cfg),
             Labels_Zone := or_env ''VSPHERE_LABEL_ZONE'' (Labels_Zone cfg)\<rparr>)"

definition VcenterPrefix :: string where "VcenterPrefix = ''VSPHERE_VCENTER_''"

definition vcFromEnv :: "environ \<Rightarrow> config \<Rightarrow> string \<Rightarrow> vc_section" where
  "vcFromEnv environ cfg vcId =
     (let pre = ''VCENTER_'' @ vcId;
          insecureFlag =
            (case getEnvKeyValue environ (pre @ ''_INSECURE'') False of
               Inl _ \<Rightarrow> (case ParseBool [] of None \<Rightarrow> False | Some b \<Rightarrow> b)
             | Inr _ \<Rightarrow> False)
      in \<lparr>User = env_or environ (pre @ ''_USERNAME'') (Global_User cfg),
          Password = env_or environ (pre @ ''_PASSWORD'') (Global_Password cfg),
          VCenterPort = env_or environ (pre @ ''_PORT'') (Global_VCenterPort cfg),
          InsecureFlag = insecureFlag,
          Datacenters = env_or environ (pre @ ''_DATACENTERS'') (Global_Datacenters cfg)\<rparr>)"

definition addEnvVC :: "environ \<Rightarrow> string \<Rightarrow> config \<Rightarrow> config" where
  "addEnvVC environ e cfg =
     (case Split e (CHR ''='') of
        [key, value] \<Rightarrow>
          if HasPrefix key VcenterPrefix \<and> value \<noteq> []
          then cfg\<lparr>VirtualCenter :=
                    AList.update value (vcFromEnv environ cfg (TrimPrefix key VcenterPrefix))
                      (VirtualCenter cfg)\<rparr>
          else cfg
      | _ \<Rightarrow> cfg)"

definition addGlobalVC :: "config \<Rightarrow> config" where
  "addGlobalVC cfg =
     (if Global_VCenterIP cfg \<noteq> [] \<and> map_of (VirtualCenter cfg) (Global_VCenterIP cfg) = None
      then cfg\<lparr>VirtualCenter :=
                AList.update (Global_VCenterIP cfg)
                  \<lparr>User = Global_User cfg, Password = Global_Password cfg,
                   VCenterPort = Global_VCenterPort cfg, InsecureFlag = Global_InsecureFlag cfg,
                   Datacenters = Global_Datacenters cfg\<rparr>
                  (VirtualCenter cfg)\<rparr>
      else cfg)"

text \<open>The argument is a pointer: \<open>None\<close> is nil.\<close>

fun FromEnv :: "environ \<Rightarrow> config option \<Rightarrow> error option \<times> config option" where
  "FromEnv environ None = (Some (Errorf ''Config object cannot be nil''), None)"
| "FromEnv environ (Some cfg) =
     (let cfg1 = overrideGlobals environ cfg;
          cfg2 = fold (addEnvVC environ) environ cfg1;
          cfg3 = addGlobalVC cfg2
      in case validateConfig cfg3 of (err, cfg4) \<Rightarrow> (err, Some cfg4))"

text \<open>The configuration a caller gets from a fresh one: \<open>FromEnv\<close> as a fallible function.\<close>

definition fromEnvOrError :: "environ \<Rightarrow> config \<Rightarrow> error + config" where
  "fromEnvOrError environ cfg =
     (case FromEnv environ (Some cfg) of
        (None, Some cfg') \<Rightarrow> Inr cfg'
      | (Some err, _) \<Rightarrow> Inl err
      | (None, None) \<Rightarrow> Inl (Panic ''nil Config''))"

section \<open>Reading the configuration\<close>

datatype file_answer =
    FileMissing
  | OpenFails error
  | Opened "error + config"  \<comment> \<open>what \<open>gcfg.ReadInto\<close> makes of the contents\<close>

text \<open>
  The outside of the driver process: vCenter and CNS (\<open>vsphere_env\<close>), the process environment, and
  the file system, whose contents may change between two reads.
\<close>

record env = vsphere_env +
  host_Environ :: environ
  host_Files :: "string \<Rightarrow> file_answer answer"

definition ReadConfig :: "environ \<Rightarrow> (error + config) option \<Rightarrow> error + config" where
  "ReadConfig environ reader =
     (case reader of
        None \<Rightarrow> Inl (Errorf ''no vSphere cloud provider config file given'')
      | Some (Inl err) \<Rightarrow> Inl err
      | Some (Inr cfg) \<Rightarrow> fromEnvOrError environ cfg)"

definition GetCnsconfig :: "environ \<Rightarrow> (string \<Rightarrow> file_answer) \<Rightarrow> string \<Rightarrow> error + config" where
  "GetCnsconfig environ files cfgPath =
     (case files cfgPath of
        FileMissing \<Rightarrow> fromEnvOrError environ empty_config
      | OpenFails err \<Rightarrow> Inl err
      | Opened parsed \<Rightarrow> ReadConfig environ (Some parsed))"

section \<open>Validated configurations\<close>

definition vc_ok :: "string \<times> vc_section \<Rightarrow> bool" where
  "vc_ok entry \<longleftrightarrow>
     (case entry of (server, vc) \<Rightarrow>
        server \<noteq> [] \<and> User vc \<noteq> [] \<and> Password vc \<noteq> [] \<and> VCenterPort vc \<noteq> [])"

definition config_ok :: "config \<Rightarrow> bool" where
  "config_ok cfg \<longleftrightarrow>
     VirtualCenter cfg \<noteq> [] \<and> Global_VCenterPort cfg \<noteq> [] \<and> list_all vc_ok (VirtualCenter cfg)"

text \<open>
  What a valid entry becomes: every empty field inherits the global one. \<open>vc_valid\<close> is the
  condition under which no error is raised.
\<close>

definition inheritVC :: "config \<Rightarrow> vc_section \<Rightarrow> vc_section" where
  "inheritVC cfg vc =
     \<lparr>User = (if User vc = [] then Global_User cfg else User vc),
      Password = (if Password vc = [] then Global_Password cfg else Password vc),
      VCenterPort = (if VCenterPort vc = [] then Global_VCenterPort cfg else VCenterPort vc),
      InsecureFlag = (InsecureFlag vc \<or> Global_InsecureFlag cfg),
      Datacenters = (if Datacenters vc = [] then Global_Datacenters cfg else Datacenters vc)\<rparr>"

definition vc_valid :: "config \<Rightarrow> string \<times> vc_section \<Rightarrow> bool" where
  "vc_valid cfg entry \<longleftrightarrow>
     (case entry of (server, vc) \<Rightarrow>
        server \<noteq> [] \<and> \<not> (User vc = [] \<and> Global_User cfg = []) \<and>
        \<not> (Password vc = [] \<and> Global_Password cfg = []))"

lemma validateVC_None:
  "validateVC cfg server vc = (None, vc') \<longleftrightarrow> vc_valid cfg (server, vc) \<and> vc' = inheritVC cfg vc"
  by (cases vc) (auto simp: validateVC_def vc_valid_def inheritVC_def Let_def)

lemma validateVC_fst: "fst (validateVC cfg server vc) = None \<longleftrightarrow> vc_valid cfg (server, vc)"
  using validateVC_None [of cfg server vc] by (metis prod.collapse fst_conv)

lemma inheritVC_idem [simp]: "inheritVC cfg (inheritVC cfg vc) = inheritVC cfg vc"
  by (simp add: inheritVC_def)

lemma vc_valid_inheritVC [simp]:
  "vc_valid cfg (server, inheritVC cfg vc) \<longleftrightarrow> vc_valid cfg (server, vc)"
  by (auto simp: vc_valid_def inheritVC_def)

lemma vc_ok_inheritVC:
  "vc_valid cfg (server, vc) \<Longrightarrow> Global_VCenterPort cfg \<noteq> [] \<Longrightarrow> vc_ok (server, inheritVC cfg vc)"
  by (auto simp: vc_valid_def inheritVC_def vc_ok_def)

lemma validateVCs_None:
  "validateVCs cfg vcs = (None, vcs') \<longleftrightarrow>
     list_all (vc_valid cfg) vcs \<and> vcs' = map (\<lambda>(s, vc). (s, inheritVC cfg vc)) vcs"
proof (induction cfg vcs arbitrary: vcs' rule: validateVCs.induct)
  case (2 cfg server vc rest)
  show ?case
  proof (cases "vc_valid cfg (server, vc)")
    case True
    then have "validateVC cfg server vc = (None, inheritVC cfg vc)" by (simp add: validateVC_None)
    with 2 [of _ "inheritVC cfg vc"] True show ?thesis
      by (cases "validateVCs cfg rest") auto
  next
    case False
    then obtain e vc' where "validateVC cfg server vc = (Some e, vc')"
      using validateVC_fst [of cfg server vc] by (metis not_None_eq prod.collapse)
    with False show ?thesis by simp
  qed
qed auto

lemma validateVCs_fst: "fst (validateVCs cfg vcs) = None \<longleftrightarrow> list_all (vc_valid cfg) vcs"
  using validateVCs_None [of cfg vcs] by (metis prod.collapse fst_conv)

lemma validateVCs_keys [simp]: "map fst (snd (validateVCs cfg vcs)) = map fst vcs"
  by (induction cfg vcs rule: validateVCs.induct) (auto split: prod.splits option.splits)

lemma validateConfig_NoneE:
  assumes "validateConfig cfg = (None, cfg')"
  obtains c1 where "Global_VCenterPort c1 \<noteq> []" and "VirtualCenter c1 = VirtualCenter cfg"
    and "Global_InsecureFlag c1 = Global_InsecureFlag cfg"
    and "VirtualCenter cfg \<noteq> []" and "list_all (vc_valid c1) (VirtualCenter cfg)"
    and "cfg' = c1\<lparr>VirtualCenter := map (\<lambda>(s, vc). (s, inheritVC c1 vc)) (VirtualCenter cfg)\<rparr>"
proof -
  define c1 where "c1 = (if Global_VCenterPort cfg = []
    then cfg\<lparr>Global_VCenterPort := DefaultVCenterPort\<rparr> else cfg)"
  have c1: "Global_VCenterPort c1 \<noteq> []" "VirtualCenter c1 = VirtualCenter cfg"
    "Global_InsecureFlag c1 = Global_InsecureFlag cfg"
    by (simp_all add: c1_def DefaultVCenterPort_def)
  obtain err vcs where v: "validateVCs c1 (VirtualCenter cfg) = (err, vcs)" by fastforce
  with assms have "VirtualCenter cfg \<noteq> []" "err = None" "cfg' = c1\<lparr>VirtualCenter := vcs\<rparr>"
    by (auto simp: validateConfig_def Let_def c1(2) simp flip: c1_def split: if_splits)
  with c1 v that show ?thesis by (simp add: validateVCs_None)
qed

lemma validateConfig_keys [simp]:
  "map fst (VirtualCenter (snd (validateConfig cfg))) = map fst (VirtualCenter cfg)"
  by (simp add: validateConfig_def Let_def case_prod_beta)

lemma validateConfig_port: "Global_VCenterPort (snd (validateConfig cfg)) \<noteq> []"
  by (auto simp: validateConfig_def Let_def DefaultVCenterPort_def split: prod.splits)

subsection \<open>The entries the environment adds\<close>

lemma Split_no_sep: "sep \<notin> set s \<Longrightarrow> Split s sep = [s]"
  by (induction s) auto

lemma Split_at_sep: "sep \<notin> set k \<Longrightarrow> Split (k @ sep # v) sep = k # Split v sep"
  by (induction k) auto

lemma InsecureFlag_vcFromEnv [simp]: "\<not> InsecureFlag (vcFromEnv environ cfg vcId)"
  by (auto simp: vcFromEnv_def Let_def ParseBool_def split: sum.splits)

lemma keys_addEnvVC:
  "fst ` set (VirtualCenter cfg) \<subseteq> fst ` set (VirtualCenter (addEnvVC environ e cfg))"
  by (auto simp: addEnvVC_def dom_update split: list.splits)

lemma keys_fold_addEnvVC:
  "fst ` set (VirtualCenter cfg) \<subseteq> fst ` set (VirtualCenter (fold (addEnvVC environ) es cfg))"
proof (induction es arbitrary: cfg)
  case (Cons e es)
  from subset_trans [OF keys_addEnvVC Cons.IH] show ?case by simp
qed simp

lemma keys_fold_addEnvVC_entry:
  assumes "VcenterPrefix @ sfx @ ''='' @ host \<in> set es"
    and "CHR ''='' \<notin> set sfx" and "CHR ''='' \<notin> set host" and "host \<noteq> []"
  shows "host \<in> fst ` set (VirtualCenter (fold (addEnvVC environ) es cfg))"
  using assms(1)
proof (induction es arbitrary: cfg)
  case (Cons e es)
  show ?case
  proof (cases "e = VcenterPrefix @ sfx @ ''='' @ host")
    case True
    have "CHR ''='' \<notin> set (VcenterPrefix @ sfx)"
      using assms(2) by (simp add: VcenterPrefix_def)
    then have "Split e (CHR ''='') = [VcenterPrefix @ sfx, host]"
      using Split_at_sep [of "CHR ''=''" "VcenterPrefix @ sfx" host] Split_no_sep [OF assms(3)]
      by (simp add: True)
    then have "host \<in> fst ` set (VirtualCenter (addEnvVC environ e cfg))"
      using assms(4) by (simp add: addEnvVC_def HasPrefix_def dom_update)
    with keys_fold_addEnvVC [of "addEnvVC environ e cfg" environ es] show ?thesis by auto
  next
    case False
    with Cons show ?thesis by simp
  qed
qed simp

lemma keys_addGlobalVC:
  "fst ` set (VirtualCenter cfg) \<subseteq> fst ` set (VirtualCenter (addGlobalVC cfg))"
  by (auto simp: addGlobalVC_def dom_update)

lemma fromEnvOrError_Inr:
  "fromEnvOrError environ cfg = Inr cfg' \<longleftrightarrow>
     validateConfig (addGlobalVC (fold (addEnvVC environ) environ (overrideGlobals environ cfg)))
       = (None, cfg')"
  by (auto simp: fromEnvOrError_def Let_def split: prod.splits option.splits)

lemma insecure_addEnvVC:
  "list_all (\<lambda>(s, vc). \<not> InsecureFlag vc) (VirtualCenter cfg) \<Longrightarrow>
   list_all (\<lambda>(s, vc). \<not> InsecureFlag vc) (VirtualCenter (addEnvVC environ e cfg))"
proof -
  have *: "list_all (\<lambda>(s, vc). \<not> InsecureFlag vc) (AList.update k v al)"
    if "list_all (\<lambda>(s, vc). \<not> InsecureFlag vc) al" "\<not> InsecureFlag v" for k v al
    using that by (induction al) auto
  assume "list_all (\<lambda>(s, vc). \<not> InsecureFlag vc) (VirtualCenter cfg)"
  then show ?thesis by (auto simp: addEnvVC_def intro!: * split: list.splits)
qed

lemma insecure_fold_addEnvVC:
  "list_all (\<lambda>(s, vc). \<not> InsecureFlag vc) (VirtualCenter cfg) \<Longrightarrow>
   list_all (\<lambda>(s, vc). \<not> InsecureFlag vc) (VirtualCenter (fold (addEnvVC environ) es cfg))"
  by (induction es arbitrary: cfg) (auto simp: insecure_addEnvVC)

lemma Global_InsecureFlag_addGlobalVC [simp]:
  "Global_InsecureFlag (addGlobalVC cfg) = Global_InsecureFlag cfg"
  by (simp add: addGlobalVC_def)

lemma insecure_addGlobalVC:
  assumes "list_all (\<lambda>(s, vc). \<not> InsecureFlag vc) (VirtualCenter cfg)"
  shows "list_all (\<lambda>(s, vc). InsecureFlag vc \<longrightarrow> Global_InsecureFlag cfg)
           (VirtualCenter (addGlobalVC cfg))"
proof -
  have *: "list_all (\<lambda>(s, vc). InsecureFlag vc \<longrightarrow> b) (AList.update k v al)"
    if "list_all (\<lambda>(s, vc). \<not> InsecureFlag vc) al" "InsecureFlag v \<longrightarrow> b" for k v al b
    using that by (induction al) (auto simp: list_all_iff)
  from assms have "list_all (\<lambda>(s, vc). InsecureFlag vc \<longrightarrow> Global_InsecureFlag cfg) (VirtualCenter cfg)"
    by (rule list.pred_mono_strong) auto
  then show ?thesis using * [OF assms] by (simp add: addGlobalVC_def)
qed

section \<open>Properties\<close>

text \<open>Validation accepts a configuration exactly when it names at least one vCenter, no vCenter
  has an empty address, and each vCenter has a user name and a password of its own or from the
  global section; the order in which the map is visited does not matter.\<close>
lemma validateConfig_accepts:
  "fst (validateConfig cfg) = None \<longleftrightarrow>
     VirtualCenter cfg \<noteq> [] \<and> list_all (vc_valid cfg) (VirtualCenter cfg)"
proof -
  have "vc_valid (cfg\<lparr>Global_VCenterPort := p\<rparr>) = vc_valid cfg" for p
    by (simp add: vc_valid_def fun_eq_iff)
  then show ?thesis
    by (auto simp: validateConfig_def Let_def case_prod_beta validateVCs_fst)
qed

text \<open>C35. Whenever the driver obtains a configuration, from the file, the environment or both, every
  vCenter in it has a non-empty address, user name, password and port, and there is at least one.\<close>
theorem GetCnsconfig_valid:
  assumes "GetCnsconfig environ files cfgPath = Inr cfg"
  shows "config_ok cfg"
proof -
  from assms obtain c where c: "validateConfig c = (None, cfg)"
    by (auto simp: GetCnsconfig_def ReadConfig_def fromEnvOrError_Inr
             split: file_answer.splits sum.splits)
  then show ?thesis
    by (rule validateConfig_NoneE)
       (auto simp: config_ok_def list_all_iff intro!: vc_ok_inheritVC)
qed

definition sample_config :: config where
  "sample_config = empty_config\<lparr>Global_VCenterIP := ''10.0.0.1'', Global_User := ''admin'',
     Global_Password := ''secret''\<rparr>"

theorem GetCnsconfig_valid_witness:
  "config_ok (snd (validateConfig (addGlobalVC sample_config))) \<and>
   GetCnsconfig [] (\<lambda>_. Opened (Inr sample_config)) DefaultCloudConfigPath =
     Inr (snd (validateConfig (addGlobalVC sample_config)))"
proof -
  have *: "GetCnsconfig [] (\<lambda>_. Opened (Inr sample_config)) DefaultCloudConfigPath =
     Inr (snd (validateConfig (addGlobalVC sample_config)))"
    by code_simp
  show ?thesis using * GetCnsconfig_valid [OF *] by blast
qed

text \<open>The per-vCenter environment variable \<open>VCENTER_<id>_INSECURE\<close> has no effect: when the
  configuration file names no vCenter, every vCenter gets the global insecure flag.\<close>
lemma FromEnv_ignores_insecure:
  assumes "fromEnvOrError environ cfg = Inr cfg'" and "VirtualCenter cfg = []"
  shows "list_all (\<lambda>(s, vc). InsecureFlag vc = Global_InsecureFlag cfg') (VirtualCenter cfg')"
proof -
  define d where "d = fold (addEnvVC environ) environ (overrideGlobals environ cfg)"
  define c where "c = addGlobalVC d"
  have "VirtualCenter (overrideGlobals environ cfg) = []"
    using assms(2) by (simp add: overrideGlobals_def Let_def)
  then have "list_all (\<lambda>(s, vc). \<not> InsecureFlag vc) (VirtualCenter d)"
    unfolding d_def by (intro insecure_fold_addEnvVC) simp
  from insecure_addGlobalVC [OF this]
  have flags: "list_all (\<lambda>(s, vc). InsecureFlag vc \<longrightarrow> Global_InsecureFlag c) (VirtualCenter c)"
    by (simp add: c_def)
  from assms(1) have "validateConfig c = (None, cfg')" by (simp add: fromEnvOrError_Inr c_def d_def)
  then show ?thesis
    by (rule validateConfig_NoneE) (use flags in \<open>auto simp: list_all_iff inheritVC_def\<close>)
qed

definition insecure_environ :: environ where
  "insecure_environ = [''VSPHERE_VCENTER_A=10.0.0.1'', ''VCENTER_A_USERNAME=admin'',
     ''VCENTER_A_PASSWORD=secret'', ''VCENTER_A_INSECURE=true'']"

lemma FromEnv_ignores_insecure_witness:
  "list_all (\<lambda>(s, vc). \<not> InsecureFlag vc)
     (VirtualCenter (projr (fromEnvOrError insecure_environ empty_config))) \<and>
   VirtualCenter (projr (fromEnvOrError insecure_environ empty_config)) \<noteq> []"
proof -
  have "\<not> isl (fromEnvOrError insecure_environ empty_config)" by code_simp
  then have "fromEnvOrError insecure_environ empty_config =
      Inr (projr (fromEnvOrError insecure_environ empty_config))"
    by (rule sum.collapse(2) [symmetric])
  from FromEnv_ignores_insecure [OF this]
  have "list_all (\<lambda>(s, vc). InsecureFlag vc =
           Global_InsecureFlag (projr (fromEnvOrError insecure_environ empty_config)))
     (VirtualCenter (projr (fromEnvOrError insecure_environ empty_config)))"
    by (simp add: empty_config_def)
  moreover have "Global_InsecureFlag (projr (fromEnvOrError insecure_environ empty_config)) = False"
    by code_simp
  moreover have "VirtualCenter (projr (fromEnvOrError insecure_environ empty_config)) \<noteq> []"
    by code_simp
  ultimately show ?thesis by simp
qed

text \<open>The variable \<open>VSPHERE_VCENTER_PORT\<close>, which sets the global port, is also read as the
  address of a vCenter: its value becomes a key of the vCenter map.\<close>
lemma FromEnv_port_becomes_vcenter:
  assumes "fromEnvOrError environ cfg = Inr cfg'"
    and "''VSPHERE_VCENTER_PORT='' @ port \<in> set environ" and "port \<noteq> []" and "CHR ''='' \<notin> set port"
  shows "port \<in> fst ` set (VirtualCenter cfg')"
proof -
  let ?c = "fold (addEnvVC environ) environ (overrideGlobals environ cfg)"
  have "port \<in> fst ` set (VirtualCenter ?c)"
    using assms(2-4) keys_fold_addEnvVC_entry [of "''PORT''" port environ environ]
    by (simp add: VcenterPrefix_def)
  then have port: "port \<in> fst ` set (VirtualCenter (addGlobalVC ?c))"
    using keys_addGlobalVC [of ?c] by auto
  have "map fst (VirtualCenter cfg') = map fst (VirtualCenter (addGlobalVC ?c))"
    using assms(1) validateConfig_keys [of "addGlobalVC ?c"] by (simp add: fromEnvOrError_Inr)
  with port show ?thesis by (metis list.set_map)
qed

definition port_environ :: environ where
  "port_environ = [''VSPHERE_VCENTER=10.0.0.1'', ''VSPHERE_VCENTER_PORT=443'',
     ''VSPHERE_USER=admin'', ''VSPHERE_PASSWORD=secret'']"

lemma FromEnv_port_becomes_vcenter_witness:
  "''443'' \<in> fst ` set (VirtualCenter (projr (fromEnvOrError port_environ empty_config)))"
proof -
  have "\<not> isl (fromEnvOrError port_environ empty_config)" by code_simp
  then have "fromEnvOrError port_environ empty_config =
      Inr (projr (fromEnvOrError port_environ empty_config))"
    by (rule sum.collapse(2) [symmetric])
  then show ?thesis
    by (rule FromEnv_port_becomes_vcenter) (simp_all add: port_environ_def)
qed

end
