(* ===== verification/VCenter.thy ===== *)
theory VCenter
  imports Config
begin

text \<open>
  \<open>pkg/common/cns-lib/vsphere\<close>: the connection to a vCenter (\<open>virtualcenter.go\<close>, \<open>cns.go\<close>, \<open>pbm.go\<close>)
  and the registry of vCenters (\<open>virtualcentermanager.go\<close>), with \<open>GetVirtualCenterConfig\<close> of \<open>utils.go\<close>.

  \<open>*VirtualCenter\<close> values are shared between the registry, the volume manager and the syncer and are
  updated in place, so they live in a heap \<open>vcs\<close> and are named by addresses. \<open>clientMutex\<close> and
  \<open>credentialsLock\<close> make \<open>connect\<close>, \<open>login\<close> and \<open>UpdateCredentials\<close> atomic; here they are single
  steps. The contexts that bound a call's life time are not modelled.
\<close>

section \<open>Virtual centers\<close>

record vc_config =
  conf_Scheme :: string
  conf_Host :: string
  conf_Port :: int
  conf_Username :: string
  conf_Password :: string
  conf_Insecure :: bool
  conf_RoundTripperCount :: int
  conf_DatacenterPaths :: "string list"

record virtual_center =
  vc_Config :: vc_config
  vc_Client :: "client option"
  vc_PbmClient :: "client option"
  vc_CnsClient :: "client option"

definition DefaultScheme :: string where "DefaultScheme = ''https''"
definition DefaultRoundTripperCount :: int where "DefaultRoundTripperCount = 3"

record driver = "call proc" +
  vcs :: "nat \<rightharpoonup> virtual_center"
  next_vc :: nat
  virtualCenters :: "(string \<times> nat) list"

type_synonym ('z, 'a) prog = "('z driver_scheme, 'a) state"
type_synonym ('z, 'a) progE = "('z driver_scheme, error + 'a) state"

text \<open>Reading and writing the object behind a pointer; a dangling pointer is a nil dereference.\<close>

definition load_vc :: "nat \<Rightarrow> ('z, virtual_center) progE" where
  "load_vc a = do {
     s \<leftarrow> State_Monad.get;
     State_Monad.return (case vcs s a of
        None \<Rightarrow> Inl (Panic ''nil *VirtualCenter'') | Some vc \<Rightarrow> Inr vc)
   }"

definition store_vc :: "nat \<Rightarrow> (virtual_center \<Rightarrow> virtual_center) \<Rightarrow> ('z, unit) prog" where
  "store_vc a f = assign (\<lambda>s. s\<lparr>vcs := (vcs s)(a := map_option f (vcs s a))\<rparr>)"

section \<open>Configuration of a connection\<close>

definition GetVcenterIPs :: "config \<Rightarrow> error + string list" where
  "GetVcenterIPs cfg =
     (let vCenterIPs = map fst (VirtualCenter cfg)
      in if vCenterIPs = [] then Inl (Errorf ''Unable get vCenter Hosts from VSphereConfig'')
         else Inr vCenterIPs)"

definition GetVirtualCenterConfig :: "config \<Rightarrow> error + vc_config" where
  "GetVirtualCenterConfig cfg =
     (case GetVcenterIPs cfg of
        Inl err \<Rightarrow> Inl err
      | Inr vCenterIPs \<Rightarrow>
          (let host = hd vCenterIPs
           in case map_of (VirtualCenter cfg) host of
                None \<Rightarrow> Inl (Panic ''nil *VirtualCenterConfig'')
              | Some vc \<Rightarrow>
                  (case Atoi (VCenterPort vc) of
                     None \<Rightarrow> Inl (Errorf ''strconv.Atoi'')
                   | Some port \<Rightarrow>
                       Inr \<lparr>conf_Scheme = [], conf_Host = host, conf_Port = port,
                            conf_Username = User vc, conf_Password = Password vc,
                            conf_Insecure = InsecureFlag vc, conf_RoundTripperCount = 0,
                            conf_DatacenterPaths =
                              map TrimSpace (Split (Datacenters vc) (CHR '',''))\<rparr>)))"

definition IsInvalidCredentialsError :: "error \<Rightarrow> bool" where
  "IsInvalidCredentialsError err \<longleftrightarrow> err = SoapFault InvalidLogin"

section \<open>Connecting\<close>

definition login :: "env \<Rightarrow> vc_config \<Rightarrow> client \<Rightarrow> ('z, unit) progE" where
  "login env conf cl =
     (if \<not> ans_PemDecode env (conf_Username conf)
      then perform (CallLogin cl (conf_Username conf) (conf_Password conf)) (ans_Login env)
      else case ans_X509KeyPair env (conf_Username conf) (conf_Password conf) of
        Inl err \<Rightarrow> State_Monad.return (Inl err)
      | Inr _ \<Rightarrow>
          bindE (perform (CallStsNewClient cl) (ans_StsNewClient env)) (\<lambda>_.
          bindE (perform (CallStsIssue cl) (ans_StsIssue env)) (\<lambda>_.
          perform (CallLoginByToken cl) (ans_Login env))))"

text \<open>
  \<open>UserSession\<close> returns nil without an error when the session is not authenticated; \<open>newClient\<close> asks only for the
  error before it reads the user name of the session for its log.
\<close>

definition newClient :: "env \<Rightarrow> nat \<Rightarrow> ('z, client) progE" where
  "newClient env a =
     bindE (load_vc a) (\<lambda>vc. do {
       (if conf_Scheme (vc_Config vc) = []
        then store_vc a (vc_Config_update (conf_Scheme_update (\<lambda>_. DefaultScheme)))
        else State_Monad.return ());
       bindE (perform (CallNewVimClient (conf_Host (vc_Config vc)) (conf_Port (vc_Config vc))
                         (conf_Insecure (vc_Config vc))) (ans_NewVimClient env)) (\<lambda>cl.
       bindE (login env (vc_Config vc) cl) (\<lambda>_. do {
         session \<leftarrow> perform (CallUserSession cl) (ans_UserSession env);
         if session = Inr None then State_Monad.return (Inl (Panic ''nil *UserSession''))
         else do {
           (if conf_RoundTripperCount (vc_Config vc) = 0
            then store_vc a
                   (vc_Config_update (conf_RoundTripperCount_update (\<lambda>_. DefaultRoundTripperCount)))
            else State_Monad.return ());
           State_Monad.return (Inr cl)
         }
       }))
     })"

text \<open>
  The assignment \<^verbatim>\<open>vc.Client, err = vc.newClient(ctx)\<close>: on an error the client becomes nil.
\<close>

definition resetClient :: "env \<Rightarrow> nat \<Rightarrow> ('z, client) progE" where
  "resetClient env a =
     handle (newClient env a)
       (\<lambda>err. do { store_vc a (vc_Client_update (\<lambda>_. None)); State_Monad.return (Inl err) })
       (\<lambda>cl. do { store_vc a (vc_Client_update (\<lambda>_. Some cl)); State_Monad.return (Inr cl) })"

definition resetPbmClient :: "env \<Rightarrow> nat \<Rightarrow> client \<Rightarrow> ('z, unit) progE" where
  "resetPbmClient env a cl = do {
     r \<leftarrow> perform (CallNewPbmClient cl) (ans_NewPbmClient env);
     case r of
       Inl err \<Rightarrow> do { store_vc a (vc_PbmClient_update (\<lambda>_. None)); State_Monad.return (Inl err) }
     | Inr _ \<Rightarrow> do { store_vc a (vc_PbmClient_update (\<lambda>_. Some cl)); State_Monad.return (Inr ()) }
   }"

definition resetCnsClient :: "env \<Rightarrow> nat \<Rightarrow> client \<Rightarrow> ('z, unit) progE" where
  "resetCnsClient env a cl = do {
     r \<leftarrow> perform (CallNewCnsClient cl) (ans_NewCnsClient env);
     case r of
       Inl err \<Rightarrow> do { store_vc a (vc_CnsClient_update (\<lambda>_. None)); State_Monad.return (Inl err) }
     | Inr _ \<Rightarrow> do { store_vc a (vc_CnsClient_update (\<lambda>_. Some cl)); State_Monad.return (Inr ()) }
   }"

definition connect :: "env \<Rightarrow> nat \<Rightarrow> ('z, unit) progE" where
  "connect env a =
     bindE (load_vc a) (\<lambda>vc.
       case vc_Client vc of
         None \<Rightarrow> bindE (resetClient env a) (\<lambda>_. State_Monad.return (Inr ()))
       | Some cl \<Rightarrow>
           bindE (perform (CallUserSession cl) (ans_UserSession env)) (\<lambda>userSession.
             case userSession of
               Some _ \<Rightarrow> State_Monad.return (Inr ())
             | None \<Rightarrow>
                 bindE (resetClient env a) (\<lambda>cl'.
                 bindE (if vc_PbmClient vc \<noteq> None then resetPbmClient env a cl'
                        else State_Monad.return (Inr ())) (\<lambda>_.
                 if vc_CnsClient vc \<noteq> None then resetCnsClient env a cl'
                 else State_Monad.return (Inr ())))))"

definition UpdateCredentials :: "nat \<Rightarrow> string \<Rightarrow> string \<Rightarrow> ('z, unit) prog" where
  "UpdateCredentials a username password =
     store_vc a (vc_Config_update
       (\<lambda>c. c\<lparr>conf_Username := username, conf_Password := password\<rparr>))"

definition EnvCloudConfig :: string where "EnvCloudConfig = ''VSPHERE_CSI_CONFIG''"

definition configPath :: "env \<Rightarrow> string" where
  "configPath env =
     (let cfgPath = Getenv (host_Environ env) EnvCloudConfig
      in if cfgPath = [] then DefaultCloudConfigPath else cfgPath)"

definition Connect :: "env \<Rightarrow> nat \<Rightarrow> ('z, unit) progE" where
  "Connect env a = do {
     r \<leftarrow> connect env a;
     case r of
       Inr _ \<Rightarrow> State_Monad.return (Inr ())
     | Inl err \<Rightarrow>
         if \<not> IsInvalidCredentialsError err then State_Monad.return (Inl err)
         else do {
           file \<leftarrow> perform (CallReadConfig (configPath env)) (host_Files env (configPath env));
           case GetCnsconfig (host_Environ env) (\<lambda>_. file) (configPath env) of
             Inl err \<Rightarrow> State_Monad.return (Inl err)
           | Inr cfg \<Rightarrow>
               (case GetVirtualCenterConfig cfg of
                  Inl err \<Rightarrow> State_Monad.return (Inl err)
                | Inr conf \<Rightarrow> do {
                    UpdateCredentials a (conf_Username conf) (conf_Password conf);
                    connect env a
                  })
         }
   }"

definition ConnectCNS :: "env \<Rightarrow> nat \<Rightarrow> ('z, unit) progE" where
  "ConnectCNS env a =
     bindE (Connect env a) (\<lambda>_.
     bindE (load_vc a) (\<lambda>vc.
       if vc_CnsClient vc = None
       then case vc_Client vc of
              None \<Rightarrow> State_Monad.return (Inl (Panic ''nil *govmomi.Client''))
            | Some cl \<Rightarrow> resetCnsClient env a cl
       else State_Monad.return (Inr ())))"

definition DisconnectCNS :: "nat \<Rightarrow> ('z, unit) prog" where
  "DisconnectCNS a = store_vc a (vc_CnsClient_update (\<lambda>_. None))"

definition ConnectPbm :: "env \<Rightarrow> nat \<Rightarrow> ('z, unit) progE" where
  "ConnectPbm env a =
     bindE (Connect env a) (\<lambda>_.
     bindE (load_vc a) (\<lambda>vc.
       if vc_PbmClient vc = None
       then case vc_Client vc of
              None \<Rightarrow> State_Monad.return (Inl (Panic ''nil *govmomi.Client''))
            | Some cl \<Rightarrow> resetPbmClient env a cl
       else State_Monad.return (Inr ())))"

definition DisconnectPbm :: "nat \<Rightarrow> ('z, unit) progE" where
  "DisconnectPbm a = do {
     store_vc a (vc_PbmClient_update (\<lambda>_. None));
     State_Monad.return (Inr ())
   }"

definition GetStoragePolicyIDByName :: "env \<Rightarrow> nat \<Rightarrow> string \<Rightarrow> ('z, string) progE" where
  "GetStoragePolicyIDByName env a storagePolicyName =
     bindE (load_vc a) (\<lambda>vc.
       case vc_PbmClient vc of
         None \<Rightarrow> State_Monad.return (Inl (Panic ''nil *pbm.Client''))
       | Some cl \<Rightarrow> perform (CallProfileIDByName cl storagePolicyName)
                     (ans_ProfileIDByName env storagePolicyName))"

definition Disconnect :: "env \<Rightarrow> nat \<Rightarrow> ('z, unit) progE" where
  "Disconnect env a =
     bindE (load_vc a) (\<lambda>vc.
       case vc_Client vc of
         None \<Rightarrow> State_Monad.return (Inr ())
       | Some cl \<Rightarrow>
           bindE (perform (CallLogout cl) (ans_Logout env)) (\<lambda>_. do {
             store_vc a (vc_Client_update (\<lambda>_. None));
             State_Monad.return (Inr ())
           }))"

section \<open>The registry of virtual centers\<close>

definition GetVirtualCenter :: "string \<Rightarrow> ('z, nat) progE" where
  "GetVirtualCenter host = do {
     s \<leftarrow> State_Monad.get;
     State_Monad.return (case map_of (virtualCenters s) host of
       Some a \<Rightarrow> Inr a | None \<Rightarrow> Inl ErrVCNotFound)
   }"

definition GetAllVirtualCenters :: "('z, nat list) prog" where
  "GetAllVirtualCenters = do {
     s \<leftarrow> State_Monad.get;
     State_Monad.return (map snd (virtualCenters s))
   }"

definition RegisterVirtualCenter :: "vc_config \<Rightarrow> ('z, nat) progE" where
  "RegisterVirtualCenter conf = do {
     s \<leftarrow> State_Monad.get;
     if map_of (virtualCenters s) (conf_Host conf) \<noteq> None
     then State_Monad.return (Inl ErrVCAlreadyRegistered)
     else do {
       assign (\<lambda>s. s\<lparr>vcs := (vcs s)(next_vc s \<mapsto>
                 \<lparr>vc_Config = conf, vc_Client = None, vc_PbmClient = None, vc_CnsClient = None\<rparr>),
               virtualCenters := AList.update (conf_Host conf) (next_vc s) (virtualCenters s),
               next_vc := Suc (next_vc s)\<rparr>);
       State_Monad.return (Inr (next_vc s))
     }
   }"

definition UnregisterVirtualCenter :: "env \<Rightarrow> string \<Rightarrow> ('z, unit) progE" where
  "UnregisterVirtualCenter env host =
     bindE (GetVirtualCenter host) (\<lambda>a.
     bindE (DisconnectPbm a) (\<lambda>_.
     bindE (Disconnect env a) (\<lambda>_. do {
       assign (\<lambda>s. s\<lparr>virtualCenters := AList.delete host (virtualCenters s)\<rparr>);
       State_Monad.return (Inr ())
     })))"

fun unregisterHosts :: "env \<Rightarrow> string list \<Rightarrow> ('z, unit) progE" where
  "unregisterHosts env [] = State_Monad.return (Inr ())"
| "unregisterHosts env (host # hosts) =
     bindE (UnregisterVirtualCenter env host) (\<lambda>_. unregisterHosts env hosts)"

definition UnregisterAllVirtualCenters :: "env \<Rightarrow> ('z, unit) progE" where
  "UnregisterAllVirtualCenters env = do {
     s \<leftarrow> State_Monad.get;
     unregisterHosts env (map fst (virtualCenters s))
   }"

lemmas vc_program_defs =
  load_vc_def store_vc_def login_def newClient_def resetClient_def resetPbmClient_def
  resetCnsClient_def connect_def UpdateCredentials_def Connect_def ConnectCNS_def
  DisconnectCNS_def ConnectPbm_def DisconnectPbm_def GetStoragePolicyIDByName_def
  Disconnect_def GetVirtualCenter_def GetAllVirtualCenters_def RegisterVirtualCenter_def
  UnregisterVirtualCenter_def

section \<open>The calls connection handling makes\<close>

fun session_call :: "call \<Rightarrow> bool" where
  "session_call (CallNewVimClient _ _ _) = True"
| "session_call (CallLogin _ _ _) = True"
| "session_call (CallStsNewClient _) = True"
| "session_call (CallStsIssue _) = True"
| "session_call (CallLoginByToken _) = True"
| "session_call (CallUserSession _) = True"
| "session_call (CallNewPbmClient _) = True"
| "session_call (CallNewCnsClient _) = True"
| "session_call (CallReadConfig _) = True"
| "session_call _ = False"

lemma emits_load_vc [emits_rules]: "emits P (load_vc a)"
  unfolding load_vc_def by (intro emits_rules)

lemma emits_store_vc [emits_rules]: "emits P (store_vc a f)"
  unfolding store_vc_def by (intro emits_rules) simp

lemma emits_connect_session: "emits session_call (connect env a)"
  unfolding connect_def resetClient_def resetPbmClient_def resetCnsClient_def newClient_def login_def
  by (intro emits_rules | simp)+

lemma emits_Connect_session: "emits session_call (Connect env a)"
  unfolding Connect_def UpdateCredentials_def
  by (intro emits_rules emits_connect_session | simp)+

lemma emits_Connect [emits_rules]: "(\<And>c. session_call c \<Longrightarrow> P c) \<Longrightarrow> emits P (Connect env a)"
  by (rule emits_mono [OF emits_Connect_session])

lemma emits_ConnectCNS [emits_rules]:
  "(\<And>c. session_call c \<Longrightarrow> P c) \<Longrightarrow> emits P (ConnectCNS env a)"
  unfolding ConnectCNS_def resetCnsClient_def
  by (intro emits_rules | simp)+

lemma emits_ConnectPbm [emits_rules]:
  "(\<And>c. session_call c \<Longrightarrow> P c) \<Longrightarrow> emits P (ConnectPbm env a)"
  unfolding ConnectPbm_def resetPbmClient_def
  by (intro emits_rules | simp)+

section \<open>What connecting does to the object\<close>

text \<open>
  \<open>config_step a vc s s'\<close>: between \<open>s\<close> and \<open>s'\<close> only the object at \<open>a\<close> changed, to \<open>vc\<close> up to its
  configuration, and no other part of the driver's state but the trace.
\<close>

definition config_step :: "nat \<Rightarrow> virtual_center \<Rightarrow> 'z driver_scheme \<Rightarrow> 'z driver_scheme \<Rightarrow> bool" where
  "config_step a vc s s' \<longleftrightarrow>
     (\<exists>conf. vcs s' = (vcs s)(a \<mapsto> vc\<lparr>vc_Config := conf\<rparr>)) \<and>
     virtualCenters s' = virtualCenters s \<and> next_vc s' = next_vc s \<and>
     driver.more s' = driver.more s"

lemma config_stepI: "vcs s a = Some vc \<Longrightarrow> config_step a vc s s"
  unfolding config_step_def by (auto simp: fun_upd_idem intro!: exI [of _ "vc_Config vc"])

lemma config_stepE:
  assumes "config_step a vc s s'"
  obtains conf where "vcs s' a = Some (vc\<lparr>vc_Config := conf\<rparr>)"
    and "\<And>b. b \<noteq> a \<Longrightarrow> vcs s' b = vcs s b" and "virtualCenters s' = virtualCenters s"
    and "next_vc s' = next_vc s" and "driver.more s' = driver.more s"
  using assms by (auto simp: config_step_def)

lemma config_step_trans:
  "config_step a vc s0 s1 \<Longrightarrow> config_step a vc' s1 s2 \<Longrightarrow> config_step a vc' s0 s2"
  by (auto simp: config_step_def)

lemma config_step_perform [simp]:
  "config_step a vc s0 (s\<lparr>trace := tr\<rparr>) \<longleftrightarrow> config_step a vc s0 s"
  by (simp add: config_step_def)

lemma config_step_store:
  assumes "config_step a vc s0 s" and "\<And>v. \<exists>conf. f (vc\<lparr>vc_Config := v\<rparr>) = vc'\<lparr>vc_Config := conf\<rparr>"
  shows "config_step a vc' s0 (s\<lparr>vcs := (vcs s)(a := map_option f (vcs s a))\<rparr>)"
proof -
  from assms(1) obtain conf where s: "vcs s = (vcs s0)(a \<mapsto> vc\<lparr>vc_Config := conf\<rparr>)"
    by (auto simp: config_step_def)
  from assms(2) obtain conf' where "f (vc\<lparr>vc_Config := conf\<rparr>) = vc'\<lparr>vc_Config := conf'\<rparr>" by blast
  then show ?thesis using assms(1) by (auto simp: config_step_def s)
qed

lemma newClient_step:
  assumes "run_state (newClient env a) s = (r, s')" and "vcs s a = Some vc"
  shows "config_step a vc s s'"
proof -
  have store: "keeps (config_step a vc s) (store_vc a (vc_Config_update f))" for f
    unfolding store_vc_def
    by (intro keeps_assign config_step_store [where vc = vc]) (simp, cases vc, auto)
  have "keeps (config_step a vc s) (newClient env a)"
    unfolding newClient_def login_def load_vc_def
    by (intro keeps_rules store | simp)+
  from keepsD [OF this assms(1)] assms(2) show ?thesis by (simp add: config_stepI)
qed

lemma resetClient_step:
  assumes "run_state (resetClient env a) s = (r, s')" and "vcs s a = Some vc"
  shows "config_step a (vc\<lparr>vc_Client := case r of Inl (Panic _) \<Rightarrow> vc_Client vc | Inl _ \<Rightarrow> None | Inr cl \<Rightarrow> Some cl\<rparr>) s s'"
proof -
  obtain r1 s1 where run: "run_state (newClient env a) s = (r1, s1)" by fastforce
  from newClient_step [OF this assms(2)] have step: "config_step a vc s s1" .
  then have upd: "config_step a (vc\<lparr>vc_Client := x\<rparr>) s
      (s1\<lparr>vcs := (vcs s1)(a := map_option (vc_Client_update (\<lambda>_. x)) (vcs s1 a))\<rparr>)" for x
    by (rule config_step_store) (cases vc, auto)
  show ?thesis
    using assms(1) run upd step
    by (cases r1) (auto simp: resetClient_def store_vc_def split: error.splits)
qed

lemma resetPbmClient_step:
  assumes "run_state (resetPbmClient env a cl) s = (r, s')" and "vcs s a = Some vc"
  shows "config_step a (vc\<lparr>vc_PbmClient := case r of Inl _ \<Rightarrow> None | Inr _ \<Rightarrow> Some cl\<rparr>) s s'"
  using assms
  by (auto simp: resetPbmClient_def store_vc_def config_step_def split: sum.splits
      intro!: exI [of _ "vc_Config vc"])

lemma resetCnsClient_step:
  assumes "run_state (resetCnsClient env a cl) s = (r, s')" and "vcs s a = Some vc"
  shows "config_step a (vc\<lparr>vc_CnsClient := case r of Inl _ \<Rightarrow> None | Inr _ \<Rightarrow> Some cl\<rparr>) s s'"
  using assms
  by (auto simp: resetCnsClient_def store_vc_def config_step_def split: sum.splits
      intro!: exI [of _ "vc_Config vc"])

text \<open>
  The sub-clients of an object belong to its session when each is nil or made from the current vim
  client.
\<close>

definition coherent_vc :: "virtual_center \<Rightarrow> bool" where
  "coherent_vc vc \<longleftrightarrow>
     vc_PbmClient vc \<in> {None, vc_Client vc} \<and> vc_CnsClient vc \<in> {None, vc_Client vc}"

lemma coherent_vc_Config [simp]: "coherent_vc (vc\<lparr>vc_Config := conf\<rparr>) = coherent_vc vc"
  by (simp add: coherent_vc_def)

lemma config_step_vcs:
  "config_step a vc s s' \<Longrightarrow> \<exists>conf. vcs s' a = Some (vc\<lparr>vc_Config := conf\<rparr>)"
  by (auto simp: config_step_def)

text \<open>The renewal of an expired session, with the sub-clients that existed before it.\<close>

definition renewed :: "client \<Rightarrow> virtual_center \<Rightarrow> virtual_center" where
  "renewed cl vc = vc\<lparr>vc_Client := Some cl,
     vc_PbmClient := map_option (\<lambda>_. cl) (vc_PbmClient vc),
     vc_CnsClient := map_option (\<lambda>_. cl) (vc_CnsClient vc)\<rparr>"

lemma renew_Pbm_step:
  assumes "run_state (if vc_PbmClient vc \<noteq> None then resetPbmClient env a cl
      else State_Monad.return (Inr ())) s = (Inr (), s')"
    and "vcs s a = Some v" and "vc_PbmClient v = vc_PbmClient vc"
  shows "config_step a (v\<lparr>vc_PbmClient := map_option (\<lambda>_. cl) (vc_PbmClient vc)\<rparr>) s s'"
  using assms resetPbmClient_step [of env a cl s "Inr ()" s' v]
  by (cases "vc_PbmClient vc") (auto intro: config_stepI)

lemma renew_Cns_step:
  assumes "run_state (if vc_CnsClient vc \<noteq> None then resetCnsClient env a cl
      else State_Monad.return (Inr ())) s = (Inr (), s')"
    and "vcs s a = Some v" and "vc_CnsClient v = vc_CnsClient vc"
  shows "config_step a (v\<lparr>vc_CnsClient := map_option (\<lambda>_. cl) (vc_CnsClient vc)\<rparr>) s s'"
  using assms resetCnsClient_step [of env a cl s "Inr ()" s' v]
  by (cases "vc_CnsClient vc") (auto intro: config_stepI)

lemma connect_renew_step:
  assumes run: "run_state (bindE (resetClient env a) (\<lambda>cl'.
      bindE (if vc_PbmClient vc \<noteq> None then resetPbmClient env a cl'
             else State_Monad.return (Inr ())) (\<lambda>_.
      if vc_CnsClient vc \<noteq> None then resetCnsClient env a cl'
      else State_Monad.return (Inr ())))) s = (Inr (), s')"
    and vc: "vcs s a = Some vc"
  shows "\<exists>cl. config_step a (renewed cl vc) s s'"
proof -
  let ?pbm = "\<lambda>cl. if vc_PbmClient vc \<noteq> None then resetPbmClient env a cl
                     else State_Monad.return (Inr ())"
  let ?cns = "\<lambda>cl. if vc_CnsClient vc \<noteq> None then resetCnsClient env a cl
                     else State_Monad.return (Inr ())"
  from run obtain cl s1 where r1: "run_state (resetClient env a) s = (Inr cl, s1)"
    and rest: "run_state (bindE (?pbm cl) (\<lambda>_. ?cns cl)) s1 = (Inr (), s')"
    by (rule bindE_Inr)
  from rest obtain u s2 where "run_state (?pbm cl) s1 = (Inr u, s2)"
    and r3: "run_state (?cns cl) s2 = (Inr (), s')"
    by (rule bindE_Inr)
  then have r2: "run_state (?pbm cl) s1 = (Inr (), s2)" by (cases u) simp
  from resetClient_step [OF r1 vc] have st1: "config_step a (vc\<lparr>vc_Client := Some cl\<rparr>) s s1"
    by simp
  then obtain c1 where v1: "vcs s1 a = Some (vc\<lparr>vc_Client := Some cl, vc_Config := c1\<rparr>)"
    by (auto dest: config_step_vcs)
  have st2: "config_step a (vc\<lparr>vc_Client := Some cl, vc_Config := c1,
      vc_PbmClient := map_option (\<lambda>_. cl) (vc_PbmClient vc)\<rparr>) s1 s2"
    by (rule renew_Pbm_step [OF r2 v1]) simp
  then obtain c2 where v2: "vcs s2 a = Some (vc\<lparr>vc_Client := Some cl, vc_Config := c2,
      vc_PbmClient := map_option (\<lambda>_. cl) (vc_PbmClient vc)\<rparr>)"
    by (cases vc) (auto dest: config_step_vcs)
  have "config_step a (vc\<lparr>vc_Client := Some cl, vc_Config := c2,
      vc_PbmClient := map_option (\<lambda>_. cl) (vc_PbmClient vc),
      vc_CnsClient := map_option (\<lambda>_. cl) (vc_CnsClient vc)\<rparr>) s2 s'"
    by (rule renew_Cns_step [OF r3 v2]) simp
  with st1 st2 have "config_step a (renewed cl vc) s s'"
    by (cases vc) (auto simp: config_step_def renewed_def)
  then show ?thesis by blast
qed

text \<open>The three ways \<open>connect\<close> succeeds.\<close>

lemma connect_cases:
  assumes run: "run_state (connect env a) s = (Inr (), s')" and vc: "vcs s a = Some vc"
  obtains (first) cl where "vc_Client vc = None" "config_step a (vc\<lparr>vc_Client := Some cl\<rparr>) s s'"
  | (alive) u where "vc_Client vc \<noteq> None" "config_step a vc s s'" "ans_UserSession env (trace s) = Inr (Some u)"
  | (renewal) cl where "vc_Client vc \<noteq> None" "config_step a (renewed cl vc) s s'" "ans_UserSession env (trace s) = Inr None"
proof (cases "vc_Client vc")
  case None
  with run vc obtain cl where "run_state (resetClient env a) s = (Inr cl, s')"
    by (auto simp: connect_def load_vc_def split: prod.splits sum.splits)
  from resetClient_step [OF this vc] None show ?thesis by (auto intro: first)
next
  case (Some c)
  define s1 where "s1 = s\<lparr>trace := trace s @ [CallUserSession c]\<rparr>"
  have vc1: "vcs s1 a = Some vc" and trans: "\<And>v. config_step a v s1 s' = config_step a v s s'"
    using vc by (auto simp: s1_def config_step_def)
  have step: "config_step a vc s s1" using vc by (simp add: s1_def config_stepI)
  show ?thesis
  proof (cases "ans_UserSession env (trace s)")
    case (Inl e) with run vc Some show ?thesis by (simp add: connect_def load_vc_def)
  next
    case (Inr us)
    show ?thesis
    proof (cases us)
      case (Some u)
      with run vc \<open>vc_Client vc = Some c\<close> Inr have "s' = s1"
        by (simp add: connect_def load_vc_def s1_def)
      with step \<open>vc_Client vc = Some c\<close> Inr Some show ?thesis by (auto intro: alive)
    next
      case None
      with run vc \<open>vc_Client vc = Some c\<close> Inr
      have "\<exists>cl. config_step a (renewed cl vc) s1 s'"
        by (intro connect_renew_step [of env a vc]) (simp_all add: connect_def load_vc_def s1_def)
      with trans \<open>vc_Client vc = Some c\<close> Inr None show ?thesis by (auto intro: renewal)
    qed
  qed
qed

lemma connect_fails_without_client:
  assumes "run_state (connect env a) s = (Inl e, s')" and "vcs s a = Some vc" and "vc_Client vc = None"
  shows "config_step a vc s s'"
proof -
  from assms obtain e' where "run_state (resetClient env a) s = (Inl e', s')"
    by (auto simp: connect_def load_vc_def split: prod.splits sum.splits)
  from resetClient_step [OF this assms(2)] assms(3) show ?thesis by (cases vc) (simp split: error.splits)
qed

lemma connect_without_client:
  assumes "run_state (connect env a) s = (Inr (), s')" and "vcs s a = Some vc" and "vc_Client vc = None"
  shows "\<exists>cl. config_step a (vc\<lparr>vc_Client := Some cl\<rparr>) s s'"
  using assms(1,2) by (cases rule: connect_cases) (auto simp: assms(3))

lemma UpdateCredentials_step:
  "config_step a vc s s1 \<Longrightarrow> config_step a vc s (snd (run_state (UpdateCredentials a u p) s1))"
  unfolding UpdateCredentials_def store_vc_def
  by (simp, rule config_step_store) (auto, cases vc, auto)

text \<open>Without a vim client, \<open>Connect\<close> touches no sub-client.\<close>

lemma Connect_without_client:
  assumes run: "run_state (Connect env a) s = (Inr (), s')"
    and vc: "vcs s a = Some vc" "vc_Client vc = None"
  shows "\<exists>cl. config_step a (vc\<lparr>vc_Client := Some cl\<rparr>) s s'"
proof -
  obtain r s1 where c1: "run_state (connect env a) s = (r, s1)" by fastforce
  show ?thesis
  proof (cases r)
    case (Inr u)
    with run c1 have "s1 = s'" by (simp add: Connect_def)
    with connect_without_client [of env a s s' vc] c1 vc Inr show ?thesis by simp
  next
    case (Inl e)
    with c1 vc have st1: "config_step a vc s s1"
      using connect_fails_without_client by blast
    from run c1 Inl obtain u p where
      c2: "run_state (connect env a) (snd (run_state (UpdateCredentials a u p)
             (s1\<lparr>trace := trace s1 @ [CallReadConfig (configPath env)]\<rparr>))) = (Inr (), s')"
      by (auto simp: Connect_def split: if_splits sum.splits prod.splits) (metis snd_conv)
    let ?s2 = "snd (run_state (UpdateCredentials a u p)
             (s1\<lparr>trace := trace s1 @ [CallReadConfig (configPath env)]\<rparr>))"
    have st2: "config_step a vc s ?s2" using st1 by (intro UpdateCredentials_step) simp
    then obtain c where v2: "vcs ?s2 a = Some (vc\<lparr>vc_Config := c\<rparr>)"
      using config_step_vcs by blast
    from connect_without_client [OF c2 v2] vc(2) obtain cl where
      "config_step a (vc\<lparr>vc_Config := c, vc_Client := Some cl\<rparr>) ?s2 s'" by auto
    with st2 have "config_step a (vc\<lparr>vc_Client := Some cl\<rparr>) s s'"
      by (cases vc) (auto simp: config_step_def)
    then show ?thesis by blast
  qed
qed

section \<open>An environment that answers\<close>

text \<open>
  A vCenter that accepts every call: clients are numbered by the length of the history, tasks
  succeed. The witnesses run the driver against it.
\<close>

definition sample_env :: env where
  "sample_env = \<lparr>ans_NewVimClient = (\<lambda>h. Inr (length h)), ans_PemDecode = (\<lambda>_. False),
     ans_X509KeyPair = (\<lambda>_ _. Inr ()), ans_StsNewClient = (\<lambda>_. Inr ()), ans_StsIssue = (\<lambda>_. Inr ()),
     ans_Login = (\<lambda>_. Inr ()), ans_UserSession = (\<lambda>_. Inr (Some ''svc@vsphere.local'')),
     ans_NewPbmClient = (\<lambda>_. Inr ()), ans_NewCnsClient = (\<lambda>_. Inr ()), ans_Logout = (\<lambda>_. Inr ()),
     ans_ProfileIDByName = (\<lambda>_ _. Inr ''profile-1''), ans_CnsTask = (\<lambda>_. Inr ''task-1''),
     ans_CnsQuery = (\<lambda>_ _. Inr []), ans_CnsQueryAll = (\<lambda>_ _. Inr []),
     ans_TaskInfo = (\<lambda>_. Inr ''info-1''),
     ans_TaskResult = (\<lambda>_. Inr (Some (OperationResult None ''vol-1''))),
     ans_VmDevices = (\<lambda>_ _. Inr []), host_Environ = [], host_Files = (\<lambda>_ _. FileMissing)\<rparr>"

definition sample_conf :: vc_config where
  "sample_conf = \<lparr>conf_Scheme = [], conf_Host = ''vc1'', conf_Port = 443, conf_Username = ''u'',
     conf_Password = ''p'', conf_Insecure = False, conf_RoundTripperCount = 0,
     conf_DatacenterPaths = [''dc1'']\<rparr>"

definition sample_vc :: virtual_center where
  "sample_vc = \<lparr>vc_Config = sample_conf, vc_Client = None, vc_PbmClient = None, vc_CnsClient = None\<rparr>"

definition sample_driver :: driver where
  "sample_driver = \<lparr>trace = [], vcs = [0 \<mapsto> sample_vc], next_vc = 1, virtualCenters = [(''vc1'', 0)]\<rparr>"

lemma sample_env_answers:
  "ans_NewVimClient sample_env = (\<lambda>h. Inr (length h))" "ans_PemDecode sample_env = (\<lambda>_. False)"
  "ans_Login sample_env = (\<lambda>_. Inr ())" "ans_UserSession sample_env = (\<lambda>_. Inr (Some ''svc@vsphere.local''))"
  "ans_NewPbmClient sample_env = (\<lambda>_. Inr ())" "ans_NewCnsClient sample_env = (\<lambda>_. Inr ())"
  "ans_Logout sample_env = (\<lambda>_. Inr ())" "ans_ProfileIDByName sample_env = (\<lambda>_ _. Inr ''profile-1'')"
  "ans_CnsTask sample_env = (\<lambda>_. Inr ''task-1'')" "ans_TaskInfo sample_env = (\<lambda>_. Inr ''info-1'')"
  "ans_TaskResult sample_env = (\<lambda>_. Inr (Some (OperationResult None ''vol-1'')))"
  "ans_CnsQuery sample_env = (\<lambda>_ _. Inr [])" "host_Environ sample_env = []"
  "host_Files sample_env = (\<lambda>_ _. FileMissing)"
  by (simp_all add: sample_env_def)

lemmas sample_simps = sample_env_def sample_conf_def sample_vc_def sample_driver_def

section \<open>The registry contract\<close>

text \<open>
  What the clients of \<open>VirtualCenterManager\<close> rely on: \<open>lookup\<close> is the registered object of a key,
  \<open>register\<close> refuses a key that is taken and otherwise adds exactly that key, \<open>unregister\<close> removes
  exactly its key or, on an error, nothing.
\<close>

locale registry =
  fixes lookup :: "'s \<Rightarrow> 'k \<Rightarrow> 'v option"
    and register :: "'c \<Rightarrow> ('s, 'e + 'v) state"
    and unregister :: "'k \<Rightarrow> ('s, 'e + unit) state"
    and key :: "'c \<Rightarrow> 'k"
    and taken :: 'e
    and absent :: 'e
  assumes register_free:
      "lookup s (key c) = None \<Longrightarrow>
       \<exists>v s'. run_state (register c) s = (Inr v, s') \<and> lookup s' = (lookup s)(key c \<mapsto> v)"
    and register_taken: "lookup s (key c) \<noteq> None \<Longrightarrow> run_state (register c) s = (Inl taken, s)"
    and unregister_absent: "lookup s k = None \<Longrightarrow> run_state (unregister k) s = (Inl absent, s)"
    and unregister_ok: "run_state (unregister k) s = (Inr (), s') \<Longrightarrow> lookup s' = (lookup s)(k := None)"
    and unregister_fails: "run_state (unregister k) s = (Inl e, s') \<Longrightarrow> lookup s' = lookup s"
begin

lemma register_twice:
  assumes "run_state (register c) s = (Inr v, s')" and "key c' = key c"
  shows "run_state (register c') s' = (Inl taken, s')"
proof (rule register_taken)
  have "lookup s (key c) = None"
    using assms(1) register_taken [of s c] by (cases "lookup s (key c)") auto
  from register_free [OF this] assms show "lookup s' (key c') \<noteq> None" by auto
qed

lemma register_lookup:
  assumes "run_state (register c) s = (Inr v, s')"
  shows "lookup s' = (lookup s)(key c \<mapsto> v)"
proof -
  have "lookup s (key c) = None"
    using assms register_taken [of s c] by (cases "lookup s (key c)") auto
  from register_free [OF this] assms show ?thesis by auto
qed

lemma unregister_register:
  assumes "run_state (unregister (key c)) s = (Inr (), s')"
  shows "\<exists>v s''. run_state (register c) s' = (Inr v, s'') \<and> lookup s'' = (lookup s)(key c \<mapsto> v)"
  using register_free [of s' c] unregister_ok [OF assms] by auto

end

lemma Disconnect_registry:
  "run_state (Disconnect env a) s = (r, s') \<Longrightarrow> virtualCenters s' = virtualCenters s"
  by (auto simp: Disconnect_def load_vc_def store_vc_def split: option.splits sum.splits prod.splits)

lemma UnregisterVirtualCenter_registry:
  assumes "run_state (UnregisterVirtualCenter env host) s = (r, s')"
  shows "virtualCenters s' =
    (case r of Inl _ \<Rightarrow> virtualCenters s | Inr _ \<Rightarrow> AList.delete host (virtualCenters s))"
  using assms
  by (auto simp: UnregisterVirtualCenter_def GetVirtualCenter_def DisconnectPbm_def store_vc_def
      dest!: Disconnect_registry split: option.splits sum.splits prod.splits)

interpretation vc_manager: registry
  "\<lambda>s :: 'z driver_scheme. map_of (virtualCenters s)" RegisterVirtualCenter
  "UnregisterVirtualCenter env" conf_Host ErrVCAlreadyRegistered ErrVCNotFound
proof unfold_locales
  fix s :: "'z driver_scheme" and k s' e and c :: vc_config
  show "map_of (virtualCenters s) (conf_Host c) = None \<Longrightarrow>
     \<exists>v s'. run_state (RegisterVirtualCenter c) s = (Inr v, s') \<and>
            map_of (virtualCenters s') = (map_of (virtualCenters s))(conf_Host c \<mapsto> v)"
    by (auto simp: RegisterVirtualCenter_def update_conv')
  show "map_of (virtualCenters s) (conf_Host c) \<noteq> None \<Longrightarrow>
     run_state (RegisterVirtualCenter c) s = (Inl ErrVCAlreadyRegistered, s)"
    by (simp add: RegisterVirtualCenter_def)
  show "map_of (virtualCenters s) k = None \<Longrightarrow>
     run_state (UnregisterVirtualCenter env k) s = (Inl ErrVCNotFound, s)"
    by (simp add: UnregisterVirtualCenter_def GetVirtualCenter_def)
  show "run_state (UnregisterVirtualCenter env k) s = (Inr (), s') \<Longrightarrow>
     map_of (virtualCenters s') = (map_of (virtualCenters s))(k := None)"
    by (auto simp: delete_conv' dest: UnregisterVirtualCenter_registry)
  show "run_state (UnregisterVirtualCenter env k) s = (Inl e, s') \<Longrightarrow>
     map_of (virtualCenters s') = map_of (virtualCenters s)"
    by (auto dest: UnregisterVirtualCenter_registry)
qed

text \<open>Every registered address is allocated, and no host is registered twice.\<close>

definition registry_wf :: "'z driver_scheme \<Rightarrow> bool" where
  "registry_wf s \<longleftrightarrow>
     distinct (map fst (virtualCenters s)) \<and> distinct (map snd (virtualCenters s)) \<and>
     list_all (\<lambda>(host, a). a < next_vc s \<and> vcs s a \<noteq> None) (virtualCenters s)"

lemma registry_wf_trace [simp]: "registry_wf (s\<lparr>trace := tr\<rparr>) = registry_wf s"
  by (simp add: registry_wf_def)

lemma keeps_store_vc [keeps_rules]: "keeps registry_wf (store_vc a f)"
  unfolding store_vc_def
  by (intro keeps_rules) (auto simp: registry_wf_def list_all_iff)

lemma keeps_load_vc [keeps_rules]: "keeps I (load_vc a)"
  unfolding load_vc_def by (intro keeps_rules)

lemma keeps_connect [keeps_rules]: "keeps registry_wf (connect env a)"
  unfolding connect_def resetClient_def resetPbmClient_def resetCnsClient_def newClient_def login_def
  by (intro keeps_rules | simp)+

lemma keeps_Connect [keeps_rules]: "keeps registry_wf (Connect env a)"
  unfolding Connect_def UpdateCredentials_def by (intro keeps_rules | simp)+

lemma keeps_ConnectCNS [keeps_rules]: "keeps registry_wf (ConnectCNS env a)"
  unfolding ConnectCNS_def resetCnsClient_def by (intro keeps_rules | simp)+

lemma keeps_ConnectPbm [keeps_rules]: "keeps registry_wf (ConnectPbm env a)"
  unfolding ConnectPbm_def resetPbmClient_def by (intro keeps_rules | simp)+

lemma keeps_Disconnect [keeps_rules]: "keeps registry_wf (Disconnect env a)"
  unfolding Disconnect_def by (intro keeps_rules | simp)+

lemma update_fresh: "map_of al k = None \<Longrightarrow> AList.update k v al = al @ [(k, v)]"
  by (induction al) (auto split: if_splits)

lemma keeps_RegisterVirtualCenter [keeps_rules]: "keeps registry_wf (RegisterVirtualCenter conf)"
proof (rule keepsI)
  fix s r s'
  assume run: "run_state (RegisterVirtualCenter conf) s = (r, s')" and wf: "registry_wf s"
  show "registry_wf s'"
  proof (cases "map_of (virtualCenters s) (conf_Host conf)")
    case (Some a) with run wf show ?thesis by (auto simp: RegisterVirtualCenter_def)
  next
    case None
    then have "AList.update (conf_Host conf) (next_vc s) (virtualCenters s) =
        virtualCenters s @ [(conf_Host conf, next_vc s)]"
      by (rule update_fresh)
    with run wf None show ?thesis
      by (auto simp: RegisterVirtualCenter_def registry_wf_def list_all_iff map_of_eq_None_iff)
        fastforce+
  qed
qed

lemma keeps_UnregisterVirtualCenter [keeps_rules]:
  "keeps registry_wf (UnregisterVirtualCenter env host)"
proof -
  have "registry_wf (s\<lparr>virtualCenters := AList.delete host (virtualCenters s)\<rparr>)"
    if "registry_wf s" for s :: "'z driver_scheme"
    using that
    by (auto simp: registry_wf_def list_all_iff AList.delete_eq distinct_map_filter
        intro: distinct_map_filter)
  then show ?thesis
    unfolding UnregisterVirtualCenter_def GetVirtualCenter_def DisconnectPbm_def
    by (intro keeps_rules | simp)+
qed

lemma keeps_unregisterHosts [keeps_rules]: "keeps registry_wf (unregisterHosts env hosts)"
  by (induction hosts) (auto intro!: keeps_rules)

lemma unregisterHosts_registry:
  "run_state (unregisterHosts env hosts) s = (Inr (), s') \<Longrightarrow>
   virtualCenters s' = filter (\<lambda>(host, a). host \<notin> set hosts) (virtualCenters s)"
proof (induction hosts arbitrary: s)
  case (Cons host hosts)
  from Cons.prems obtain s1 where
      first: "run_state (UnregisterVirtualCenter env host) s = (Inr (), s1)"
    and rest: "run_state (unregisterHosts env hosts) s1 = (Inr (), s')"
    by (auto split: prod.splits sum.splits)
  from UnregisterVirtualCenter_registry [OF first] Cons.IH [OF rest] show ?case
    by (auto simp: AList.delete_eq intro!: filter_cong)
qed simp

section \<open>What the connection does not touch\<close>

text \<open>A predicate that reads neither the trace nor the heap of virtual centers.\<close>

definition steady :: "('z driver_scheme \<Rightarrow> bool) \<Rightarrow> bool" where
  "steady I \<longleftrightarrow> (\<forall>s tr. I (s\<lparr>trace := tr\<rparr>) = I s) \<and> (\<forall>s h. I (s\<lparr>vcs := h\<rparr>) = I s)"

lemma steadyI: "(\<And>s tr. I (s\<lparr>trace := tr\<rparr>) = I s) \<Longrightarrow> (\<And>s h. I (s\<lparr>vcs := h\<rparr>) = I s) \<Longrightarrow> steady I"
  by (simp add: steady_def)

lemma steady_perform: "steady I \<Longrightarrow> keeps I (perform c answer)"
  by (rule keepsI) (auto simp: steady_def)

lemma steady_store_vc: "steady I \<Longrightarrow> keeps I (store_vc a f)"
  unfolding store_vc_def by (rule keeps_assign) (simp add: steady_def)

lemma steady_ConnectCNS: "steady I \<Longrightarrow> keeps I (ConnectCNS env a)"
  unfolding ConnectCNS_def Connect_def connect_def resetClient_def resetPbmClient_def
    resetCnsClient_def newClient_def login_def UpdateCredentials_def
  by (intro keeps_return keeps_bind keeps_bindE keeps_handle keeps_case_sum keeps_case_option keeps_if keeps_load_vc
      steady_perform steady_store_vc)

text \<open>No step of a connection changes the host of a virtual center.\<close>

definition host_is :: "nat \<Rightarrow> string \<Rightarrow> 'z driver_scheme \<Rightarrow> bool" where
  "host_is a h s \<longleftrightarrow> (\<exists>vc. vcs s a = Some vc \<and> conf_Host (vc_Config vc) = h)"

lemma host_is_perform: "keeps (host_is a h) (perform c answer)"
  by (rule keepsI) (auto simp: host_is_def)

lemma host_is_store_vc:
  "(\<And>v. conf_Host (vc_Config (f v)) = conf_Host (vc_Config v)) \<Longrightarrow> keeps (host_is a h) (store_vc b f)"
  unfolding store_vc_def by (rule keeps_assign) (auto simp: host_is_def)

lemma host_is_Connect: "keeps (host_is a h) (Connect env b)"
  unfolding Connect_def connect_def resetClient_def resetPbmClient_def
    resetCnsClient_def newClient_def login_def UpdateCredentials_def
  by (intro keeps_return keeps_bind keeps_bindE keeps_handle keeps_case_sum keeps_case_option keeps_if keeps_load_vc
      host_is_perform host_is_store_vc) simp_all

lemma session_call_no_mutation [simp]: "session_call c \<Longrightarrow> \<not> cns_mutation c"
  by (cases c) auto

lemma steady_Connect: "steady I \<Longrightarrow> keeps I (Connect env a)"
  unfolding Connect_def connect_def resetClient_def resetPbmClient_def
    resetCnsClient_def newClient_def login_def UpdateCredentials_def
  by (intro keeps_return keeps_bind keeps_bindE keeps_handle keeps_case_sum keeps_case_option keeps_if keeps_load_vc
      steady_perform steady_store_vc)

lemma steady_registry: "steady (\<lambda>s. virtualCenters s = reg)"
  by (rule steadyI) simp_all

lemma Connect_registry:
  "run_state (Connect env a) s = (r, s') \<Longrightarrow> virtualCenters s' = virtualCenters s"
  using keepsD [OF steady_Connect [OF steady_registry]] by metis

text \<open>Connecting to one virtual center leaves the others alone.\<close>

lemma Connect_other:
  assumes "run_state (Connect env a) s = (r, s')" and "b \<noteq> a"
  shows "vcs s' b = vcs s b"
proof -
  have store: "keeps (\<lambda>t. vcs t b = vcs s b) (store_vc a f)" for f
    unfolding store_vc_def by (rule keeps_assign) (use assms(2) in simp)
  have call: "keeps (\<lambda>t. vcs t b = vcs s b) (perform c answer)" for c and answer :: "call list \<Rightarrow> 'x"
    by (rule keepsI) auto
  have "keeps (\<lambda>t. vcs t b = vcs s b) (Connect env a)"
    unfolding Connect_def connect_def resetClient_def resetPbmClient_def
      resetCnsClient_def newClient_def login_def UpdateCredentials_def
    by (intro keeps_return keeps_bind keeps_bindE keeps_handle keeps_case_sum keeps_case_option keeps_if keeps_load_vc
        store call)
  from keepsD [OF this assms(1)] show ?thesis by simp
qed

text \<open>A successful \<open>Connect\<close> leaves a session.\<close>

lemma connect_client:
  assumes "run_state (connect env a) s = (Inr (), s')"
  shows "\<exists>vc. vcs s' a = Some vc \<and> vc_Client vc \<noteq> None"
proof (cases "vcs s a")
  case None with assms show ?thesis by (simp add: connect_def load_vc_def)
next
  case (Some vc)
  from assms Some show ?thesis
    by (cases rule: connect_cases) (auto simp: config_step_def renewed_def)
qed

lemma Connect_client:
  assumes "run_state (Connect env a) s = (Inr (), s')"
  shows "\<exists>vc. vcs s' a = Some vc \<and> vc_Client vc \<noteq> None"
proof -
  from assms obtain t where "run_state (connect env a) t = (Inr (), s')"
    by (auto simp: Connect_def split: prod.splits sum.splits if_splits)
  then show ?thesis by (rule connect_client)
qed

section \<open>The entries and their objects\<close>

text \<open>Every entry of the registry names an object of its own, whose configuration has the host of the entry.\<close>

definition registry_ok :: "'z driver_scheme \<Rightarrow> bool" where
  "registry_ok s \<longleftrightarrow> registry_wf s \<and> (\<forall>(h, a) \<in> set (virtualCenters s). host_is a h s)"

lemma registry_okD:
  assumes "registry_ok s"
  shows "registry_wf s" and "map_of (virtualCenters s) h = Some a \<Longrightarrow> host_is a h s"
  using assms by (auto simp: registry_ok_def dest!: map_of_SomeD)

text \<open>What keeps the registry, its well-formedness and the hosts of the objects keeps the entries right.\<close>

lemma registry_okI:
  assumes "\<And>reg. keeps (\<lambda>s. virtualCenters s = reg) m" and "keeps registry_wf m" and "\<And>a h. keeps (host_is a h) m"
  shows "keeps registry_ok m"
proof (rule keepsI)
  fix s r s' assume run: "run_state m s = (r, s')" and ok: "registry_ok s"
  have "virtualCenters s' = virtualCenters s" using keepsD [OF assms(1) run] by simp
  with ok keepsD [OF assms(2) run] keepsD [OF assms(3) run] show "registry_ok s'"
    by (auto simp: registry_ok_def)
qed

lemma registry_ok_Connect: "keeps registry_ok (Connect env a)"
  by (rule registry_okI [OF steady_Connect [OF steady_registry] keeps_Connect host_is_Connect])

lemma host_is_Disconnect: "keeps (host_is b h) (Disconnect env a)" "keeps (host_is b h) (DisconnectPbm a)"
  unfolding Disconnect_def DisconnectPbm_def
  by (intro keeps_return keeps_bind keeps_bindE keeps_case_option keeps_load_vc host_is_perform host_is_store_vc; simp)+

lemma registry_ok_Register: "keeps registry_ok (RegisterVirtualCenter conf)"
proof (rule keepsI)
  fix s r s' assume run: "run_state (RegisterVirtualCenter conf) s = (r, s')" and ok: "registry_ok s"
  have wf: "registry_wf s'" using keepsD [OF keeps_RegisterVirtualCenter run] ok by (simp add: registry_ok_def)
  show "registry_ok s'"
  proof (cases "map_of (virtualCenters s) (conf_Host conf)")
    case (Some a) with run ok show ?thesis by (auto simp: RegisterVirtualCenter_def)
  next
    case None
    with run ok wf show ?thesis
      by (fastforce simp: RegisterVirtualCenter_def registry_ok_def registry_wf_def update_fresh host_is_def list_all_iff)
  qed
qed

lemma registry_ok_Unregister: "keeps registry_ok (UnregisterVirtualCenter env host)"
proof (rule keepsI)
  fix s r s' assume run: "run_state (UnregisterVirtualCenter env host) s = (r, s')" and ok: "registry_ok s"
  have host: "keeps (host_is a h) (UnregisterVirtualCenter env host)" for a h
    unfolding UnregisterVirtualCenter_def GetVirtualCenter_def
    by (intro keeps_bindE keeps_bind keeps_get keeps_return keeps_assign host_is_Disconnect) (simp add: host_is_def)
  have "set (virtualCenters s') \<subseteq> set (virtualCenters s)"
    using UnregisterVirtualCenter_registry [OF run] by (cases r) (auto simp: AList.delete_eq)
  with ok keepsD [OF keeps_UnregisterVirtualCenter run] keepsD [OF host run] show "registry_ok s'"
    unfolding registry_ok_def by fast
qed

lemma RegisterVirtualCenter_outcome:
  assumes "run_state (RegisterVirtualCenter conf) s = (r, s')" and "registry_ok s"
  shows "case r of Inl e \<Rightarrow> e = ErrVCAlreadyRegistered \<and> map_of (virtualCenters s) (conf_Host conf) \<noteq> None \<and> s' = s
      | Inr a \<Rightarrow> map_of (virtualCenters s) (conf_Host conf) = None \<and> a \<notin> snd ` set (virtualCenters s) \<and>
          map_of (virtualCenters s') = (map_of (virtualCenters s))(conf_Host conf \<mapsto> a) \<and>
          vcs s' = (vcs s)(a \<mapsto> \<lparr>vc_Config = conf, vc_Client = None, vc_PbmClient = None, vc_CnsClient = None\<rparr>)"
proof (cases "map_of (virtualCenters s) (conf_Host conf)")
  case (Some a) with assms(1) show ?thesis by (auto simp: RegisterVirtualCenter_def)
next
  case None
  have "next_vc s \<notin> snd ` set (virtualCenters s)"
    using assms(2) by (auto simp: registry_ok_def registry_wf_def list_all_iff)
  with None assms(1) show ?thesis by (auto simp: RegisterVirtualCenter_def update_conv')
qed

lemma UnregisterVirtualCenter_outcome:
  assumes "run_state (UnregisterVirtualCenter env host) s = (r, s')"
  shows "case r of Inl e \<Rightarrow> virtualCenters s' = virtualCenters s
      | Inr _ \<Rightarrow> map_of (virtualCenters s') = (map_of (virtualCenters s))(host := None) \<and>
          (\<exists>a vc. map_of (virtualCenters s) host = Some a \<and> vcs s a = Some vc \<and>
             vcs s' = (vcs s)(a \<mapsto> vc\<lparr>vc_Client := None, vc_PbmClient := None\<rparr>) \<and>
             trace s' = trace s @ (case vc_Client vc of None \<Rightarrow> [] | Some cl \<Rightarrow> [CallLogout cl]))"
proof (cases r)
  case (Inl e) with UnregisterVirtualCenter_registry [OF assms] show ?thesis by simp
next
  case (Inr u)
  have "map_of (virtualCenters s') = (map_of (virtualCenters s))(host := None)"
    using vc_manager.unregister_ok [of env host s s'] assms Inr by simp
  moreover have "\<exists>a vc. map_of (virtualCenters s) host = Some a \<and> vcs s a = Some vc \<and>
      vcs s' = (vcs s)(a \<mapsto> vc\<lparr>vc_Client := None, vc_PbmClient := None\<rparr>) \<and>
      trace s' = trace s @ (case vc_Client vc of None \<Rightarrow> [] | Some cl \<Rightarrow> [CallLogout cl])"
  proof -
    from assms Inr obtain a vc where a: "map_of (virtualCenters s) host = Some a" "vcs s a = Some vc"
      by (auto simp: UnregisterVirtualCenter_def GetVirtualCenter_def DisconnectPbm_def Disconnect_def load_vc_def
          store_vc_def split: option.splits)
    with assms Inr show ?thesis
      by (cases vc; cases "vc_Client vc")
         (auto simp: UnregisterVirtualCenter_def GetVirtualCenter_def DisconnectPbm_def Disconnect_def load_vc_def
          store_vc_def fun_upd_def split: sum.splits)
  qed
  ultimately show ?thesis by (simp add: Inr)
qed

section \<open>Properties\<close>

text \<open>
  \<open>GetVirtualCenterConfig\<close> returns the configuration of the first configured vCenter with at least
  one datacenter path: the list is never empty, so the documented meaning of an empty list
  (all datacenters) never applies, and an unset \<open>datacenters\<close> option is the one path "".
\<close>

lemma GetVirtualCenterConfig_paths:
  assumes "GetVirtualCenterConfig cfg = Inr conf"
  shows "(\<exists>vc rest. VirtualCenter cfg = (conf_Host conf, vc) # rest \<and>
            Atoi (VCenterPort vc) = Some (conf_Port conf) \<and> conf_Username conf = User vc \<and>
            (Datacenters vc = [] \<longrightarrow> conf_DatacenterPaths conf = [[]])) \<and>
         conf_DatacenterPaths conf \<noteq> []"
proof -
  from assms obtain host vc rest where "VirtualCenter cfg = (host, vc) # rest"
    by (cases "VirtualCenter cfg") (auto simp: GetVirtualCenterConfig_def GetVcenterIPs_def)
  with assms show ?thesis
    by (auto simp: GetVirtualCenterConfig_def GetVcenterIPs_def TrimSpace_def split: option.splits)
qed

text \<open>
  C34. When \<open>connect\<close> succeeds the virtual center has a vim client. The PBM and CNS clients it had are made anew from
  this client exactly when there was a vim client before whose session had expired; otherwise they are kept as they are, and so
  is a live vim client. Hence clients that belonged to the session before belong to the session afterwards; clients that outlived their
  vim client stay stale. No other virtual center, nor the registry, is touched.
\<close>

theorem connect_coherent:
  assumes "run_state (connect env a) s = (Inr (), s')" and "vcs s a = Some vc"
  shows "\<exists>vc' cl. vcs s' = (vcs s)(a \<mapsto> vc') \<and> virtualCenters s' = virtualCenters s \<and> vc_Client vc' = Some cl \<and>
    (if vc_Client vc \<noteq> None \<and> ans_UserSession env (trace s) = Inr None
     then vc_PbmClient vc' = map_option (\<lambda>_. cl) (vc_PbmClient vc) \<and>
          vc_CnsClient vc' = map_option (\<lambda>_. cl) (vc_CnsClient vc)
     else vc_PbmClient vc' = vc_PbmClient vc \<and> vc_CnsClient vc' = vc_CnsClient vc \<and>
          vc_Client vc \<in> {None, vc_Client vc'}) \<and>
    (coherent_vc vc \<longrightarrow> coherent_vc vc')"
  using assms
proof (cases rule: connect_cases)
  case (first cl) then show ?thesis by (auto simp: config_step_def coherent_vc_def)
next
  case (alive u) then show ?thesis by (auto simp: config_step_def)
next
  case (renewal cl)
  then obtain conf where "vcs s' = (vcs s)(a \<mapsto> (renewed cl vc)\<lparr>vc_Config := conf\<rparr>)" "virtualCenters s' = virtualCenters s"
    by (auto simp: config_step_def)
  with renewal show ?thesis
    by (intro exI [of _ "(renewed cl vc)\<lparr>vc_Config := conf\<rparr>"] exI [of _ cl]) (auto simp: coherent_vc_def renewed_def)
qed

text \<open>
  A virtual center that lost its vim client (a failed reconnection, or \<open>Disconnect\<close>) but still has a
  CNS client keeps that stale CNS client through every successful \<open>ConnectCNS\<close>: the new session
  gets no CNS client of its own.
\<close>

lemma ConnectCNS_keeps_stale_client:
  assumes "run_state (ConnectCNS env a) s = (Inr (), s')" and "vcs s a = Some vc"
    and "vc_Client vc = None" and "vc_CnsClient vc = Some c0"
  shows "\<exists>vc' cl. vcs s' a = Some vc' \<and> vc_Client vc' = Some cl \<and> vc_CnsClient vc' = Some c0"
proof -
  from assms(1) obtain u s1 where "run_state (Connect env a) s = (Inr u, s1)"
    and rest: "run_state (bindE (load_vc a) (\<lambda>vc. if vc_CnsClient vc = None
       then case vc_Client vc of
              None \<Rightarrow> State_Monad.return (Inl (Panic ''nil *govmomi.Client''))
            | Some cl \<Rightarrow> resetCnsClient env a cl
       else State_Monad.return (Inr ()))) s1 = (Inr (), s')"
    unfolding ConnectCNS_def by (rule bindE_Inr)
  then have "run_state (Connect env a) s = (Inr (), s1)" by (cases u) simp
  from Connect_without_client [OF this assms(2,3)] obtain cl where
    "config_step a (vc\<lparr>vc_Client := Some cl\<rparr>) s s1" by blast
  with rest assms(4) show ?thesis by (auto simp: config_step_def load_vc_def)
qed

text \<open>
  C33. The registry of vCenters, from a state in which every entry names an object of its own with the entry's host
  (which every operation keeps). Registering a host that is taken is refused without any effect; otherwise exactly this host is
  added, with a new object that has the given configuration and no client. Unregistering either leaves the entries as they are
  and reports an error, or it removes exactly this host, after it logged out of the session there was, and leaves its object
  without a vim and a PBM client (but with its CNS client).
\<close>

theorem registry_contract:
  assumes "registry_ok s"
  shows "(\<forall>conf r s'. run_state (RegisterVirtualCenter conf) s = (r, s') \<longrightarrow> registry_ok s' \<and> (case r of
        Inl e \<Rightarrow> e = ErrVCAlreadyRegistered \<and> map_of (virtualCenters s) (conf_Host conf) \<noteq> None \<and> s' = s
      | Inr a \<Rightarrow> map_of (virtualCenters s) (conf_Host conf) = None \<and> a \<notin> snd ` set (virtualCenters s) \<and>
          map_of (virtualCenters s') = (map_of (virtualCenters s))(conf_Host conf \<mapsto> a) \<and>
          vcs s' = (vcs s)(a \<mapsto> \<lparr>vc_Config = conf, vc_Client = None, vc_PbmClient = None, vc_CnsClient = None\<rparr>))) \<and>
    (\<forall>env host r s'. run_state (UnregisterVirtualCenter env host) s = (r, s') \<longrightarrow> registry_ok s' \<and> (case r of
        Inl e \<Rightarrow> virtualCenters s' = virtualCenters s
      | Inr _ \<Rightarrow> map_of (virtualCenters s') = (map_of (virtualCenters s))(host := None) \<and>
          (\<exists>a vc. map_of (virtualCenters s) host = Some a \<and> vcs s a = Some vc \<and>
             vcs s' = (vcs s)(a \<mapsto> vc\<lparr>vc_Client := None, vc_PbmClient := None\<rparr>) \<and>
             trace s' = trace s @ (case vc_Client vc of None \<Rightarrow> [] | Some cl \<Rightarrow> [CallLogout cl]))))"
proof (intro conjI allI impI)
  fix conf r s' assume run: "run_state (RegisterVirtualCenter conf) s = (r, s')"
  show "registry_ok s'" by (rule keepsD [OF registry_ok_Register run assms])
  show "case r of Inl e \<Rightarrow> e = ErrVCAlreadyRegistered \<and> map_of (virtualCenters s) (conf_Host conf) \<noteq> None \<and> s' = s
      | Inr a \<Rightarrow> map_of (virtualCenters s) (conf_Host conf) = None \<and> a \<notin> snd ` set (virtualCenters s) \<and>
          map_of (virtualCenters s') = (map_of (virtualCenters s))(conf_Host conf \<mapsto> a) \<and>
          vcs s' = (vcs s)(a \<mapsto> \<lparr>vc_Config = conf, vc_Client = None, vc_PbmClient = None, vc_CnsClient = None\<rparr>)"
    by (rule RegisterVirtualCenter_outcome [OF run assms])
next
  fix env host r s' assume run: "run_state (UnregisterVirtualCenter env host) s = (r, s')"
  show "registry_ok s'" by (rule keepsD [OF registry_ok_Unregister run assms])
  show "case r of Inl e \<Rightarrow> virtualCenters s' = virtualCenters s
      | Inr _ \<Rightarrow> map_of (virtualCenters s') = (map_of (virtualCenters s))(host := None) \<and>
          (\<exists>a vc. map_of (virtualCenters s) host = Some a \<and> vcs s a = Some vc \<and>
             vcs s' = (vcs s)(a \<mapsto> vc\<lparr>vc_Client := None, vc_PbmClient := None\<rparr>) \<and>
             trace s' = trace s @ (case vc_Client vc of None \<Rightarrow> [] | Some cl \<Rightarrow> [CallLogout cl]))"
    by (rule UnregisterVirtualCenter_outcome [OF run])
qed

text \<open>
  A vCenter host is registered at most once: after a successful registration, looking the host up
  gives the new object, a second registration of the host is refused without effect, and other
  hosts are found as before.
\<close>

lemma RegisterVirtualCenter_once:
  assumes "run_state (RegisterVirtualCenter conf) s = (Inr a, s')" and "conf_Host conf' = conf_Host conf"
  shows "run_state (GetVirtualCenter (conf_Host conf)) s' = (Inr a, s') \<and>
         run_state (RegisterVirtualCenter conf') s' = (Inl ErrVCAlreadyRegistered, s') \<and>
         map_of (virtualCenters s') = (map_of (virtualCenters s))(conf_Host conf \<mapsto> a)"
  using vc_manager.register_lookup [OF assms(1)] vc_manager.register_twice [OF assms]
  by (simp add: GetVirtualCenter_def)

text \<open>When \<open>UnregisterAllVirtualCenters\<close> succeeds, no vCenter is registered.\<close>

lemma UnregisterAll_empties:
  assumes "run_state (UnregisterAllVirtualCenters env) s = (Inr (), s')"
  shows "virtualCenters s' = []"
  using assms
  by (auto simp: UnregisterAllVirtualCenters_def filter_empty_conv dest!: unregisterHosts_registry)
     (metis fst_conv image_eqI)

section \<open>Witnesses\<close>

definition vc_sample_config :: config where
  "vc_sample_config = empty_config\<lparr>VirtualCenter := [(''vc1'', \<lparr>User = ''u'', Password = ''p'',
     VCenterPort = ''443'', InsecureFlag = False, Datacenters = []\<rparr>)]\<rparr>"

lemma GetVirtualCenterConfig_paths_witness:
  "case GetVirtualCenterConfig vc_sample_config of Inl _ \<Rightarrow> False
   | Inr conf \<Rightarrow> conf_DatacenterPaths conf = [[]]"
proof -
  obtain conf where c: "GetVirtualCenterConfig vc_sample_config = Inr conf"
    by (simp add: GetVirtualCenterConfig_def GetVcenterIPs_def vc_sample_config_def Atoi_def)
  from GetVirtualCenterConfig_paths [OF c] c show ?thesis by (auto simp: vc_sample_config_def)
qed

theorem connect_coherent_witness:
  "\<exists>vc'. vcs (snd (run_state (connect sample_env 0) sample_driver)) 0 = Some vc' \<and>
     vc_Client vc' \<noteq> None \<and> coherent_vc vc'"
proof -
  have "\<exists>s'. run_state (connect sample_env 0) sample_driver = (Inr (), s')"
    by (simp add: vc_program_defs sample_simps)
  then obtain s' where run: "run_state (connect sample_env 0) sample_driver = (Inr (), s')" by blast
  from connect_coherent [OF this, of sample_vc] run show ?thesis
    by (auto simp: sample_driver_def coherent_vc_def sample_vc_def)
qed

theorem registry_contract_witness:
  "registry_ok sample_driver \<and> (\<exists>s' vc. run_state (UnregisterVirtualCenter sample_env ''vc1'') sample_driver = (Inr (), s') \<and>
     virtualCenters s' = [] \<and> vcs s' 0 = Some vc \<and> vc_Client vc = None) \<and>
   fst (run_state (RegisterVirtualCenter sample_conf) sample_driver) = Inl ErrVCAlreadyRegistered"
proof -
  have ok: "registry_ok sample_driver"
    by (simp add: registry_ok_def registry_wf_def host_is_def sample_simps)
  obtain s' where un: "run_state (UnregisterVirtualCenter sample_env ''vc1'') sample_driver = (Inr (), s')" "virtualCenters s' = []"
    by (simp add: vc_program_defs sample_simps)
  obtain r s1 where reg: "run_state (RegisterVirtualCenter sample_conf) sample_driver = (r, s1)" by fastforce
  note contract = registry_contract [OF ok]
  have taken: "map_of (virtualCenters sample_driver) (conf_Host sample_conf) = Some 0"
    by (simp add: sample_driver_def sample_conf_def)
  from conjunct1 [OF contract, rule_format, OF reg] taken have "r = Inl ErrVCAlreadyRegistered" by (cases r) auto
  moreover from conjunct2 [OF contract, rule_format, OF un(1)] have "\<exists>vc. vcs s' 0 = Some vc \<and> vc_Client vc = None"
    by (auto simp: sample_driver_def)
  ultimately show ?thesis using ok un reg by auto
qed

text \<open>A connection, a disconnection and a second connection on the sample environment.\<close>

definition reconnect_run :: "(driver, error + unit) state" where
  "reconnect_run = do { ConnectCNS sample_env 0; Disconnect sample_env 0 }"

lemma ConnectCNS_keeps_stale_client_witness:
  "\<exists>vc' cl. vcs (snd (run_state (ConnectCNS sample_env 0) (snd (run_state reconnect_run sample_driver)))) 0
      = Some vc' \<and> vc_Client vc' = Some cl \<and> vc_CnsClient vc' = Some 0"
proof -
  define s where "s = snd (run_state reconnect_run sample_driver)"
  have s: "vcs s 0 = Some (sample_vc\<lparr>vc_CnsClient := Some 0,
      vc_Config := sample_conf\<lparr>conf_Scheme := ''https'', conf_RoundTripperCount := 3\<rparr>\<rparr>)"
    by (simp add: s_def reconnect_run_def vc_program_defs sample_simps DefaultScheme_def
        DefaultRoundTripperCount_def)
  have "\<exists>s'. run_state (ConnectCNS sample_env 0) s = (Inr (), s')"
    using s by (simp add: vc_program_defs sample_simps)
  then obtain s' where run: "run_state (ConnectCNS sample_env 0) s = (Inr (), s')" by blast
  from ConnectCNS_keeps_stale_client [OF run s] run show ?thesis
    by (simp add: s_def sample_vc_def)
qed

lemma RegisterVirtualCenter_once_witness:
  "\<exists>a s'. run_state (RegisterVirtualCenter (sample_conf\<lparr>conf_Host := ''vc2''\<rparr>)) sample_driver = (Inr a, s') \<and>
     run_state (GetVirtualCenter ''vc2'') s' = (Inr a, s')"
proof -
  have "\<exists>a s'. run_state (RegisterVirtualCenter (sample_conf\<lparr>conf_Host := ''vc2''\<rparr>)) sample_driver
      = (Inr a, s')"
    by (simp add: vc_program_defs sample_simps)
  with RegisterVirtualCenter_once [of "sample_conf\<lparr>conf_Host := ''vc2''\<rparr>" sample_driver]
  show ?thesis by fastforce
qed

lemma UnregisterAll_empties_witness:
  "virtualCenters (snd (run_state (UnregisterAllVirtualCenters sample_env) sample_driver)) = [] \<and>
   virtualCenters sample_driver \<noteq> []"
proof -
  have "fst (run_state (UnregisterAllVirtualCenters sample_env) sample_driver) = Inr ()"
    by (simp add: UnregisterAllVirtualCenters_def vc_program_defs sample_simps)
  then have "run_state (UnregisterAllVirtualCenters sample_env) sample_driver =
      (Inr (), snd (run_state (UnregisterAllVirtualCenters sample_env) sample_driver))"
    by (metis prod.collapse)
  from UnregisterAll_empties [OF this] show ?thesis by (simp add: sample_driver_def)
qed

end
