(* ===== verification/Cns_Utils.thy ===== *)
theory Cns_Utils
  imports External "HOL-Library.AList"
begin

text \<open>
  The construction and comparison of CNS metadata of \<open>pkg/common/cns-lib/vsphere/utils.go\<close>. A label list
  of CNS is a list of key-value pairs in which a later pair replaces an earlier one with the same
  key; two label lists are the same when they denote the same map.
\<close>

section \<open>Definitions\<close>

definition CnsClusterTypeKubernetes :: string where
  "CnsClusterTypeKubernetes = ''KUBERNETES''"

definition DriverName :: string where "DriverName = ''csi.vsphere.vmware.com''"

definition BlockVolumeType :: string where "BlockVolumeType = ''BLOCK''"

definition GetCnsKubernetesEntityMetaData ::
  "string \<Rightarrow> label_map \<Rightarrow> bool \<Rightarrow> entity_type \<Rightarrow> string \<Rightarrow> entity_metadata" where
  "GetCnsKubernetesEntityMetaData entityName labels deleteFlag entityType namespace =
     \<lparr>EntityName = entityName, DeleteFlag = deleteFlag,
      EntityLabels = (case labels of None \<Rightarrow> [] | Some newLabels \<Rightarrow> newLabels),
      EntityType = entityType, EntityNamespace = namespace\<rparr>"

definition GetContainerCluster :: "string \<Rightarrow> string \<Rightarrow> container_cluster" where
  "GetContainerCluster clusterid username =
     \<lparr>ClusterType = CnsClusterTypeKubernetes, ClusterId = clusterid, VSphereUser = username\<rparr>"

definition GetLabelsMapFromKeyValue :: "(string \<times> string) list \<Rightarrow> label_map" where
  "GetLabelsMapFromKeyValue labels =
     Some (fold (\<lambda>(key, value) labelsMap. AList.update key value labelsMap) labels [])"

definition CompareKubernetesMetadata :: "entity_metadata \<Rightarrow> entity_metadata \<Rightarrow> bool" where
  "CompareKubernetesMetadata pvMetaData cnsMetaData =
     (if EntityName pvMetaData \<noteq> EntityName cnsMetaData \<or> DeleteFlag pvMetaData \<noteq> DeleteFlag cnsMetaData
         \<or> EntityNamespace pvMetaData \<noteq> EntityNamespace cnsMetaData
      then False
      else DeepEqual_labels (GetLabelsMapFromKeyValue (EntityLabels pvMetaData))
             (GetLabelsMapFromKeyValue (EntityLabels cnsMetaData)))"

section \<open>The comparison is an equivalence\<close>

lemma map_of_fold_update:
  "map_of (fold (\<lambda>(key, value) m. AList.update key value m) labels al) = map_of al ++ map_of (rev labels)"
  by (induction labels arbitrary: al)
     (auto simp: update_conv' map_add_def fun_eq_iff map_of_append split: option.splits)

lemma DeepEqual_GetLabels:
  "DeepEqual_labels (GetLabelsMapFromKeyValue xs) (GetLabelsMapFromKeyValue ys) \<longleftrightarrow>
   map_of (rev xs) = map_of (rev ys)"
  by (simp add: GetLabelsMapFromKeyValue_def map_of_fold_update)

text \<open>What the comparison looks at: everything but the entity type, with the labels as a map.\<close>

definition metadata_view :: "entity_metadata \<Rightarrow> string \<times> bool \<times> string \<times> (string \<rightharpoonup> string)" where
  "metadata_view m = (EntityName m, DeleteFlag m, EntityNamespace m, map_of (rev (EntityLabels m)))"

lemma CompareKubernetesMetadata_view:
  "CompareKubernetesMetadata m m' \<longleftrightarrow> metadata_view m = metadata_view m'"
  by (auto simp: CompareKubernetesMetadata_def metadata_view_def DeepEqual_GetLabels)

lemma CompareKubernetesMetadata_refl [simp]: "CompareKubernetesMetadata m m"
  by (simp add: CompareKubernetesMetadata_view)

section \<open>Properties\<close>

text \<open>
  Two entities built from Kubernetes objects compare equal exactly when they have the same name,
  namespace and delete flag and their label maps agree; the order in which Go visits a label map
  does not matter, nor does the entity type.
\<close>

lemma CompareKubernetesMetadata_spec:
  assumes "distinct (map fst labels)" and "distinct (map fst labels')"
  shows "CompareKubernetesMetadata
           (GetCnsKubernetesEntityMetaData name (Some labels) del type ns)
           (GetCnsKubernetesEntityMetaData name' (Some labels') del' type' ns') \<longleftrightarrow>
         name = name' \<and> del = del' \<and> ns = ns' \<and> set labels = set labels'"
proof -
  have "map_of (rev labels) = map_of (rev labels') \<longleftrightarrow> set labels = set labels'"
    using assms map_of_inject_set [of "rev labels" "rev labels'"]
    by (simp add: rev_map [symmetric])
  then show ?thesis
    by (auto simp: CompareKubernetesMetadata_view metadata_view_def GetCnsKubernetesEntityMetaData_def)
qed

lemma CompareKubernetesMetadata_spec_witness:
  "CompareKubernetesMetadata
     (GetCnsKubernetesEntityMetaData ''pv1'' (Some [(''a'', ''1''), (''b'', ''2'')]) False PVType [])
     (GetCnsKubernetesEntityMetaData ''pv1'' (Some [(''b'', ''2''), (''a'', ''1'')]) False PVCType [])"
  by (subst CompareKubernetesMetadata_spec) auto

end
