(* ===== verification/Volume_Manager.thy ===== *)
theory Volume_Manager
  imports VCenter Cns_Utils
begin

text \<open>
  \<open>pkg/common/cns-lib/volume\<close>: the volume manager (\<open>manager.go\<close>) and the search for an attached disk
  (\<open>util.go\<close>). A manager is its \<open>virtualCenter\<close> pointer, \<open>None\<close> being nil. The manager overwrites
  \<open>VSphereUser\<close> in the caller's specification; its callers do not read that field afterwards, so the
  specification is passed by value.
\<close>

section \<open>Attached disks\<close>

definition CNSVolumeResourceInUseFaultMessage :: string where
  "CNSVolumeResourceInUseFaultMessage = ''The resource '' @ [char_of (39::nat)] @ ''volume'' @ [char_of (39::nat)] @ '' is in use.''"

fun findDisk :: "vm_device list \<Rightarrow> string \<Rightarrow> string" where
  "findDisk [] volumeID = []"
| "findDisk (device # vmDevices) volumeID =
     (case device of
        VirtualDisk (Some vDiskId) (FlatVer2Backing uuid) \<Rightarrow>
          if vDiskId = volumeID then uuid else findDisk vmDevices volumeID
      | _ \<Rightarrow> findDisk vmDevices volumeID)"

definition GetDiskAttachedToVM :: "env \<Rightarrow> moref \<Rightarrow> string \<Rightarrow> ('z, string) progE" where
  "GetDiskAttachedToVM env vm volumeID =
     bindE (perform (CallVmDevices vm) (ans_VmDevices env vm)) (\<lambda>vmDevices.
     State_Monad.return (Inr (findDisk vmDevices volumeID)))"

section \<open>The manager\<close>

record csi = driver +
  managerInstance :: "nat option option"

definition GetManager :: "nat option \<Rightarrow> ('z csi_scheme, nat option) state" where
  "GetManager vc = do {
     s \<leftarrow> State_Monad.get;
     case managerInstance s of
       Some m \<Rightarrow> State_Monad.return m
     | None \<Rightarrow> do { assign (\<lambda>s. s\<lparr>managerInstance := Some vc\<rparr>); State_Monad.return vc }
   }"

definition validateManager :: "nat option \<Rightarrow> error + nat" where
  "validateManager m = (case m of
     None \<Rightarrow> Inl (Errorf ''Virtual Center connection not established'') | Some a \<Rightarrow> Inr a)"

text \<open>The start of every operation: \<open>validateManager\<close>, then \<open>ConnectCNS\<close>.\<close>

definition withCNS :: "env \<Rightarrow> nat option \<Rightarrow> (nat \<Rightarrow> ('z, 'a) progE) \<Rightarrow> ('z, 'a) progE" where
  "withCNS env m k =
     (case validateManager m of
        Inl err \<Rightarrow> State_Monad.return (Inl err)
      | Inr a \<Rightarrow> bindE (ConnectCNS env a) (\<lambda>_. k a))"

definition cnsClient :: "nat \<Rightarrow> ('z, client) progE" where
  "cnsClient a =
     bindE (load_vc a) (\<lambda>vc. State_Monad.return (case vc_CnsClient vc of
       None \<Rightarrow> Inl (Panic ''nil *cns.Client'') | Some cl \<Rightarrow> Inr cl))"

definition sessionUser :: "env \<Rightarrow> nat \<Rightarrow> ('z, string) progE" where
  "sessionUser env a =
     bindE (load_vc a) (\<lambda>vc. case vc_Client vc of
       None \<Rightarrow> State_Monad.return (Inl (Panic ''nil *govmomi.Client''))
     | Some cl \<Rightarrow>
         bindE (perform (CallUserSession cl) (ans_UserSession env)) (\<lambda>s.
         State_Monad.return (case s of
           None \<Rightarrow> Inl (Panic ''nil *UserSession'') | Some userName \<Rightarrow> Inr userName)))"

text \<open>
  The part every changing operation shares: issue the CNS call, fetch the task's info and result,
  and refuse a missing result.
\<close>

definition cnsTask :: "env \<Rightarrow> nat \<Rightarrow> (client \<Rightarrow> call) \<Rightarrow> ('z, task_result) progE" where
  "cnsTask env a cnsCall =
     bindE (cnsClient a) (\<lambda>cl.
     bindE (perform (cnsCall cl) (ans_CnsTask env)) (\<lambda>task.
     bindE (perform (CallTaskInfo task) (ans_TaskInfo env)) (\<lambda>taskInfo.
     bindE (perform (CallTaskResult taskInfo) (ans_TaskResult env)) (\<lambda>taskResult.
     State_Monad.return (case taskResult of
       None \<Rightarrow> Inl (Errorf ''taskResult is empty'') | Some res \<Rightarrow> Inr res)))))"

definition checkFault :: "task_result \<Rightarrow> error + task_result" where
  "checkFault taskResult = (case res_Fault taskResult of
     Some localizedMessage \<Rightarrow> Inl (LocalizedFault localizedMessage) | None \<Rightarrow> Inr taskResult)"

definition CreateVolume :: "env \<Rightarrow> nat option \<Rightarrow> create_spec \<Rightarrow> ('z, string) progE" where
  "CreateVolume env m spec = withCNS env m (\<lambda>a.
     bindE (sessionUser env a) (\<lambda>userName.
     let spec' = (if userName \<noteq> VSphereUser (ContainerCluster (create_Metadata spec))
                  then create_Metadata_update (ContainerCluster_update (VSphereUser_update (\<lambda>_. userName))) spec
                  else spec) in
     bindE (cnsTask env a (\<lambda>cl. CallCnsCreate cl [spec'])) (\<lambda>taskResult.
     State_Monad.return (map_sum (\<lambda>e. e) res_VolumeId (checkFault taskResult)))))"

definition AttachVolume :: "env \<Rightarrow> nat option \<Rightarrow> moref \<Rightarrow> string \<Rightarrow> ('z, string) progE" where
  "AttachVolume env m vm volumeID = withCNS env m (\<lambda>a.
     bindE (cnsTask env a (\<lambda>cl. CallCnsAttach cl [(volumeID, vm)])) (\<lambda>taskResult.
     case res_Fault taskResult of
       Some localizedMessage \<Rightarrow>
         (if localizedMessage = CNSVolumeResourceInUseFaultMessage
          then bindE (GetDiskAttachedToVM env vm volumeID) (\<lambda>diskUUID.
                 if diskUUID \<noteq> [] then State_Monad.return (Inr diskUUID)
                 else State_Monad.return (Inl (LocalizedFault localizedMessage)))
          else State_Monad.return (Inl (LocalizedFault localizedMessage)))
     | None \<Rightarrow> State_Monad.return (case taskResult of
         AttachResult _ _ diskUUID \<Rightarrow> Inr diskUUID
       | OperationResult _ _ \<Rightarrow> Inl (Panic ''interface conversion''))))"

definition DetachVolume :: "env \<Rightarrow> nat option \<Rightarrow> moref \<Rightarrow> string \<Rightarrow> ('z, unit) progE" where
  "DetachVolume env m vm volumeID = withCNS env m (\<lambda>a.
     bindE (cnsTask env a (\<lambda>cl. CallCnsDetach cl [(volumeID, vm)])) (\<lambda>taskResult.
     State_Monad.return (map_sum (\<lambda>e. e) (\<lambda>_. ()) (checkFault taskResult))))"

definition DeleteVolume :: "env \<Rightarrow> nat option \<Rightarrow> string \<Rightarrow> bool \<Rightarrow> ('z, unit) progE" where
  "DeleteVolume env m volumeID deleteDisk = withCNS env m (\<lambda>a.
     bindE (cnsTask env a (\<lambda>cl. CallCnsDelete cl [volumeID] deleteDisk)) (\<lambda>taskResult.
     State_Monad.return (map_sum (\<lambda>e. e) (\<lambda>_. ()) (checkFault taskResult))))"

definition UpdateVolumeMetadata :: "env \<Rightarrow> nat option \<Rightarrow> update_spec \<Rightarrow> ('z, unit) progE" where
  "UpdateVolumeMetadata env m spec = withCNS env m (\<lambda>a.
     bindE (sessionUser env a) (\<lambda>userName.
     let spec' = (if userName \<noteq> VSphereUser (ContainerCluster (update_Metadata spec))
                  then update_Metadata_update (ContainerCluster_update (VSphereUser_update (\<lambda>_. userName))) spec
                  else spec) in
     bindE (cnsTask env a (\<lambda>cl. CallCnsUpdate cl
              [\<lparr>update_VolumeId = update_VolumeId spec', update_Metadata = update_Metadata spec'\<rparr>]))
       (\<lambda>taskResult. State_Monad.return (map_sum (\<lambda>e. e) (\<lambda>_. ()) (checkFault taskResult)))))"

definition QueryVolume :: "env \<Rightarrow> nat option \<Rightarrow> query_filter \<Rightarrow> ('z, cns_volume list) progE" where
  "QueryVolume env m queryFilter = withCNS env m (\<lambda>a.
     bindE (cnsClient a) (\<lambda>cl. perform (CallCnsQuery cl queryFilter) (ans_CnsQuery env queryFilter)))"

definition QueryAllVolume :: "env \<Rightarrow> nat option \<Rightarrow> query_filter \<Rightarrow> ('z, cns_volume list) progE" where
  "QueryAllVolume env m queryFilter = withCNS env m (\<lambda>a.
     bindE (cnsClient a) (\<lambda>cl. perform (CallCnsQueryAll cl queryFilter) (ans_CnsQueryAll env queryFilter)))"

lemmas manager_defs =
  CreateVolume_def AttachVolume_def DetachVolume_def DeleteVolume_def UpdateVolumeMetadata_def
  QueryVolume_def QueryAllVolume_def

section \<open>What the operations change in CNS\<close>

definition mutations :: "'z driver_scheme \<Rightarrow> call list" where
  "mutations s = filter cns_mutation (trace s)"

lemma mutations_trace [simp]:
  "mutations (s\<lparr>trace := tr\<rparr>) = filter cns_mutation tr"
  by (simp add: mutations_def)

lemma emits_mutations:
  "emits (\<lambda>c. \<not> cns_mutation c) m \<Longrightarrow> run_state m s = (r, s') \<Longrightarrow> mutations s' = mutations s"
  by (erule (1) emitsE) (auto simp: mutations_def filter_empty_conv list_all_iff)

lemma emits_sessionUser [emits_rules]:
  "(\<And>c. session_call c \<Longrightarrow> P c) \<Longrightarrow> emits P (sessionUser env a)"
  unfolding sessionUser_def by (intro emits_rules | simp)+

lemma ConnectCNS_mutations:
  assumes "run_state (ConnectCNS env a) s = (r, s')"
  shows "mutations s' = mutations s"
  by (rule emits_mutations [OF _ assms]) (intro emits_rules session_call_no_mutation)

lemma sessionUser_mutations:
  assumes "run_state (sessionUser env a) s = (r, s')"
  shows "mutations s' = mutations s"
  by (rule emits_mutations [OF _ assms]) (intro emits_rules session_call_no_mutation)

lemma cnsClient_run: "run_state (cnsClient a) s = (r, s') \<Longrightarrow> s' = s"
  by (auto simp: cnsClient_def load_vc_def split: option.splits)

text \<open>
  The outcome of one attempt to change CNS by a call that satisfies \<open>does\<close>: the call was made once,
  or an error came first and nothing was changed.
\<close>

definition attempted :: "(call \<Rightarrow> bool) \<Rightarrow> 'z driver_scheme \<Rightarrow> error + 'a \<Rightarrow> 'z driver_scheme \<Rightarrow> bool" where
  "attempted does s r s' \<longleftrightarrow>
     (\<exists>c. does c \<and> mutations s' = mutations s @ [c]) \<or> ((\<exists>e. r = Inl e) \<and> mutations s' = mutations s)"

lemma cnsTask_attempted:
  assumes "run_state (cnsTask env a cnsCall) s = (r, s')" and "\<And>cl. cns_mutation (cnsCall cl)"
  shows "attempted (\<lambda>c. \<exists>cl. c = cnsCall cl) s r s'"
  using assms
  by (auto simp: cnsTask_def attempted_def mutations_def dest!: cnsClient_run
      split: prod.splits sum.splits option.splits)

lemma attempted_after:
  "mutations s1 = mutations s \<Longrightarrow> attempted does s1 r s' \<Longrightarrow> attempted does s r s'"
  by (simp add: attempted_def)

lemma cnsTask_then:
  assumes run: "run_state (bindE (cnsTask env a cnsCall) k) s = (r, s')"
    and call: "\<And>cl. cns_mutation (cnsCall cl)"
    and k: "\<And>x. emits (\<lambda>c. \<not> cns_mutation c) (k x)"
  shows "attempted (\<lambda>c. \<exists>cl. c = cnsCall cl) s r s'"
proof -
  obtain r1 s1 where t: "run_state (cnsTask env a cnsCall) s = (r1, s1)" by fastforce
  from cnsTask_attempted [OF t call] have att: "attempted (\<lambda>c. \<exists>cl. c = cnsCall cl) s r1 s1" .
  show ?thesis
  proof (cases r1)
    case (Inl e) with run t att show ?thesis by (auto simp: attempted_def)
  next
    case (Inr x)
    with run t have "run_state (k x) s1 = (r, s')" by simp
    from emits_mutations [OF k this] att Inr show ?thesis by (auto simp: attempted_def)
  qed
qed

lemma withCNS_attempted:
  assumes run: "run_state (withCNS env m k) s = (r, s')"
    and k: "\<And>a t. run_state (k a) t = (r, s') \<Longrightarrow> attempted does t r s'"
  shows "attempted does s r s'"
proof (cases m)
  case None with run show ?thesis by (auto simp: withCNS_def validateManager_def attempted_def)
next
  case (Some a)
  obtain r1 s1 where c: "run_state (ConnectCNS env a) s = (r1, s1)" by fastforce
  note same = ConnectCNS_mutations [OF c]
  show ?thesis
  proof (cases r1)
    case (Inl e)
    with run Some c same show ?thesis by (auto simp: withCNS_def validateManager_def attempted_def)
  next
    case (Inr u)
    with run Some c have "run_state (k a) s1 = (r, s')" by (simp add: withCNS_def validateManager_def)
    from attempted_after [OF same k [OF this]] show ?thesis .
  qed
qed

text \<open>The users vCenter may report for the session.\<close>

definition session_user :: "env \<Rightarrow> string \<Rightarrow> bool" where
  "session_user env u \<longleftrightarrow> (\<exists>h. ans_UserSession env h = Inr (Some u))"

lemma sessionUser_user: "run_state (sessionUser env a) s = (Inr u, s') \<Longrightarrow> session_user env u"
  by (auto simp: sessionUser_def load_vc_def session_user_def split: option.splits sum.splits)

lemma sessionUser_then:
  assumes run: "run_state (bindE (sessionUser env a) k) s = (r, s')"
    and k: "\<And>u t. session_user env u \<Longrightarrow> run_state (k u) t = (r, s') \<Longrightarrow> attempted does t r s'"
  shows "attempted does s r s'"
proof -
  obtain r1 s1 where c: "run_state (sessionUser env a) s = (r1, s1)" by fastforce
  note same = sessionUser_mutations [OF c]
  show ?thesis
  proof (cases r1)
    case (Inl e) with run c same show ?thesis by (auto simp: attempted_def)
  next
    case (Inr u)
    from sessionUser_user c Inr have "session_user env u" by blast
    with run c Inr k [of u s1] same show ?thesis by (auto simp: attempted_def)
  qed
qed

lemma attempted_mono:
  "attempted does s r s' \<Longrightarrow> (\<And>c. does c \<Longrightarrow> does' c) \<Longrightarrow> attempted does' s r s'"
  by (auto simp: attempted_def)

text \<open>The calls the changing operations stand for.\<close>

fun is_delete :: "string \<times> bool \<Rightarrow> call \<Rightarrow> bool" where
  "is_delete (volumeID, deleteDisk) (CallCnsDelete _ ids d) \<longleftrightarrow> ids = [volumeID] \<and> d = deleteDisk"
| "is_delete _ _ \<longleftrightarrow> False"

fun is_attach :: "moref \<times> string \<Rightarrow> call \<Rightarrow> bool" where
  "is_attach (vm, volumeID) (CallCnsAttach _ ps) \<longleftrightarrow> ps = [(volumeID, vm)]"
| "is_attach _ _ \<longleftrightarrow> False"

fun is_detach :: "moref \<times> string \<Rightarrow> call \<Rightarrow> bool" where
  "is_detach (vm, volumeID) (CallCnsDetach _ ps) \<longleftrightarrow> ps = [(volumeID, vm)]"
| "is_detach _ _ \<longleftrightarrow> False"

text \<open>A create or update call carries the requested specification with a user of the session.\<close>

fun is_create :: "env \<Rightarrow> create_spec \<Rightarrow> call \<Rightarrow> bool" where
  "is_create env spec (CallCnsCreate _ specs) \<longleftrightarrow>
     (\<exists>u. session_user env u \<and> specs = [create_Metadata_update (ContainerCluster_update (VSphereUser_update (\<lambda>_. u))) spec])"
| "is_create _ _ _ \<longleftrightarrow> False"

fun is_update :: "env \<Rightarrow> update_spec \<Rightarrow> call \<Rightarrow> bool" where
  "is_update env spec (CallCnsUpdate _ specs) \<longleftrightarrow>
     (\<exists>u. session_user env u \<and> specs = [update_Metadata_update (ContainerCluster_update (VSphereUser_update (\<lambda>_. u))) spec])"
| "is_update _ _ _ \<longleftrightarrow> False"

lemma emits_GetDiskAttachedToVM [emits_rules]:
  "P (CallVmDevices vm) \<Longrightarrow> emits P (GetDiskAttachedToVM env vm volumeID)"
  unfolding GetDiskAttachedToVM_def by (intro emits_rules)

lemma DeleteVolume_attempted:
  assumes "run_state (DeleteVolume env m vol del) s = (r, s')"
  shows "attempted (is_delete (vol, del)) s r s'"
proof -
  have "attempted (\<lambda>c. \<exists>cl. c = CallCnsDelete cl [vol] del) s r s'"
    using assms unfolding DeleteVolume_def
    by (rule withCNS_attempted) (erule cnsTask_then, auto intro!: emits_rules)
  then show ?thesis by (rule attempted_mono) auto
qed

lemma AttachVolume_attempted:
  assumes "run_state (AttachVolume env m vm vol) s = (r, s')"
  shows "attempted (is_attach (vm, vol)) s r s'"
proof -
  have "attempted (\<lambda>c. \<exists>cl. c = CallCnsAttach cl [(vol, vm)]) s r s'"
    using assms unfolding AttachVolume_def
    by (rule withCNS_attempted) (erule cnsTask_then, simp, (intro emits_rules | simp)+)
  then show ?thesis by (rule attempted_mono) auto
qed

lemma DetachVolume_attempted:
  assumes "run_state (DetachVolume env m vm vol) s = (r, s')"
  shows "attempted (is_detach (vm, vol)) s r s'"
proof -
  have "attempted (\<lambda>c. \<exists>cl. c = CallCnsDetach cl [(vol, vm)]) s r s'"
    using assms unfolding DetachVolume_def
    by (rule withCNS_attempted) (erule cnsTask_then, auto intro!: emits_rules)
  then show ?thesis by (rule attempted_mono) auto
qed

lemma is_create_spec:
  "session_user env u \<Longrightarrow>
   is_create env spec (CallCnsCreate cl [if u \<noteq> VSphereUser (ContainerCluster (create_Metadata spec))
      then create_Metadata_update (ContainerCluster_update (VSphereUser_update (\<lambda>_. u))) spec else spec])"
  by (cases spec) (auto intro!: exI [of _ u])

lemma is_update_spec:
  "session_user env u \<Longrightarrow>
   is_update env spec (CallCnsUpdate cl [if u \<noteq> VSphereUser (ContainerCluster (update_Metadata spec))
      then update_Metadata_update (ContainerCluster_update (VSphereUser_update (\<lambda>_. u))) spec else spec])"
  by (cases spec) (auto intro!: exI [of _ u])

lemma CreateVolume_attempted:
  assumes "run_state (CreateVolume env m spec) s = (r, s')"
  shows "attempted (is_create env spec) s r s'"
  using assms unfolding CreateVolume_def Let_def
proof (rule withCNS_attempted, elim sessionUser_then)
  fix a t u t'
  let ?call = "\<lambda>cl. CallCnsCreate cl [if u \<noteq> VSphereUser (ContainerCluster (create_Metadata spec))
    then create_Metadata_update (ContainerCluster_update (VSphereUser_update (\<lambda>_. u))) spec else spec]"
  assume u: "session_user env u"
    and run: "run_state (bindE (cnsTask env a ?call) (\<lambda>taskResult. State_Monad.return
          (map_sum (\<lambda>e. e) res_VolumeId (checkFault taskResult)))) t' = (r, s')"
  have "attempted (\<lambda>c. \<exists>cl. c = ?call cl) t' r s'"
    by (rule cnsTask_then [OF run]) (auto intro!: emits_rules)
  then show "attempted (is_create env spec) t' r s'"
    by (rule attempted_mono) (use is_create_spec [OF u] in blast)
qed

lemma UpdateVolumeMetadata_attempted:
  assumes "run_state (UpdateVolumeMetadata env m spec) s = (r, s')"
  shows "attempted (is_update env spec) s r s'"
proof -
  have eta: "\<lparr>update_VolumeId = update_VolumeId x, update_Metadata = update_Metadata x\<rparr> = x" for x :: update_spec
    by (cases x) simp
  show ?thesis
    using assms unfolding UpdateVolumeMetadata_def Let_def eta
  proof (rule withCNS_attempted, elim sessionUser_then)
    fix a t u t'
    let ?call = "\<lambda>cl. CallCnsUpdate cl [if u \<noteq> VSphereUser (ContainerCluster (update_Metadata spec))
      then update_Metadata_update (ContainerCluster_update (VSphereUser_update (\<lambda>_. u))) spec else spec]"
    assume u: "session_user env u"
      and run: "run_state (bindE (cnsTask env a ?call) (\<lambda>taskResult. State_Monad.return
            (map_sum (\<lambda>e. e) (\<lambda>_. ()) (checkFault taskResult)))) t' = (r, s')"
    have "attempted (\<lambda>c. \<exists>cl. c = ?call cl) t' r s'"
      by (rule cnsTask_then [OF run]) (auto intro!: emits_rules)
    then show "attempted (is_update env spec) t' r s'"
      by (rule attempted_mono) (use is_update_spec [OF u] in blast)
  qed
qed

section \<open>The contract of a CNS operation\<close>

text \<open>
  What the callers of the manager rely on: a successful operation makes exactly the requested change,
  a failed one makes it or nothing. Loops over such an operation change CNS for a subsequence of
  their inputs, in order.
\<close>

locale cns_operation =
  fixes changes :: "'s \<Rightarrow> 'c list"
    and operation :: "'x \<Rightarrow> ('s, 'e + 'r) state"
    and does :: "'x \<Rightarrow> 'c \<Rightarrow> bool"
  assumes success: "run_state (operation x) s = (Inr r, s') \<Longrightarrow>
      \<exists>c. does x c \<and> changes s' = changes s @ [c]"
    and failure: "run_state (operation x) s = (Inl e, s') \<Longrightarrow>
      changes s' = changes s \<or> (\<exists>c. does x c \<and> changes s' = changes s @ [c])"
begin

lemma at_most_one:
  "run_state (operation x) s = (r, s') \<Longrightarrow>
   \<exists>cs. changes s' = changes s @ cs \<and> length cs \<le> 1 \<and> list_all (does x) cs"
  by (cases r) (fastforce dest: success failure)+

lemma loop:
  "run_state (for_each operation xs) s = (u, s') \<Longrightarrow>
   \<exists>ys cs. subseq ys xs \<and> list_all2 does ys cs \<and> changes s' = changes s @ cs"
proof (induction xs arbitrary: s)
  case Nil then show ?case by (intro exI [of _ "[]"]) simp
next
  case (Cons x xs)
  obtain r s1 where first: "run_state (operation x) s = (r, s1)" by fastforce
  with Cons.prems have "run_state (for_each operation xs) s1 = (u, s')" by simp
  from Cons.IH [OF this] obtain ys cs where
    rest: "subseq ys xs" "list_all2 does ys cs" "changes s' = changes s1 @ cs" by blast
  from first have "changes s1 = changes s \<or> (\<exists>c. does x c \<and> changes s1 = changes s @ [c])"
    by (cases r) (auto dest: success failure)
  then show ?case
  proof
    assume "changes s1 = changes s"
    with rest show ?thesis by (intro exI [of _ ys] exI [of _ cs]) auto
  next
    assume "\<exists>c. does x c \<and> changes s1 = changes s @ [c]"
    then obtain c where "does x c" "changes s1 = changes s @ [c]" by blast
    with rest show ?thesis by (intro exI [of _ "x # ys"] exI [of _ "c # cs"]) auto
  qed
qed

end

lemma attempted_laws:
  assumes "\<And>x s r s'. run_state (operation x) s = (r, s') \<Longrightarrow> attempted (does x) s r s'"
  shows "cns_operation mutations operation does"
  by unfold_locales (use assms in \<open>fastforce simp: attempted_def\<close>)+

interpretation create_op: cns_operation mutations "CreateVolume env m" "is_create env"
  by (rule attempted_laws) (rule CreateVolume_attempted)

interpretation delete_op: cns_operation mutations "\<lambda>(vol, del). DeleteVolume env m vol del" is_delete
  by (rule attempted_laws) (auto intro: DeleteVolume_attempted)

interpretation update_op: cns_operation mutations "UpdateVolumeMetadata env m" "is_update env"
  by (rule attempted_laws) (rule UpdateVolumeMetadata_attempted)

interpretation attach_op: cns_operation mutations "\<lambda>(vm, vol). AttachVolume env m vm vol" is_attach
  by (rule attempted_laws) (auto intro: AttachVolume_attempted)

interpretation detach_op: cns_operation mutations "\<lambda>(vm, vol). DetachVolume env m vm vol" is_detach
  by (rule attempted_laws) (auto intro: DetachVolume_attempted)

section \<open>Other facts the properties rest on\<close>

lemma emits_cnsClient [emits_rules]: "emits P (cnsClient a)"
  unfolding cnsClient_def by (intro emits_rules)

lemma emits_withCNS [emits_rules]:
  "(\<And>c. session_call c \<Longrightarrow> P c) \<Longrightarrow> (\<And>a. m = Some a \<Longrightarrow> emits P (k a)) \<Longrightarrow> emits P (withCNS env m k)"
  unfolding withCNS_def validateManager_def
  by (cases m) (auto intro!: emits_rules)

lemma emits_QueryVolume [emits_rules]:
  "(\<And>c. session_call c \<Longrightarrow> P c) \<Longrightarrow> (\<And>cl. P (CallCnsQuery cl f)) \<Longrightarrow> emits P (QueryVolume env m f)"
  unfolding QueryVolume_def by (intro emits_rules | simp)+

lemma emits_QueryAllVolume [emits_rules]:
  "(\<And>c. session_call c \<Longrightarrow> P c) \<Longrightarrow> (\<And>cl. P (CallCnsQueryAll cl f)) \<Longrightarrow> emits P (QueryAllVolume env m f)"
  unfolding QueryAllVolume_def by (intro emits_rules | simp)+

lemma findDisk_found:
  "findDisk ds vol \<noteq> [] \<Longrightarrow> VirtualDisk (Some vol) (FlatVer2Backing (findDisk ds vol)) \<in> set ds"
  by (induction ds vol rule: findDisk.induct)
     (auto split: vm_device.splits option.splits disk_backing.splits if_splits)

lemma cnsTask_result:
  "run_state (cnsTask env a c) s = (Inr res, s') \<Longrightarrow> \<exists>h. ans_TaskResult env h = Inr (Some res)"
  by (auto simp: cnsTask_def split: prod.splits sum.splits option.splits)

lemma withCNS_Inr:
  assumes "run_state (withCNS env m k) s = (Inr x, s')"
  obtains a t where "m = Some a" and "run_state (k a) t = (Inr x, s')"
  using assms by (auto simp: withCNS_def validateManager_def split: option.splits prod.splits sum.splits)

lemma emits_cnsTask [emits_rules]:
  "(\<And>cl. P (cnsCall cl)) \<Longrightarrow> (\<And>t. P (CallTaskInfo t)) \<Longrightarrow> (\<And>t. P (CallTaskResult t)) \<Longrightarrow>
   emits P (cnsTask env a cnsCall)"
  unfolding cnsTask_def by (intro emits_rules)

text \<open>The changes of one operation, as the calls it may add to the trace.\<close>

definition changesOnly :: "(call \<Rightarrow> bool) \<Rightarrow> call \<Rightarrow> bool" where
  "changesOnly does c \<longleftrightarrow> (cns_mutation c \<longrightarrow> does c)"

lemma changesOnly_simps [simp]:
  "\<not> cns_mutation c \<Longrightarrow> changesOnly does c" "does c \<Longrightarrow> changesOnly does c"
  "session_call c \<Longrightarrow> changesOnly does c"
  by (auto simp: changesOnly_def session_call_no_mutation)

lemma changesOnly_mono: "changesOnly does c \<Longrightarrow> (does c \<Longrightarrow> does' c) \<Longrightarrow> changesOnly does' c"
  by (auto simp: changesOnly_def)

text \<open>The calls a run adds.\<close>

definition new_calls :: "'z driver_scheme \<Rightarrow> 'z driver_scheme \<Rightarrow> call set" where
  "new_calls s s' = set (drop (length (trace s)) (trace s'))"

lemma emits_new_calls:
  assumes "emits P m" and "run_state m s = (r, s')" and "c \<in> new_calls s s'"
  shows "P c"
proof -
  from assms(1,2) obtain ks where "trace s' = trace s @ ks" "list_all P ks" by (rule emitsE)
  with assms(3) show ?thesis by (simp add: new_calls_def list_all_iff)
qed

lemma new_calls_trans:
  assumes "trace s1 = trace s @ ks" and "trace s' = trace s1 @ ks'"
  shows "new_calls s s' = new_calls s s1 \<union> new_calls s1 s'"
  using assms by (simp add: new_calls_def)

lemma mutations_new_calls:
  assumes "trace s' = trace s @ ks" and "mutations s' = mutations s @ [c]"
  shows "c \<in> new_calls s s'"
proof -
  from assms have "filter cns_mutation ks = [c]" by (simp add: mutations_def)
  then have "c \<in> set ks" by (metis filter_is_subset list.set_intros(1) subsetD)
  with assms(1) show ?thesis by (simp add: new_calls_def)
qed

lemma emits_attempted:
  assumes law: "\<And>s r s'. run_state m s = (r, s') \<Longrightarrow> attempted does s r s'"
    and calls: "emits (\<lambda>_. True) m" and P: "\<And>c. changesOnly does c \<Longrightarrow> P c"
  shows "emits P m"
proof (rule emitsI)
  fix s r s'
  assume run: "run_state m s = (r, s')"
  with calls obtain ks where ks: "trace s' = trace s @ ks" by (rule emitsE)
  with law [OF run] have "list_all does (filter cns_mutation ks)"
    by (auto simp: mutations_def attempted_def)
  then have "list_all P ks" using P by (auto simp: list_all_iff changesOnly_def)
  with ks show "\<exists>ks. trace s' = trace s @ ks \<and> list_all P ks" by auto
qed

lemma emits_True_manager:
  "emits (\<lambda>_. True) (CreateVolume env m spec)" "emits (\<lambda>_. True) (UpdateVolumeMetadata env m uspec)"
  "emits (\<lambda>_. True) (DeleteVolume env m vol del)" "emits (\<lambda>_. True) (AttachVolume env m vm vol)"
  "emits (\<lambda>_. True) (DetachVolume env m vm vol)"
  unfolding manager_defs Let_def by (intro emits_rules | simp)+

lemma emits_manager [emits_rules]:
  "(\<And>c. changesOnly (is_create env spec) c \<Longrightarrow> P c) \<Longrightarrow> emits P (CreateVolume env m spec)"
  "(\<And>c. changesOnly (is_update env uspec) c \<Longrightarrow> P c) \<Longrightarrow> emits P (UpdateVolumeMetadata env m uspec)"
  "(\<And>c. changesOnly (is_delete (vol, del)) c \<Longrightarrow> P c) \<Longrightarrow> emits P (DeleteVolume env m vol del)"
  "(\<And>c. changesOnly (is_attach (vm, vol)) c \<Longrightarrow> P c) \<Longrightarrow> emits P (AttachVolume env m vm vol)"
  "(\<And>c. changesOnly (is_detach (vm, vol)) c \<Longrightarrow> P c) \<Longrightarrow> emits P (DetachVolume env m vm vol)"
  by (blast intro: emits_attempted CreateVolume_attempted UpdateVolumeMetadata_attempted
      DeleteVolume_attempted AttachVolume_attempted DetachVolume_attempted emits_True_manager)+

lemma steady_withCNS: "steady I \<Longrightarrow> (\<And>a. keeps I (k a)) \<Longrightarrow> keeps I (withCNS env m k)"
  unfolding withCNS_def by (intro keeps_return keeps_bindE keeps_case_sum steady_ConnectCNS)

lemma steady_sessionUser: "steady I \<Longrightarrow> keeps I (sessionUser env a)"
  unfolding sessionUser_def
  by (intro keeps_return keeps_bindE keeps_case_option keeps_load_vc steady_perform)

lemma steady_cnsTask: "steady I \<Longrightarrow> keeps I (cnsTask env a c)"
  unfolding cnsTask_def cnsClient_def
  by (intro keeps_return keeps_bindE keeps_load_vc steady_perform)

lemma steady_manager:
  assumes "steady I"
  shows "keeps I (CreateVolume env m spec)" "keeps I (UpdateVolumeMetadata env m uspec)"
    "keeps I (DeleteVolume env m vol del)" "keeps I (QueryVolume env m f)" "keeps I (QueryAllVolume env m f)"
  using assms unfolding manager_defs Let_def cnsClient_def
  by (intro steady_withCNS keeps_bindE steady_sessionUser steady_cnsTask keeps_return keeps_load_vc
      steady_perform; assumption)+

section \<open>Properties\<close>

text \<open>
  C20. Every changing operation of the volume manager changes CNS by exactly the requested call, made
  once, or fails without changing anything; creations and updates carry the user of the vCenter
  session. The queries change nothing.
\<close>

theorem manager_changes:
  "(case run_state (CreateVolume env m spec) s of (r, s') \<Rightarrow> attempted (is_create env spec) s r s') \<and>
   (case run_state (UpdateVolumeMetadata env m uspec) s of (r, s') \<Rightarrow> attempted (is_update env uspec) s r s') \<and>
   (case run_state (DeleteVolume env m vol del) s of (r, s') \<Rightarrow> attempted (is_delete (vol, del)) s r s') \<and>
   (case run_state (AttachVolume env m vm vol) s of (r, s') \<Rightarrow> attempted (is_attach (vm, vol)) s r s') \<and>
   (case run_state (DetachVolume env m vm vol) s of (r, s') \<Rightarrow> attempted (is_detach (vm, vol)) s r s') \<and>
   mutations (snd (run_state (QueryVolume env m f) s)) = mutations s \<and>
   mutations (snd (run_state (QueryAllVolume env m f) s)) = mutations s"
proof -
  have "emits (\<lambda>c. \<not> cns_mutation c) (QueryVolume env m f)"
    by (intro emits_rules; simp add: session_call_no_mutation)
  note query = emits_mutations [OF this prod.collapse [symmetric]]
  have "emits (\<lambda>c. \<not> cns_mutation c) (QueryAllVolume env m f)"
    by (intro emits_rules; simp add: session_call_no_mutation)
  note all = emits_mutations [OF this prod.collapse [symmetric]]
  show ?thesis
    using query all
    by (auto split: prod.splits intro: CreateVolume_attempted UpdateVolumeMetadata_attempted
        DeleteVolume_attempted AttachVolume_attempted DetachVolume_attempted)
qed

text \<open>
  A manager without a virtual center refuses every operation with the same error, and calls nothing.
\<close>

lemma manager_without_vc:
  "run_state (CreateVolume env None spec) s = (Inl (Errorf ''Virtual Center connection not established''), s) \<and>
   run_state (UpdateVolumeMetadata env None uspec) s = (Inl (Errorf ''Virtual Center connection not established''), s) \<and>
   run_state (DeleteVolume env None vol del) s = (Inl (Errorf ''Virtual Center connection not established''), s) \<and>
   run_state (AttachVolume env None vm vol) s = (Inl (Errorf ''Virtual Center connection not established''), s) \<and>
   run_state (DetachVolume env None vm vol) s = (Inl (Errorf ''Virtual Center connection not established''), s) \<and>
   run_state (QueryVolume env None f) s = (Inl (Errorf ''Virtual Center connection not established''), s) \<and>
   run_state (QueryAllVolume env None f) s = (Inl (Errorf ''Virtual Center connection not established''), s)"
  by (simp add: manager_defs withCNS_def validateManager_def)

text \<open>
  C31. The disk UUID \<open>AttachVolume\<close> returns comes from CNS: it is the one in the result of the attach task,
  or, when the task failed because the volume is in use, the non-empty UUID of a disk of this
  very VM that is backed by the volume, so attaching twice gives a disk again and attaching a volume
  that another VM uses is an error.
\<close>

theorem AttachVolume_result:
  assumes "run_state (AttachVolume env m vm vol) s = (Inr u, s')"
  shows "(\<exists>h v. ans_TaskResult env h = Inr (Some (AttachResult None v u))) \<or>
         (\<exists>h res h' ds. ans_TaskResult env h = Inr (Some res) \<and>
            res_Fault res = Some CNSVolumeResourceInUseFaultMessage \<and>
            ans_VmDevices env vm h' = Inr ds \<and> VirtualDisk (Some vol) (FlatVer2Backing u) \<in> set ds \<and> u \<noteq> [])"
proof -
  from assms obtain a t res t' where
      task: "run_state (cnsTask env a (\<lambda>cl. CallCnsAttach cl [(vol, vm)])) t = (Inr res, t')"
    and rest: "run_state (case res_Fault res of
       Some localizedMessage \<Rightarrow>
         (if localizedMessage = CNSVolumeResourceInUseFaultMessage
          then bindE (GetDiskAttachedToVM env vm vol) (\<lambda>diskUUID.
                 if diskUUID \<noteq> [] then State_Monad.return (Inr diskUUID)
                 else State_Monad.return (Inl (LocalizedFault localizedMessage)))
          else State_Monad.return (Inl (LocalizedFault localizedMessage)))
     | None \<Rightarrow> State_Monad.return (case res of
         AttachResult _ _ diskUUID \<Rightarrow> Inr diskUUID
       | OperationResult _ _ \<Rightarrow> Inl (Panic ''interface conversion''))) t' = (Inr u, s')"
    unfolding AttachVolume_def by (elim withCNS_Inr bindE_Inr)
  from cnsTask_result [OF task] obtain h where h: "ans_TaskResult env h = Inr (Some res)" by blast
  show ?thesis
  proof (cases "res_Fault res")
    case None with rest h show ?thesis by (cases res) auto
  next
    case (Some msg)
    with rest obtain ds where "msg = CNSVolumeResourceInUseFaultMessage"
      and "ans_VmDevices env vm (trace t') = Inr ds" and "u = findDisk ds vol" "u \<noteq> []"
      by (auto simp: GetDiskAttachedToVM_def split: if_splits sum.splits)
    with h Some findDisk_found [of ds vol] show ?thesis by blast
  qed
qed

text \<open>
  The manager is made once per process, for the virtual center of the first caller: a later
  \<open>GetManager\<close> returns that manager, whatever virtual center it is given.
\<close>

lemma GetManager_singleton:
  "case run_state (GetManager vc) s of (m, s') \<Rightarrow>
     m \<in> {vc, the (managerInstance s)} \<and> run_state (GetManager vc') s' = (m, s')"
  by (auto simp: GetManager_def split: option.splits)

section \<open>Witnesses\<close>

text \<open>The volume is in use by the VM itself: the attach task fails, the disk is found.\<close>

definition sample_inuse_env :: env where
  "sample_inuse_env = sample_env\<lparr>
     ans_TaskResult := (\<lambda>_. Inr (Some (AttachResult (Some CNSVolumeResourceInUseFaultMessage) ''vol-1'' []))),
     ans_VmDevices := (\<lambda>_ _. Inr [OtherDevice ''nic'', VirtualDisk (Some ''vol-1'') (FlatVer2Backing ''6000C29'')])\<rparr>"

theorem AttachVolume_result_witness:
  "fst (run_state (AttachVolume sample_inuse_env (Some 0) ''vm-7'' ''vol-1'') sample_driver) = Inr ''6000C29'' \<and>
   (\<exists>h' ds. ans_VmDevices sample_inuse_env ''vm-7'' h' = Inr ds \<and>
      VirtualDisk (Some ''vol-1'') (FlatVer2Backing ''6000C29'') \<in> set ds)"
proof -
  have r: "fst (run_state (AttachVolume sample_inuse_env (Some 0) ''vm-7'' ''vol-1'') sample_driver) = Inr ''6000C29''"
    by (simp add: AttachVolume_def withCNS_def validateManager_def cnsTask_def cnsClient_def
        GetDiskAttachedToVM_def vc_program_defs sample_inuse_env_def sample_simps)
  then obtain s' where "run_state (AttachVolume sample_inuse_env (Some 0) ''vm-7'' ''vol-1'') sample_driver
      = (Inr ''6000C29'', s')"
    by (metis prod.collapse)
  from AttachVolume_result [OF this] r show ?thesis
    by (auto simp: sample_inuse_env_def)
qed

end
