(* ===== verification/Connection_Safety.thy ===== *)
theory Connection_Safety
  imports Program_Logic Volume_Manager
begin

text \<open>
  Where the connection to vCenter and the volume manager can panic. The interface \<open>live_vc\<close> is an invariant of the
  process that the connection cannot break and under which the virtual center at an address exists; under any such
  invariant the connection and the operations of the volume manager panic only right after vCenter
  answered that there is no session: \<open>newClient\<close> and the readers of the session's user dereference the answer.
\<close>

section \<open>An outside that returns\<close>

definition file_returns :: "file_answer \<Rightarrow> bool" where
  "file_returns f = (case f of FileMissing \<Rightarrow> True | OpenFails e \<Rightarrow> \<not> panics e
     | Opened r \<Rightarrow> (case r of Inl e \<Rightarrow> \<not> panics e | Inr _ \<Rightarrow> True))"

definition vsphere_returns :: "env \<Rightarrow> bool" where
  "vsphere_returns env \<longleftrightarrow>
     returns (ans_NewVimClient env) \<and> (\<forall>user. returns (ans_X509KeyPair env user)) \<and>
     returns (ans_StsNewClient env) \<and> returns (ans_StsIssue env) \<and> returns (ans_Login env) \<and>
     returns (ans_UserSession env) \<and> returns (ans_NewPbmClient env) \<and> returns (ans_NewCnsClient env) \<and>
     returns (ans_CnsTask env) \<and> (\<forall>f. returns (ans_CnsQuery env f)) \<and> (\<forall>f. returns (ans_CnsQueryAll env f)) \<and>
     returns (ans_TaskInfo env) \<and> returns (ans_TaskResult env) \<and>
     (\<forall>path h. file_returns (host_Files env path h))"

text \<open>vCenter has just reported that there is no session.\<close>

definition session_lost :: "env \<Rightarrow> 'z driver_scheme \<Rightarrow> bool" where
  "session_lost env s \<longleftrightarrow>
     (\<exists>tr cl. trace s = tr @ [CallUserSession cl] \<and> ans_UserSession env tr = Inr None)"

lemma validateVC_no_panic: "validateVC cfg server vc = (Some e, vc') \<Longrightarrow> \<not> panics e"
  by (auto simp: validateVC_def Let_def split: if_splits)

lemma validateVCs_no_panic: "validateVCs cfg entries = (Some e, entries') \<Longrightarrow> \<not> panics e"
proof (induction cfg entries arbitrary: entries' rule: validateVCs.induct)
  case (2 cfg server vc rest)
  then show ?case
    by (cases "validateVC cfg server vc"; cases "fst (validateVC cfg server vc)"; cases "validateVCs cfg rest")
       (auto dest: validateVC_no_panic)
qed simp

lemma fromEnvOrError_no_panic: "fromEnvOrError environ cfg = Inl e \<Longrightarrow> \<not> panics e"
  by (auto simp: fromEnvOrError_def validateConfig_def Let_def
      split: prod.splits option.splits if_splits dest: validateVCs_no_panic)

lemma GetCnsconfig_no_panic:
  "GetCnsconfig environ files path = Inl e \<Longrightarrow> file_returns (files path) \<Longrightarrow> \<not> panics e"
  by (auto simp: GetCnsconfig_def ReadConfig_def file_returns_def fromEnvOrError_no_panic
      split: file_answer.splits sum.splits)

lemma GetVirtualCenterConfig_no_panic: "GetVirtualCenterConfig cfg = Inl e \<Longrightarrow> \<not> panics e"
  by (cases "VirtualCenter cfg")
     (auto simp: GetVirtualCenterConfig_def GetVcenterIPs_def Let_def split: option.splits)

section \<open>The interface: an invariant under which a virtual center exists\<close>

locale live_vc =
  fixes I :: "'z driver_scheme \<Rightarrow> bool" and a :: nat
  assumes trace_irrelevant: "I (s\<lparr>trace := tr\<rparr>) = I s"
    and store_keeps: "(\<And>v. conf_Host (vc_Config (f v)) = conf_Host (vc_Config v)) \<Longrightarrow> I s \<Longrightarrow>
      I (s\<lparr>vcs := (vcs s)(a := map_option f (vcs s a))\<rparr>)"
    and live: "I s \<Longrightarrow> \<exists>vc. vcs s a = Some vc"
begin

lemma call: "returns answer \<Longrightarrow> sound I lost True (perform c answer)"
  by (rule sound_perform) (simp_all add: trace_irrelevant)

lemma keeps_call: "keeps I (perform c answer)"
  by (rule keepsI) (auto simp: trace_irrelevant)

lemma load: "sound I lost plain (load_vc a)"
  by (rule soundI) (use live in \<open>fastforce simp: load_vc_def\<close>)+

lemma store:
  "(\<And>v. conf_Host (vc_Config (f v)) = conf_Host (vc_Config v)) \<Longrightarrow> keeps I (store_vc a f)"
  unfolding store_vc_def by (rule keeps_assign) (rule store_keeps)

text \<open>The answer to the question for the session is dereferenced when there was no error.\<close>

lemma session_check:
  assumes "sound I (session_lost env) plain m"
  shows "sound I (session_lost env) plain (State_Monad.bind (perform (CallUserSession cl) (ans_UserSession env))
    (\<lambda>session. if session = Inr None then State_Monad.return (Inl (Panic p)) else m))" (is "sound _ _ _ ?p")
proof -
  have step: "run_state ?p s = (if ans_UserSession env (trace s) = Inr None
      then (Inl (Panic p), s\<lparr>trace := trace s @ [CallUserSession cl]\<rparr>)
      else run_state m (s\<lparr>trace := trace s @ [CallUserSession cl]\<rparr>))" for s
    by simp
  show ?thesis
  proof (rule soundI)
    fix s x s' assume "I s" and "run_state ?p s = (Inr x, s')"
    with step [of s] show "I s'" by (auto simp: trace_irrelevant split: if_splits dest!: sound_Inr [OF assms, rotated])
  next
    fix s e s' assume I: "I s" and run: "run_state ?p s = (Inl e, s')"
    show "I s' \<and> (if panics e then session_lost env s' else plain)"
    proof (cases "ans_UserSession env (trace s) = Inr None")
      case True with run I step [of s] show ?thesis by (auto simp: trace_irrelevant session_lost_def)
    next
      case False
      with run step [of s] have "run_state m (s\<lparr>trace := trace s @ [CallUserSession cl]\<rparr>) = (Inl e, s')" by simp
      from sound_Inl [OF assms _ this] I show ?thesis by (simp add: trace_irrelevant)
    qed
  qed
qed

lemma connect_sound:
  assumes "vsphere_returns env"
  shows "sound I (session_lost env) True (connect env a)"
proof -
  have x509: "ans_X509KeyPair env u p = Inl e \<Longrightarrow> \<not> panics e" for u p e
    using assms by (auto simp: vsphere_returns_def returns_def)
  from assms have "returns (ans_NewVimClient env)" "returns (ans_StsNewClient env)" "returns (ans_StsIssue env)"
    "returns (ans_Login env)" "returns (ans_UserSession env)" "returns (ans_NewPbmClient env)"
    "returns (ans_NewCnsClient env)" by (simp_all add: vsphere_returns_def)
  note calls = this [THEN call]
  have login: "sound I lost True (login env conf cl)" for lost conf cl
    unfolding login_def by (intro sound_rules calls) (auto intro!: sound_return dest: x509)
  have new: "sound I (session_lost env) True (newClient env a)"
    unfolding newClient_def
    by (intro session_check sound_rules calls load login keeps_if keeps_return keeps_call store) simp_all
  have client: "sound I (session_lost env) True (resetClient env a)"
    unfolding resetClient_def
    by (intro sound_handle_plain new sound_bind store sound_Inr_return; auto intro: sound_return)
  have reset: "sound I lost True (resetPbmClient env a cl)" "sound I lost True (resetCnsClient env a cl)" for lost cl
    unfolding resetPbmClient_def resetCnsClient_def
    by (intro sound_result calls sound_bind store sound_Inr_return; auto intro: sound_return)+
  show ?thesis
    unfolding connect_def by (intro sound_rules calls load client reset)
qed

lemma Connect_sound:
  assumes "vsphere_returns env"
  shows "sound I (session_lost env) True (Connect env a)"
proof -
  let ?lost = "session_lost env"
  have file_ok: "file_returns (host_Files env path h)" for path h
    using assms by (simp add: vsphere_returns_def)
  have reread: "sound I ?lost True (State_Monad.bind
      (perform (CallReadConfig path) (host_Files env path)) k)"
    if "\<And>f. file_returns f \<Longrightarrow> sound I ?lost True (k f)" for path k
    by (rule sound_bind_fact [where F = file_returns]) (use that file_ok in \<open>auto simp: trace_irrelevant\<close>)
  have passed: "panics err \<Longrightarrow> \<not> IsInvalidCredentialsError err" for err
    by (cases err) (simp_all add: IsInvalidCredentialsError_def)
  show ?thesis
    unfolding Connect_def UpdateCredentials_def
    by (rule sound_result_panic [OF connect_sound [OF assms]])
       (auto simp: passed intro!: sound_if reread sound_case_sum sound_return sound_bind store connect_sound [OF assms]
        dest: GetCnsconfig_no_panic GetVirtualCenterConfig_no_panic)
qed

text \<open>A successful \<open>ConnectCNS\<close> leaves a vim client and a CNS client.\<close>

lemma ConnectCNS_ready:
  assumes "vsphere_returns env"
  shows "valid I (ConnectCNS env a)
    (\<lambda>_ s. I s \<and> (\<exists>vc. vcs s a = Some vc \<and> vc_Client vc \<noteq> None \<and> vc_CnsClient vc \<noteq> None)) (fails I (session_lost env) True)"
proof -
  have cns: "returns (ans_NewCnsClient env)" using assms by (simp add: vsphere_returns_def)
  have reset: "sound I (session_lost env) True (resetCnsClient env a cl)" for cl
    unfolding resetCnsClient_def
    by (intro sound_result call cns sound_bind store sound_Inr_return; auto intro: sound_return)
  show ?thesis
  proof (rule validI)
    fix s u s' assume I: "I s" and run: "run_state (ConnectCNS env a) s = (Inr u, s')"
    then obtain s1 where con: "run_state (Connect env a) s = (Inr (), s1)"
      by (auto simp: ConnectCNS_def split: prod.splits sum.splits)
    then obtain vc cl where vc: "vcs s1 a = Some vc" "vc_Client vc = Some cl" using Connect_client by blast
    from run con vc consider "vc_CnsClient vc \<noteq> None" "s' = s1" | "run_state (resetCnsClient env a cl) s1 = (Inr u, s')"
      by (auto simp: ConnectCNS_def load_vc_def split: if_splits)
    note outcome = this
    have "I s1" by (rule sound_Inr [OF Connect_sound [OF assms] I con])
    then have "I s'" using outcome by cases (auto dest: sound_Inr [OF reset])
    moreover have "\<exists>vc'. vcs s' a = Some vc' \<and> vc_Client vc' \<noteq> None \<and> vc_CnsClient vc' \<noteq> None"
      using outcome
    proof cases
      case 2 from resetCnsClient_step [OF this vc(1)] vc(2) show ?thesis by (auto simp: config_step_def)
    qed (use vc in auto)
    ultimately show "I s' \<and> (\<exists>vc'. vcs s' a = Some vc' \<and> vc_Client vc' \<noteq> None \<and> vc_CnsClient vc' \<noteq> None)"
      by blast
  next
    fix s e s' assume I: "I s" and run: "run_state (ConnectCNS env a) s = (Inl e, s')"
    obtain r s1 where con: "run_state (Connect env a) s = (r, s1)" by fastforce
    show "fails I (session_lost env) True e s'"
    proof (cases r)
      case (Inl e1)
      with run con have "run_state (Connect env a) s = (Inl e, s')" by (simp add: ConnectCNS_def)
      then show ?thesis unfolding fails_def by (rule sound_Inl [OF Connect_sound [OF assms] I])
    next
      case (Inr u)
      then have con: "run_state (Connect env a) s = (Inr (), s1)" using con by simp
      then obtain vc cl where vc: "vcs s1 a = Some vc" "vc_Client vc = Some cl" using Connect_client by blast
      have "I s1" by (rule sound_Inr [OF Connect_sound [OF assms] I con])
      moreover from run con vc have "run_state (resetCnsClient env a cl) s1 = (Inl e, s')"
        by (auto simp: ConnectCNS_def load_vc_def split: if_splits)
      ultimately show ?thesis unfolding fails_def by (rule sound_Inl [OF reset])
    qed
  qed
qed

end

section \<open>The volume manager\<close>

definition ready :: "nat \<Rightarrow> 'z driver_scheme \<Rightarrow> bool" where
  "ready a s \<longleftrightarrow> (\<exists>vc. vcs s a = Some vc \<and> vc_Client vc \<noteq> None \<and> vc_CnsClient vc \<noteq> None)"

text \<open>With both clients at hand the calls of the volume manager do not panic, but for the missing session.\<close>

locale ready_vc =
  fixes J :: "'z driver_scheme \<Rightarrow> bool" and a :: nat
  assumes trace_irrelevant: "J (s\<lparr>trace := tr\<rparr>) = J s" and is_ready: "J s \<Longrightarrow> ready a s"
begin

lemma call: "returns answer \<Longrightarrow> sound J lost True (perform c answer)"
  by (rule sound_perform) (simp_all add: trace_irrelevant)

lemma cnsClient_sound: "sound J lost plain (cnsClient a)"
  by (rule soundI) (use is_ready in \<open>fastforce simp: cnsClient_def load_vc_def ready_def\<close>)+

lemma sessionUser_sound:
  assumes "vsphere_returns env"
  shows "sound J (session_lost env) True (sessionUser env a)"
proof -
  have user: "ans_UserSession env h = Inl e \<Longrightarrow> \<not> panics e" for h e
    using assms by (auto simp: vsphere_returns_def returns_def)
  show ?thesis
    by (rule soundI)
       (use is_ready user in \<open>fastforce simp: sessionUser_def load_vc_def ready_def trace_irrelevant session_lost_def
          split: sum.splits option.splits\<close>)+
qed

lemma cnsTask_sound:
  assumes "vsphere_returns env"
  shows "sound J lost True (cnsTask env a cnsCall)"
  using assms unfolding cnsTask_def vsphere_returns_def
  by (intro sound_rules cnsClient_sound call sound_return) (auto split: option.splits)

end

sublocale live_vc \<subseteq> connected: ready_vc "\<lambda>s. I s \<and> ready a s" a
  by unfold_locales (auto simp: trace_irrelevant ready_def)

context live_vc
begin

lemma withCNS_sound:
  assumes "vsphere_returns env" and "sound (\<lambda>s. I s \<and> ready a s) (session_lost env) True (k a)"
  shows "sound I (session_lost env) True (withCNS env (Some a) k)"
  unfolding withCNS_def validateManager_def option.case sum.case
  using ConnectCNS_ready [OF assms(1)] assms(2)
  by (intro valid_then_sound [where J = "\<lambda>s. I s \<and> ready a s"]) (simp_all add: ready_def)

lemma QueryVolume_sound:
  assumes "vsphere_returns env"
  shows "sound I (session_lost env) True (QueryVolume env (Some a) f)" and "sound I (session_lost env) True (QueryAllVolume env (Some a) f)"
proof -
  from assms have calls: "returns (ans_CnsQuery env f)" "returns (ans_CnsQueryAll env f)"
    by (auto simp: vsphere_returns_def)
  show "sound I (session_lost env) True (QueryVolume env (Some a) f)"
    unfolding QueryVolume_def
    by (intro withCNS_sound [OF assms] sound_bindE connected.cnsClient_sound connected.call calls)
  show "sound I (session_lost env) True (QueryAllVolume env (Some a) f)"
    unfolding QueryAllVolume_def
    by (intro withCNS_sound [OF assms] sound_bindE connected.cnsClient_sound connected.call calls)
qed

lemma checkFault_no_panic: "map_sum (\<lambda>e. e) f (checkFault res) = Inl e \<Longrightarrow> \<not> panics e"
  by (auto simp: checkFault_def split: option.splits)

lemma DeleteVolume_sound:
  assumes "vsphere_returns env"
  shows "sound I (session_lost env) True (DeleteVolume env (Some a) vol del)"
  unfolding DeleteVolume_def
  by (intro withCNS_sound [OF assms] sound_bindE connected.cnsTask_sound [OF assms])
     (auto intro!: sound_return dest: checkFault_no_panic)

lemma CreateVolume_sound:
  assumes "vsphere_returns env"
  shows "sound I (session_lost env) True (CreateVolume env (Some a) spec)"
  unfolding CreateVolume_def Let_def
  by (intro withCNS_sound [OF assms] sound_bindE connected.sessionUser_sound [OF assms] connected.cnsTask_sound [OF assms])
     (auto intro!: sound_return dest: checkFault_no_panic)

lemma UpdateVolumeMetadata_sound:
  assumes "vsphere_returns env"
  shows "sound I (session_lost env) True (UpdateVolumeMetadata env (Some a) uspec)"
  unfolding UpdateVolumeMetadata_def Let_def
  by (intro withCNS_sound [OF assms] sound_bindE connected.sessionUser_sound [OF assms] connected.cnsTask_sound [OF assms])
     (auto intro!: sound_return dest: checkFault_no_panic)

end

end
