(* ===== verification/Full_Sync.thy ===== *)
theory Full_Sync
  imports Volume_Manager "HOL-Library.Multiset"
begin

text \<open>
  \<open>pkg/syncer/fullsync.go\<close> and \<open>pkg/syncer/types.go\<close>: the periodic full synchronisation of CNS with the
  Kubernetes volumes.

  The package variables are the fields of \<open>syncer\<close>, which extends the driver's state. A PV is passed
  on only when it has a CSI source (\<open>getPVsInBoundAvailableOrReleased\<close> sees to it); \<open>pv_handle\<close> is the
  volume handle of such a PV. The part of \<open>triggerFullSync\<close> before the goroutines is the program
  \<open>prepareFullSync\<close>; the three goroutines, the lock and the wait group are the step relation of the
  theory \<open>Full_Sync_Steps\<close>.
\<close>

section \<open>Data\<close>

datatype sync_operation =
    noOperation
  | createVolumeOperation
  | updateVolumeOperation
  | updateVolumeWithDeleteClaimOperation
  | updateVolumeWithDeletePodOperation

record syncer = csi +
  cnsVolumeToPodMap :: "string \<rightharpoonup> string"
  cnsVolumeToPvcMap :: "string \<rightharpoonup> string"
  cnsVolumeToEntityNamespaceMap :: "string \<rightharpoonup> string"
  cnsDeletionMap :: "string \<rightharpoonup> bool"
  cnsCreationMap :: "string \<rightharpoonup> bool"

record MetadataSyncInformer =
  cfg :: config
  vcenter :: nat

type_synonym ('z, 'a) syncE = "('z syncer_scheme, error + 'a) state"
type_synonym pvcMap = "string \<rightharpoonup> pvc"
type_synonym podMap = "string \<rightharpoonup> pod"

definition pv_handle :: "pv \<Rightarrow> string" where
  "pv_handle p = (case pv_CSI p of None \<Rightarrow> [] | Some src \<Rightarrow> VolumeHandle src)"

section \<open>Reading Kubernetes\<close>

definition inDesiredState :: "pv \<Rightarrow> bool" where
  "inDesiredState p = (case pv_CSI p of
     None \<Rightarrow> False
   | Some src \<Rightarrow> Driver src = DriverName \<and>
       (pv_Phase p = VolumeBound \<or> pv_Phase p = VolumeAvailable \<or> pv_Phase p = VolumeReleased))"

definition getPVsInBoundAvailableOrReleased :: "k8s_env \<Rightarrow> ('z, pv list) progE" where
  "getPVsInBoundAvailableOrReleased k8s =
     bindE (perform CallListPVs (ans_ListPVs k8s)) (\<lambda>allPVs.
     State_Monad.return (Inr (filter inDesiredState allPVs)))"

definition addMountingPods :: "string \<Rightarrow> pod list \<Rightarrow> podMap \<Rightarrow> podMap" where
  "addMountingPods claim pods m =
     fold (\<lambda>p m. if list_ex (\<lambda>v. podvol_ClaimName v = Some claim) (pod_Volumes p)
                 then m(pod_Namespace p @ ''/'' @ claim \<mapsto> p) else m) pods m"

fun buildMaps :: "k8s_env \<Rightarrow> pv list \<Rightarrow> pvcMap \<Rightarrow> podMap \<Rightarrow> ('z, pvcMap \<times> podMap) progE" where
  "buildMaps k8s [] pvToPVCMap pvcToPodMap = State_Monad.return (Inr (pvToPVCMap, pvcToPodMap))"
| "buildMaps k8s (p # pvList) pvToPVCMap pvcToPodMap =
     (case pv_ClaimRef p of
        Some ref \<Rightarrow>
          (if pv_Phase p = VolumeBound
           then handle (perform (CallGetPVC (ref_Namespace ref) (ref_Name ref))
                          (ans_GetPVC k8s (ref_Namespace ref) (ref_Name ref)))
                  (\<lambda>_. buildMaps k8s pvList pvToPVCMap pvcToPodMap)
                  (\<lambda>claim.
                     let pvToPVCMap' = pvToPVCMap(pv_Name p \<mapsto> claim) in
                     handle (perform (CallListPods (pvc_Namespace claim)) (ans_ListPods k8s (pvc_Namespace claim)))
                       (\<lambda>_. buildMaps k8s pvList pvToPVCMap' pvcToPodMap)
                       (\<lambda>pods. buildMaps k8s pvList pvToPVCMap'
                                 (addMountingPods (pvc_Name claim) pods pvcToPodMap)))
           else buildMaps k8s pvList pvToPVCMap pvcToPodMap)
      | None \<Rightarrow> buildMaps k8s pvList pvToPVCMap pvcToPodMap)"

definition buildPVCMapPodMap :: "k8s_env \<Rightarrow> pv list \<Rightarrow> ('z, pvcMap \<times> podMap) progE" where
  "buildPVCMapPodMap k8s pvList = buildMaps k8s pvList Map.empty Map.empty"

section \<open>What to do with a volume\<close>

definition buildCnsUpdateMetadataList :: "pv \<Rightarrow> pvcMap \<Rightarrow> podMap \<Rightarrow> entity_metadata list" where
  "buildCnsUpdateMetadataList p pvToPVCMap pvcToPodMap =
     GetCnsKubernetesEntityMetaData (pv_Name p) (pv_Labels p) False PVType (pv_Namespace p) #
     (case pvToPVCMap (pv_Name p) of
        None \<Rightarrow> []
      | Some claim \<Rightarrow>
          GetCnsKubernetesEntityMetaData (pvc_Name claim) (pvc_Labels claim) False PVCType (pvc_Namespace claim) #
          (case pvcToPodMap (pvc_Namespace claim @ ''/'' @ pvc_Name claim) of
             None \<Rightarrow> []
           | Some p' \<Rightarrow>
               [GetCnsKubernetesEntityMetaData (pod_Name p') None False PODType (pod_Namespace p')]))"

definition recordCnsEntity :: "string \<Rightarrow> entity_metadata \<Rightarrow> 'z syncer_scheme \<Rightarrow> 'z syncer_scheme" where
  "recordCnsEntity pvName cnsMetadata s =
     (if EntityType cnsMetadata = PODType
      then s\<lparr>cnsVolumeToPodMap := (cnsVolumeToPodMap s)(pvName \<mapsto> EntityName cnsMetadata),
             cnsVolumeToEntityNamespaceMap :=
               (cnsVolumeToEntityNamespaceMap s)(pvName \<mapsto> EntityNamespace cnsMetadata)\<rparr>
      else if EntityType cnsMetadata = PVCType
      then s\<lparr>cnsVolumeToPvcMap := (cnsVolumeToPvcMap s)(pvName \<mapsto> EntityName cnsMetadata),
             cnsVolumeToEntityNamespaceMap :=
               (cnsVolumeToEntityNamespaceMap s)(pvName \<mapsto> EntityNamespace cnsMetadata)\<rparr>
      else s)"

definition entriesDiffer :: "entity_metadata list \<Rightarrow> entity_metadata list \<Rightarrow> bool" where
  "entriesDiffer pvMetadataList cnsMetadataList =
     (let cnsMetadataMap = map_of (rev (map (\<lambda>m. (EntityType m, m)) cnsMetadataList))
      in list_ex (\<lambda>m. case cnsMetadataMap (EntityType m) of
           None \<Rightarrow> False | Some m' \<Rightarrow> \<not> CompareKubernetesMetadata m m') pvMetadataList)"

text \<open>
  The type assertion \<^verbatim>\<open>cnsMetadata.(*cnstypes.CnsKubernetesEntityMetadata)\<close> without a second result, which
  panics for an entry of another type. The entries from Kubernetes are built as Kubernetes metadata by
  \<open>buildCnsUpdateMetadataList\<close>, so the assertion on them cannot fail.
\<close>

definition asKubernetes :: "base_entity_metadata \<Rightarrow> ('s, error + entity_metadata) state" where
  "asKubernetes cnsMetadata = State_Monad.return (case cnsMetadata of
     KubernetesEntity m \<Rightarrow> Inr m | OtherEntity _ \<Rightarrow> Inl (Panic ''interface conversion''))"

definition getCnsUpdateOperationType ::
  "entity_metadata list \<Rightarrow> base_entity_metadata list \<Rightarrow> string \<Rightarrow> ('z, sync_operation) syncE" where
  "getCnsUpdateOperationType pvMetadataList cnsMetadataList pvName =
     (if length pvMetadataList > length cnsMetadataList
      then State_Monad.return (Inr updateVolumeOperation)
      else
        bindE (if length pvMetadataList < length cnsMetadataList
               then forE (\<lambda>cnsMetadata. bindE (asKubernetes cnsMetadata) (\<lambda>m. do {
                      assign (recordCnsEntity pvName m);
                      State_Monad.return (Inr ())
                    })) cnsMetadataList
               else State_Monad.return (Inr ())) (\<lambda>_.
        if length pvMetadataList < length cnsMetadataList \<and> length pvMetadataList = 1
        then State_Monad.return (Inr updateVolumeWithDeleteClaimOperation)
        else if length pvMetadataList < length cnsMetadataList \<and> length pvMetadataList = 2
        then State_Monad.return (Inr updateVolumeWithDeletePodOperation)
        else
          bindE (mapE asKubernetes cnsMetadataList) (\<lambda>entries.
          State_Monad.return (Inr
            (if entriesDiffer pvMetadataList entries then updateVolumeOperation else noOperation)))))"

definition manager :: "MetadataSyncInformer \<Rightarrow> (nat option \<Rightarrow> ('z csi_scheme, 'a) state) \<Rightarrow> ('z csi_scheme, 'a) state" where
  "manager ms operation = do { m \<leftarrow> GetManager (Some (vcenter ms)); operation m }"

definition classifyPV ::
  "env \<Rightarrow> MetadataSyncInformer \<Rightarrow> string list \<Rightarrow> pvcMap \<Rightarrow> podMap \<Rightarrow> pv \<Rightarrow> ('z, sync_operation) syncE" where
  "classifyPV env ms cnsVolumeIds pvToPVCMap pvcToPodMap p =
     (let volumeHandle = pv_handle p in
      if volumeHandle \<in> set cnsVolumeIds
      then handle (manager ms (\<lambda>m. QueryVolume env m
                    \<lparr>filter_VolumeIds = [volumeHandle], filter_ContainerClusterIds = []\<rparr>))
             (\<lambda>_. State_Monad.return (Inr noOperation))
             (\<lambda>vols. case vols of
                [] \<Rightarrow> State_Monad.return (Inr noOperation)
              | vol # _ \<Rightarrow> getCnsUpdateOperationType (buildCnsUpdateMetadataList p pvToPVCMap pvcToPodMap)
                            (vol_EntityMetadata vol) (pv_Name p))
      else do {
        s \<leftarrow> State_Monad.get;
        if cnsCreationMap s volumeHandle \<noteq> None
        then State_Monad.return (Inr createVolumeOperation)
        else do {
          assign (\<lambda>s. s\<lparr>cnsCreationMap := (cnsCreationMap s)(volumeHandle \<mapsto> True)\<rparr>);
          State_Monad.return (Inr noOperation)
        }
      })"

fun buildVolumeMapFrom ::
  "env \<Rightarrow> MetadataSyncInformer \<Rightarrow> string list \<Rightarrow> pvcMap \<Rightarrow> podMap \<Rightarrow> pv list \<Rightarrow> (string \<rightharpoonup> sync_operation) \<Rightarrow>
   ('z, string \<rightharpoonup> sync_operation) syncE" where
  "buildVolumeMapFrom env ms cnsVolumeIds pvToPVCMap pvcToPodMap [] k8sPVMap = State_Monad.return (Inr k8sPVMap)"
| "buildVolumeMapFrom env ms cnsVolumeIds pvToPVCMap pvcToPodMap (p # pvList) k8sPVMap =
     bindE (classifyPV env ms cnsVolumeIds pvToPVCMap pvcToPodMap p) (\<lambda>op.
     buildVolumeMapFrom env ms cnsVolumeIds pvToPVCMap pvcToPodMap pvList (k8sPVMap(pv_handle p \<mapsto> op)))"

definition buildVolumeMap ::
  "env \<Rightarrow> pv list \<Rightarrow> cns_volume list \<Rightarrow> pvcMap \<Rightarrow> podMap \<Rightarrow> MetadataSyncInformer \<Rightarrow>
   ('z, string \<rightharpoonup> sync_operation) syncE" where
  "buildVolumeMap env pvList cnsVolumeList pvToPVCMap pvcToPodMap ms =
     buildVolumeMapFrom env ms (map vol_Id cnsVolumeList) pvToPVCMap pvcToPodMap pvList Map.empty"

definition pvsWith :: "sync_operation \<Rightarrow> pv list \<Rightarrow> (string \<rightharpoonup> sync_operation) \<Rightarrow> pv list" where
  "pvsWith op pvList k8sPVMap = filter (\<lambda>p. k8sPVMap (pv_handle p) = Some op) pvList"

definition identifyVolumesToBeCreatedUpdated ::
  "pv list \<Rightarrow> (string \<rightharpoonup> sync_operation) \<Rightarrow> pv list \<times> pv list \<times> pv list \<times> pv list" where
  "identifyVolumesToBeCreatedUpdated pvList k8sPVMap =
     (pvsWith createVolumeOperation pvList k8sPVMap,
      pvsWith updateVolumeOperation pvList k8sPVMap,
      pvsWith updateVolumeWithDeleteClaimOperation pvList k8sPVMap,
      pvsWith updateVolumeWithDeletePodOperation pvList k8sPVMap)"

fun volumesToBeDeleted ::
  "string list \<Rightarrow> (string \<rightharpoonup> sync_operation) \<Rightarrow> (string \<rightharpoonup> bool) \<Rightarrow> string list \<times> (string \<rightharpoonup> bool)" where
  "volumesToBeDeleted [] k8sPVMap deletionMap = ([], deletionMap)"
| "volumesToBeDeleted (v # vols) k8sPVMap deletionMap =
     (if k8sPVMap v = None
      then if deletionMap v \<noteq> None
           then case volumesToBeDeleted vols k8sPVMap deletionMap of (ids, m) \<Rightarrow> (v # ids, m)
           else volumesToBeDeleted vols k8sPVMap (deletionMap(v \<mapsto> True))
      else volumesToBeDeleted vols k8sPVMap deletionMap)"

definition identifyVolumesToBeDeleted ::
  "cns_volume list \<Rightarrow> (string \<rightharpoonup> sync_operation) \<Rightarrow> ('z syncer_scheme, string list) state" where
  "identifyVolumesToBeDeleted cnsVolumeList k8sPVMap = do {
     s \<leftarrow> State_Monad.get;
     case volumesToBeDeleted (map vol_Id cnsVolumeList) k8sPVMap (cnsDeletionMap s) of
       (volToBeDeleted, m) \<Rightarrow> do {
         assign (\<lambda>s. s\<lparr>cnsDeletionMap := m\<rparr>);
         State_Monad.return volToBeDeleted
       }
   }"

section \<open>Specifications\<close>

text \<open>\<^verbatim>\<open>GetContainerCluster(cfg.Global.ClusterID, cfg.VirtualCenter[vcenter.Config.Host].User)\<close>\<close>

definition clusterOf :: "MetadataSyncInformer \<Rightarrow> ('z, container_cluster) progE" where
  "clusterOf ms =
     bindE (load_vc (vcenter ms)) (\<lambda>vc.
     State_Monad.return (case map_of (VirtualCenter (cfg ms)) (conf_Host (vc_Config vc)) of
       None \<Rightarrow> Inl (Panic ''nil *VirtualCenterConfig'')
     | Some section \<Rightarrow> Inr (GetContainerCluster (Global_ClusterID (cfg ms)) (User section))))"

definition constructCnsCreateSpec ::
  "pv list \<Rightarrow> pvcMap \<Rightarrow> podMap \<Rightarrow> MetadataSyncInformer \<Rightarrow> ('z, create_spec list) progE" where
  "constructCnsCreateSpec pvList pvToPVCMap pvcToPodMap ms =
     mapE (\<lambda>p. bindE (clusterOf ms) (\<lambda>cluster. State_Monad.return (Inr
       \<lparr>create_Name = pv_Name p, create_VolumeType = BlockVolumeType, create_Datastores = [],
        create_Metadata = \<lparr>ContainerCluster = cluster,
          EntityMetadata = buildCnsUpdateMetadataList p pvToPVCMap pvcToPodMap\<rparr>,
        create_Backing = BlockBackingDetails (pv_handle p), create_Profile = []\<rparr>))) pvList"

definition constructCnsUpdateSpec ::
  "pv list \<Rightarrow> pvcMap \<Rightarrow> podMap \<Rightarrow> MetadataSyncInformer \<Rightarrow> ('z, update_spec list) progE" where
  "constructCnsUpdateSpec pvUpdateList pvToPVCMap pvcToPodMap ms =
     mapE (\<lambda>p. bindE (clusterOf ms) (\<lambda>cluster. State_Monad.return (Inr
       \<lparr>update_VolumeId = pv_handle p,
        update_Metadata = \<lparr>ContainerCluster = cluster,
          EntityMetadata = buildCnsUpdateMetadataList p pvToPVCMap pvcToPodMap\<rparr>\<rparr>))) pvUpdateList"

definition markedForDelete :: "pv \<Rightarrow> sync_operation \<Rightarrow> 'z syncer_scheme \<Rightarrow> entity_metadata list" where
  "markedForDelete p operationType s =
     (let namespace = (case cnsVolumeToEntityNamespaceMap s (pv_Name p) of None \<Rightarrow> [] | Some ns \<Rightarrow> ns)
      in (case cnsVolumeToPvcMap s (pv_Name p) of
            Some claim \<Rightarrow> if operationType = updateVolumeWithDeleteClaimOperation
                          then [GetCnsKubernetesEntityMetaData claim None True PVCType namespace] else []
          | None \<Rightarrow> []) @
         (case cnsVolumeToPodMap s (pv_Name p) of
            Some podName \<Rightarrow> [GetCnsKubernetesEntityMetaData podName None True PODType namespace]
          | None \<Rightarrow> []))"

text \<open>
  \<open>buildCnsMetadataSpecMarkedForDelete\<close> leaves the container cluster to its caller, here the argument.
\<close>

definition buildCnsMetadataSpecMarkedForDelete ::
  "pv \<Rightarrow> sync_operation \<Rightarrow> container_cluster \<Rightarrow> ('z syncer_scheme, update_spec) state" where
  "buildCnsMetadataSpecMarkedForDelete p operationType cluster = do {
     s \<leftarrow> State_Monad.get;
     State_Monad.return \<lparr>update_VolumeId = pv_handle p,
       update_Metadata = \<lparr>ContainerCluster = cluster, EntityMetadata = markedForDelete p operationType s\<rparr>\<rparr>
   }"

definition constructCnsUpdateSpecWithPVCToBeDeleted ::
  "pv list \<Rightarrow> MetadataSyncInformer \<Rightarrow> ('z, update_spec list) syncE" where
  "constructCnsUpdateSpecWithPVCToBeDeleted pvUpdateList ms =
     mapE (\<lambda>p. bindE (clusterOf ms) (\<lambda>cluster. do {
       updateSpec \<leftarrow> buildCnsMetadataSpecMarkedForDelete p updateVolumeWithDeleteClaimOperation cluster;
       State_Monad.return (Inr updateSpec)
     })) pvUpdateList"

definition constructCnsUpdateSpecWithPodToBeDeleted ::
  "pv list \<Rightarrow> MetadataSyncInformer \<Rightarrow> ('z, update_spec list) syncE" where
  "constructCnsUpdateSpecWithPodToBeDeleted pvUpdateList ms =
     mapE (\<lambda>p. bindE (clusterOf ms) (\<lambda>cluster. do {
       updateSpec \<leftarrow> buildCnsMetadataSpecMarkedForDelete p updateVolumeWithDeletePodOperation cluster;
       State_Monad.return (Inr updateSpec)
     })) pvUpdateList"

section \<open>The parts of a cycle\<close>

record plan =
  createSpecArray :: "create_spec list"
  volToBeDeleted :: "string list"
  updateSpecArray :: "update_spec list"
  k8sPVsMap :: "string \<rightharpoonup> sync_operation"

definition initCnsMaps :: "'z syncer_scheme \<Rightarrow> 'z syncer_scheme" where
  "initCnsMaps s = s\<lparr>cnsVolumeToPodMap := Map.empty, cnsVolumeToPvcMap := Map.empty,
     cnsVolumeToEntityNamespaceMap := Map.empty\<rparr>"

definition planFullSync ::
  "env \<Rightarrow> MetadataSyncInformer \<Rightarrow> pv list \<Rightarrow> pvcMap \<Rightarrow> podMap \<Rightarrow> cns_volume list \<Rightarrow> ('z, plan) syncE" where
  "planFullSync env ms k8sPVs pvToPVCMap pvcToPodMap cnsVolumeArray = do {
     assign initCnsMaps;
     bindE (buildVolumeMap env k8sPVs cnsVolumeArray pvToPVCMap pvcToPodMap ms) (\<lambda>pvsMap.
     case identifyVolumesToBeCreatedUpdated k8sPVs pvsMap of
       (toBeCreated, toBeUpdated, withPvcEntryToBeDeleted, withPodEntryToBeDeleted) \<Rightarrow> do {
         toBeDeleted \<leftarrow> identifyVolumesToBeDeleted cnsVolumeArray pvsMap;
         bindE (constructCnsCreateSpec toBeCreated pvToPVCMap pvcToPodMap ms) (\<lambda>createSpecs.
         bindE (constructCnsUpdateSpec toBeUpdated pvToPVCMap pvcToPodMap ms) (\<lambda>updateSpecs.
         bindE (constructCnsUpdateSpecWithPVCToBeDeleted withPvcEntryToBeDeleted ms) (\<lambda>pvcSpecs.
         bindE (constructCnsUpdateSpecWithPodToBeDeleted withPodEntryToBeDeleted ms) (\<lambda>podSpecs.
         State_Monad.return (Inr
           \<lparr>createSpecArray = createSpecs, volToBeDeleted = toBeDeleted,
            updateSpecArray = updateSpecs @ pvcSpecs @ podSpecs, k8sPVsMap = pvsMap\<rparr>)))))
       })
   }"

text \<open>\<open>triggerFullSync\<close> up to the goroutines; \<open>None\<close> is a return after a logged error.\<close>

definition prepareFullSync :: "env \<Rightarrow> k8s_env \<Rightarrow> MetadataSyncInformer \<Rightarrow> ('z, plan option) syncE" where
  "prepareFullSync env k8s ms =
     handle (getPVsInBoundAvailableOrReleased k8s)
       (\<lambda>_. State_Monad.return (Inr None))
       (\<lambda>k8sPVs.
          bindE (buildPVCMapPodMap k8s k8sPVs) (\<lambda>(pvToPVCMap, pvcToPodMap).
          handle (manager ms (\<lambda>m. QueryAllVolume env m
                   \<lparr>filter_VolumeIds = [], filter_ContainerClusterIds = [Global_ClusterID (cfg ms)]\<rparr>))
            (\<lambda>_. State_Monad.return (Inr None))
            (\<lambda>cnsVolumeArray.
               bindE (planFullSync env ms k8sPVs pvToPVCMap pvcToPodMap cnsVolumeArray) (\<lambda>p.
               State_Monad.return (Inr (Some p))))))"

text \<open>One iteration of the loop of \<open>fullSyncCreateVolumes\<close>; a failed creation is logged.\<close>

definition fullSyncCreateVolume ::
  "env \<Rightarrow> MetadataSyncInformer \<Rightarrow> string list \<Rightarrow> create_spec \<Rightarrow> ('z, unit) syncE" where
  "fullSyncCreateVolume env ms currentK8sPVs createSpec =
     (case create_Backing createSpec of
        BackingObjectDetails _ \<Rightarrow> State_Monad.return (Inl (Panic ''interface conversion''))
      | BlockBackingDetails backingDiskId \<Rightarrow>
          (let forget = do {
             assign (\<lambda>s. s\<lparr>cnsCreationMap := (cnsCreationMap s)(backingDiskId := None)\<rparr>);
             State_Monad.return (Inr ())
           } in
           if backingDiskId \<in> set currentK8sPVs
           then handle (manager ms (\<lambda>m. CreateVolume env m createSpec))
                  (\<lambda>_. State_Monad.return (Inr ())) (\<lambda>_. forget)
           else forget))"

definition fullSyncDeleteVolume ::
  "env \<Rightarrow> MetadataSyncInformer \<Rightarrow> string list \<Rightarrow> string \<Rightarrow> ('z, unit) syncE" where
  "fullSyncDeleteVolume env ms currentK8sPVs volID =
     (let forget = do {
        assign (\<lambda>s. s\<lparr>cnsDeletionMap := (cnsDeletionMap s)(volID := None)\<rparr>);
        State_Monad.return (Inr ())
      } in
      if volID \<notin> set currentK8sPVs
      then handle (manager ms (\<lambda>m. DeleteVolume env m volID False))
             (\<lambda>_. State_Monad.return (Inr ())) (\<lambda>_. forget)
      else forget)"

definition fullSyncUpdateVolume :: "env \<Rightarrow> MetadataSyncInformer \<Rightarrow> update_spec \<Rightarrow> ('z, unit) syncE" where
  "fullSyncUpdateVolume env ms updateSpec =
     handle (manager ms (\<lambda>m. UpdateVolumeMetadata env m updateSpec))
       (\<lambda>_. State_Monad.return (Inr ())) (\<lambda>_. State_Monad.return (Inr ()))"

definition cleanupCnsMaps :: "(string \<rightharpoonup> sync_operation) \<Rightarrow> 'z syncer_scheme \<Rightarrow> 'z syncer_scheme" where
  "cleanupCnsMaps k8sPVs s = s\<lparr>
     cnsCreationMap := (\<lambda>volID. if k8sPVs volID = None then None else cnsCreationMap s volID),
     cnsDeletionMap := (\<lambda>volID. if k8sPVs volID \<noteq> None then None else cnsDeletionMap s volID)\<rparr>"

section \<open>Which parts touch the maps\<close>

definition sync_maps where
  "sync_maps s = (cnsCreationMap s, cnsDeletionMap s, cnsVolumeToPodMap s, cnsVolumeToPvcMap s,
     cnsVolumeToEntityNamespaceMap s)"

definition maps_are where
  "maps_are x s \<longleftrightarrow> sync_maps s = x"

lemma steady_maps_are [simp]: "steady (maps_are x)"
  by (rule steadyI) (simp_all add: maps_are_def sync_maps_def)

lemma keeps_GetManager [keeps_rules]: "keeps (maps_are x) (GetManager vc)"
  unfolding GetManager_def by (intro keeps_rules) (simp add: maps_are_def sync_maps_def)

lemma keeps_manager [keeps_rules]:
  "(\<And>m. keeps (maps_are x) (operation m)) \<Longrightarrow> keeps (maps_are x) (manager ms operation)"
  unfolding manager_def by (intro keeps_rules)

lemma keeps_maps_perform: "keeps (maps_are x) (perform c answer)"
  by (rule steady_perform) simp

lemma manager_maps:
  "(\<And>m. keeps (maps_are (sync_maps s)) (operation m)) \<Longrightarrow>
   run_state (manager ms operation) s = (r, s') \<Longrightarrow> sync_maps s' = sync_maps s"
  using keepsD [OF keeps_manager, of "sync_maps s" operation ms s r s'] by (simp add: maps_are_def)

lemma emits_GetManager [emits_rules]: "emits P (GetManager vc)"
  unfolding GetManager_def by (intro emits_rules) simp

lemma emits_manager_op [emits_rules]: "(\<And>m. emits P (operation m)) \<Longrightarrow> emits P (manager ms operation)"
  unfolding manager_def by (intro emits_rules)

lemma recordCnsEntity_maps [simp]:
  "cnsCreationMap (recordCnsEntity n m s) = cnsCreationMap s" "cnsDeletionMap (recordCnsEntity n m s) = cnsDeletionMap s"
  "trace (recordCnsEntity n m s) = trace s"
  by (simp_all add: recordCnsEntity_def)

lemma emits_asKubernetes [emits_rules]: "emits P (asKubernetes m)"
  unfolding asKubernetes_def by (rule emits_return)

lemma emits_getCnsUpdateOperationType [emits_rules]: "emits P (getCnsUpdateOperationType xs ys n)"
  unfolding getCnsUpdateOperationType_def by (intro emits_rules) simp_all

text \<open>Neither loop over the entries touches the two maps of the two-cycle rule.\<close>

lemma keeps_cycle_maps:
  "keeps (\<lambda>s. cnsCreationMap s = C \<and> cnsDeletionMap s = D) (getCnsUpdateOperationType xs ys n)"
  unfolding getCnsUpdateOperationType_def asKubernetes_def
  by (intro keeps_if keeps_bindE keeps_bind keeps_forE keeps_mapE keeps_return keeps_assign) simp_all

lemma getCnsUpdateOperationType_maps:
  assumes "run_state (getCnsUpdateOperationType xs ys n) s = (r, s')"
  shows "cnsCreationMap s' = cnsCreationMap s \<and> cnsDeletionMap s' = cnsDeletionMap s \<and> r \<noteq> Inr createVolumeOperation"
  using keepsD [OF keeps_cycle_maps assms] assms
  by (auto simp: getCnsUpdateOperationType_def split: if_splits prod.splits sum.splits)

text \<open>With Kubernetes metadata only, the assertions succeed.\<close>

lemma mapE_asKubernetes [simp]: "run_state (mapE asKubernetes (map KubernetesEntity ms)) s = (Inr ms, s)"
  by (induction ms) (simp_all add: asKubernetes_def)

section \<open>Classification\<close>

definition marked :: "string list \<Rightarrow> string \<Rightarrow> (string \<rightharpoonup> bool) \<Rightarrow> (string \<rightharpoonup> bool)" where
  "marked cnsIds h C = (if h \<in> set cnsIds \<or> C h \<noteq> None then C else C(h \<mapsto> True))"

lemma classifyPV_maps:
  assumes "run_state (classifyPV env ms cnsIds pvcs pods p) s = (Inr op, s')"
  shows "cnsDeletionMap s' = cnsDeletionMap s"
    and "cnsCreationMap s' = marked cnsIds (pv_handle p) (cnsCreationMap s)"
    and "op = createVolumeOperation \<longleftrightarrow> pv_handle p \<notin> set cnsIds \<and> cnsCreationMap s (pv_handle p) \<noteq> None"
    and "pv_handle p \<notin> set cnsIds \<Longrightarrow> op \<in> {noOperation, createVolumeOperation}"
proof -
  have "cnsDeletionMap s' = cnsDeletionMap s \<and>
    cnsCreationMap s' = marked cnsIds (pv_handle p) (cnsCreationMap s) \<and>
    (op = createVolumeOperation \<longleftrightarrow> pv_handle p \<notin> set cnsIds \<and> cnsCreationMap s (pv_handle p) \<noteq> None) \<and>
    (pv_handle p \<in> set cnsIds \<or> op \<in> {noOperation, createVolumeOperation})"
  proof (cases "pv_handle p \<in> set cnsIds")
    case False
    with assms show ?thesis
      by (cases "cnsCreationMap s (pv_handle p)") (auto simp: classifyPV_def marked_def Let_def)
  next
    case True
    let ?q = "manager ms (\<lambda>m. QueryVolume env m
                    \<lparr>filter_VolumeIds = [pv_handle p], filter_ContainerClusterIds = []\<rparr>)"
    obtain r1 s1 where q: "run_state ?q s = (r1, s1)" by fastforce
    have same: "sync_maps s1 = sync_maps s"
      by (rule manager_maps [OF _ q]) (rule steady_manager, simp)
    show ?thesis
      using assms True q same
      by (auto simp: classifyPV_def Let_def sync_maps_def marked_def dest!: getCnsUpdateOperationType_maps
          split: sum.splits error.splits list.splits)
  qed
  then show "cnsDeletionMap s' = cnsDeletionMap s"
    and "cnsCreationMap s' = marked cnsIds (pv_handle p) (cnsCreationMap s)"
    and "op = createVolumeOperation \<longleftrightarrow> pv_handle p \<notin> set cnsIds \<and> cnsCreationMap s (pv_handle p) \<noteq> None"
    and "pv_handle p \<notin> set cnsIds \<Longrightarrow> op \<in> {noOperation, createVolumeOperation}"
    by auto
qed

text \<open>
  A volume is to be created when CNS does not list it and it was recorded before, or when two PVs of
  the listing carry its handle: the first of them records it, the second finds it recorded.
\<close>

definition create_due :: "string list \<Rightarrow> string list \<Rightarrow> (string \<rightharpoonup> bool) \<Rightarrow> string \<Rightarrow> bool" where
  "create_due handles cnsIds C h \<longleftrightarrow> h \<notin> set cnsIds \<and> (C h \<noteq> None \<or> 2 \<le> count_list handles h)"

lemma buildVolumeMapFrom_spec:
  assumes "run_state (buildVolumeMapFrom env ms cnsIds pvcs pods pvList acc) s = (Inr M, s')"
  shows "dom M = dom acc \<union> set (map pv_handle pvList) \<and> cnsDeletionMap s' = cnsDeletionMap s \<and>
    cnsCreationMap s' = fold (marked cnsIds) (map pv_handle pvList) (cnsCreationMap s) \<and>
    (\<forall>h. M h = Some createVolumeOperation \<longleftrightarrow>
       (if h \<in> set (map pv_handle pvList) then create_due (map pv_handle pvList) cnsIds (cnsCreationMap s) h
        else acc h = Some createVolumeOperation))"
  using assms
proof (induction pvList arbitrary: acc s)
  case Nil then show ?case by simp
next
  case (Cons p pvList)
  from Cons.prems obtain op s1 where
      c: "run_state (classifyPV env ms cnsIds pvcs pods p) s = (Inr op, s1)"
    and rest: "run_state (buildVolumeMapFrom env ms cnsIds pvcs pods pvList (acc(pv_handle p \<mapsto> op))) s1
                 = (Inr M, s')"
    by (auto split: prod.splits sum.splits)
  note cl = classifyPV_maps [OF c]
  note IH = Cons.IH [OF rest]
  have "M h = Some createVolumeOperation \<longleftrightarrow>
      (if h \<in> set (map pv_handle (p # pvList)) then create_due (map pv_handle (p # pvList)) cnsIds (cnsCreationMap s) h
       else acc h = Some createVolumeOperation)" for h
  proof (cases "h = pv_handle p")
    case True
    show ?thesis
    proof (cases "h \<in> set (map pv_handle pvList)")
      case again: True
      then have "1 \<le> count_list (map pv_handle pvList) h"
        by (metis count_list_0_iff less_one not_less)
      with IH again True cl(2) show ?thesis by (auto simp: create_due_def marked_def)
    next
      case once: False
      then have "count_list (map pv_handle pvList) h = 0" by (simp add: count_list_0_iff)
      with IH once cl(3) True show ?thesis by (auto simp: create_due_def)
    qed
  next
    case False
    have "cnsCreationMap s1 h = cnsCreationMap s h" using False by (simp add: cl(2) marked_def)
    with IH False show ?thesis by (auto simp: create_due_def)
  qed
  moreover have "dom M = dom acc \<union> set (map pv_handle (p # pvList))" using IH by auto
  ultimately show ?case using IH cl by simp
qed

lemma fold_marked:
  "fold (marked cnsIds) hs C h =
     (if h \<in> set hs \<and> h \<notin> set cnsIds \<and> C h = None then Some True else C h)"
  by (induction hs arbitrary: C) (auto simp: marked_def)

lemma volumesToBeDeleted_ids:
  "distinct vols \<Longrightarrow> fst (volumesToBeDeleted vols M D) = filter (\<lambda>v. M v = None \<and> D v \<noteq> None) vols"
proof (induction vols arbitrary: D)
  case (Cons v vols)
  note IH = Cons.IH [OF distinct_tl [OF Cons.prems, simplified]]
  have "filter (\<lambda>w. M w = None \<and> (D(v \<mapsto> True)) w \<noteq> None) vols = filter (\<lambda>w. M w = None \<and> D w \<noteq> None) vols"
    using Cons.prems by (intro filter_cong) auto
  then show ?case
    by (cases "M v"; cases "D v") (simp_all add: case_prod_beta IH del: fun_upd_apply)
qed simp

lemma volumesToBeDeleted_map:
  "snd (volumesToBeDeleted vols M D) v =
     (if v \<in> set vols \<and> M v = None \<and> D v = None then Some True else D v)"
proof (induction vols arbitrary: D v)
  case (Cons w vols)
  show ?case
    by (cases "M w"; cases "D w"; cases "v = w") (simp_all add: case_prod_beta Cons.IH)
qed simp

lemma clusterOf_reads: "run_state (clusterOf ms) s = (r, s') \<Longrightarrow> s' = s"
  by (auto simp: clusterOf_def load_vc_def split: option.splits)

lemma constructCnsCreateSpec_spec:
  assumes "run_state (constructCnsCreateSpec pvs pvcs pods ms) s = (Inr specs, s')"
  shows "s' = s \<and> list_all2 (\<lambda>p spec. create_Backing spec = BlockBackingDetails (pv_handle p)) pvs specs"
  using assms unfolding constructCnsCreateSpec_def
  by (rule mapE_Inr [rotated]) (auto dest: clusterOf_reads split: prod.splits sum.splits)

text \<open>
  The constructions of updates read the state and concern only the given PVs; \<open>entries\<close> are the
  entries they send.
\<close>

definition concerns where
  "concerns entries p u \<longleftrightarrow> update_VolumeId u = pv_handle p \<and> EntityMetadata (update_Metadata u) = entries p"

lemma constructCnsUpdateSpec_spec:
  assumes "run_state (constructCnsUpdateSpec pvs pvcs pods ms) s = (Inr specs, s')"
  shows "s' = s \<and> list_all2 (concerns (\<lambda>p. buildCnsUpdateMetadataList p pvcs pods)) pvs specs"
  using assms unfolding constructCnsUpdateSpec_def
  by (rule mapE_Inr [rotated]) (auto simp: concerns_def dest: clusterOf_reads split: prod.splits sum.splits)

lemma constructCnsUpdateSpecWithPVCToBeDeleted_spec:
  assumes "run_state (constructCnsUpdateSpecWithPVCToBeDeleted pvs ms) s = (Inr specs, s')"
  shows "s' = s \<and>
    list_all2 (concerns (\<lambda>p. markedForDelete p updateVolumeWithDeleteClaimOperation s)) pvs specs"
  using assms unfolding constructCnsUpdateSpecWithPVCToBeDeleted_def buildCnsMetadataSpecMarkedForDelete_def
  by (rule mapE_Inr [rotated]) (auto simp: concerns_def dest: clusterOf_reads split: prod.splits sum.splits)

lemma constructCnsUpdateSpecWithPodToBeDeleted_spec:
  assumes "run_state (constructCnsUpdateSpecWithPodToBeDeleted pvs ms) s = (Inr specs, s')"
  shows "s' = s \<and>
    list_all2 (concerns (\<lambda>p. markedForDelete p updateVolumeWithDeletePodOperation s)) pvs specs"
  using assms unfolding constructCnsUpdateSpecWithPodToBeDeleted_def buildCnsMetadataSpecMarkedForDelete_def
  by (rule mapE_Inr [rotated]) (auto simp: concerns_def dest: clusterOf_reads split: prod.splits sum.splits)

section \<open>The plan of a cycle\<close>

text \<open>
  What a cycle is planned from: the PVs Kubernetes listed, the volumes CNS listed and the maps of the
  state before.
\<close>

definition planned ::
  "pv list \<Rightarrow> string list \<Rightarrow> 'z syncer_scheme \<Rightarrow> plan \<Rightarrow> 'z syncer_scheme \<Rightarrow> bool" where
  "planned k8sPVs cnsIds s p s' \<longleftrightarrow>
     dom (k8sPVsMap p) = set (map pv_handle k8sPVs) \<and>
     volToBeDeleted p = filter (\<lambda>v. v \<notin> set (map pv_handle k8sPVs) \<and> cnsDeletionMap s v \<noteq> None) cnsIds \<and>
     map create_Backing (createSpecArray p) =
       map (\<lambda>q. BlockBackingDetails (pv_handle q))
         (filter (\<lambda>q. create_due (map pv_handle k8sPVs) cnsIds (cnsCreationMap s) (pv_handle q)) k8sPVs) \<and>
     (\<forall>u \<in> set (updateSpecArray p). update_VolumeId u \<in> set (map pv_handle k8sPVs) \<inter> set cnsIds) \<and>
     cnsCreationMap s' = (\<lambda>h. if h \<in> set (map pv_handle k8sPVs) \<and> h \<notin> set cnsIds \<and> cnsCreationMap s h = None
                              then Some True else cnsCreationMap s h) \<and>
     cnsDeletionMap s' = (\<lambda>v. if v \<in> set cnsIds \<and> v \<notin> set (map pv_handle k8sPVs) \<and> cnsDeletionMap s v = None
                              then Some True else cnsDeletionMap s v)"

lemma pvsWith_other:
  assumes "run_state (buildVolumeMapFrom env ms cnsIds pvcs pods pvList acc) s = (Inr M, s')"
    and "M h = Some op" and "op \<notin> {noOperation, createVolumeOperation}" and "acc h \<noteq> Some op"
  shows "h \<in> set cnsIds"
  using assms
proof (induction pvList arbitrary: acc s)
  case (Cons p pvList)
  from Cons.prems(1) obtain op' s1 where
      c: "run_state (classifyPV env ms cnsIds pvcs pods p) s = (Inr op', s1)"
    and rest: "run_state (buildVolumeMapFrom env ms cnsIds pvcs pods pvList (acc(pv_handle p \<mapsto> op'))) s1
                 = (Inr M, s')"
    by (auto split: prod.splits sum.splits)
  show ?case
  proof (cases "h \<in> set cnsIds")
    case False
    have "(acc(pv_handle p \<mapsto> op')) h \<noteq> Some op"
      using classifyPV_maps(4) [OF c] Cons.prems(3,4) False by auto
    from Cons.IH [OF rest Cons.prems(2,3) this] show ?thesis .
  qed
qed simp

lemma list_all2_concerns:
  "list_all2 (concerns entries) pvs specs \<Longrightarrow> u \<in> set specs \<Longrightarrow> \<exists>p \<in> set pvs. update_VolumeId u = pv_handle p"
  by (induction rule: list_all2_induct) (auto simp: concerns_def)

lemma list_all2_map_eq: "list_all2 (\<lambda>x y. f y = g x) xs ys \<Longrightarrow> map f ys = map g xs"
  by (induction rule: list_all2_induct) auto

text \<open>The map of operations of a plan, and what the plan says in terms of it.\<close>

lemma planFullSync_run:
  assumes run: "run_state (planFullSync env ms k8sPVs pvcs pods vols) s = (Inr p, s')"
  obtains M s1 where
    "run_state (buildVolumeMapFrom env ms (map vol_Id vols) pvcs pods k8sPVs Map.empty) (initCnsMaps s) = (Inr M, s1)"
    and "s' = s1\<lparr>cnsDeletionMap := snd (volumesToBeDeleted (map vol_Id vols) M (cnsDeletionMap s1))\<rparr>"
    and "k8sPVsMap p = M" and "volToBeDeleted p = fst (volumesToBeDeleted (map vol_Id vols) M (cnsDeletionMap s1))"
    and "map create_Backing (createSpecArray p) =
      map (\<lambda>q. BlockBackingDetails (pv_handle q)) (pvsWith createVolumeOperation k8sPVs M)"
    and "\<forall>u \<in> set (updateSpecArray p). \<exists>q op. q \<in> set (pvsWith op k8sPVs M) \<and>
      op \<notin> {noOperation, createVolumeOperation} \<and> update_VolumeId u = pv_handle q"
proof -
  let ?ids = "map vol_Id vols"
  from run obtain M s1 where
    build: "run_state (buildVolumeMapFrom env ms ?ids pvcs pods k8sPVs Map.empty) (initCnsMaps s) = (Inr M, s1)"
    by (auto simp: planFullSync_def buildVolumeMap_def split: prod.splits sum.splits)
  define s2 where "s2 = s1\<lparr>cnsDeletionMap := snd (volumesToBeDeleted ?ids M (cnsDeletionMap s1))\<rparr>"
  from run build obtain cs us ps qs t1 t2 t3 where
      c: "run_state (constructCnsCreateSpec (pvsWith createVolumeOperation k8sPVs M) pvcs pods ms) s2 = (Inr cs, t1)"
    and u: "run_state (constructCnsUpdateSpec (pvsWith updateVolumeOperation k8sPVs M) pvcs pods ms) t1 = (Inr us, t2)"
    and pc: "run_state (constructCnsUpdateSpecWithPVCToBeDeleted
        (pvsWith updateVolumeWithDeleteClaimOperation k8sPVs M) ms) t2 = (Inr ps, t3)"
    and pd: "run_state (constructCnsUpdateSpecWithPodToBeDeleted
        (pvsWith updateVolumeWithDeletePodOperation k8sPVs M) ms) t3 = (Inr qs, s')"
    and p: "p = \<lparr>createSpecArray = cs, volToBeDeleted = fst (volumesToBeDeleted ?ids M (cnsDeletionMap s1)),
      updateSpecArray = us @ ps @ qs, k8sPVsMap = M\<rparr>"
    by (auto simp: planFullSync_def buildVolumeMap_def identifyVolumesToBeCreatedUpdated_def
        identifyVolumesToBeDeleted_def s2_def split: prod.splits sum.splits)
  note specs = constructCnsCreateSpec_spec [OF c] constructCnsUpdateSpec_spec [OF u]
    constructCnsUpdateSpecWithPVCToBeDeleted_spec [OF pc] constructCnsUpdateSpecWithPodToBeDeleted_spec [OF pd]
  show ?thesis
  proof (rule that [OF build])
    show "s' = s1\<lparr>cnsDeletionMap := snd (volumesToBeDeleted ?ids M (cnsDeletionMap s1))\<rparr>"
      using specs by (simp add: s2_def)
    show "map create_Backing (createSpecArray p) =
        map (\<lambda>q. BlockBackingDetails (pv_handle q)) (pvsWith createVolumeOperation k8sPVs M)"
      using specs(1) by (simp add: p list_all2_map_eq)
    show "\<forall>u \<in> set (updateSpecArray p). \<exists>q op. q \<in> set (pvsWith op k8sPVs M) \<and>
        op \<notin> {noOperation, createVolumeOperation} \<and> update_VolumeId u = pv_handle q"
      using specs by (auto simp: p dest!: list_all2_concerns)
  qed (simp_all add: p)
qed

lemma planFullSync_planned:
  assumes run: "run_state (planFullSync env ms k8sPVs pvcs pods vols) s = (Inr p, s')"
    and distinct: "distinct (map vol_Id vols)"
  shows "planned k8sPVs (map vol_Id vols) s p s'"
proof -
  let ?ids = "map vol_Id vols" and ?hs = "map pv_handle k8sPVs"
  from run obtain M s1 where
      build: "run_state (buildVolumeMapFrom env ms ?ids pvcs pods k8sPVs Map.empty) (initCnsMaps s) = (Inr M, s1)"
    and s': "s' = s1\<lparr>cnsDeletionMap := snd (volumesToBeDeleted ?ids M (cnsDeletionMap s1))\<rparr>"
    and p: "k8sPVsMap p = M" "volToBeDeleted p = fst (volumesToBeDeleted ?ids M (cnsDeletionMap s1))"
      "map create_Backing (createSpecArray p) =
        map (\<lambda>q. BlockBackingDetails (pv_handle q)) (pvsWith createVolumeOperation k8sPVs M)"
    and updates: "\<forall>u \<in> set (updateSpecArray p). \<exists>q op. q \<in> set (pvsWith op k8sPVs M) \<and>
      op \<notin> {noOperation, createVolumeOperation} \<and> update_VolumeId u = pv_handle q"
    by (rule planFullSync_run)
  have s0: "cnsCreationMap (initCnsMaps s) = cnsCreationMap s" "cnsDeletionMap (initCnsMaps s) = cnsDeletionMap s"
    by (simp_all add: initCnsMaps_def)
  note spec = buildVolumeMapFrom_spec [OF build, unfolded s0]
  have dom: "dom M = set ?hs" using spec by simp
  have absent: "M v = None \<longleftrightarrow> v \<notin> set ?hs" for v using dom by (metis domIff)
  have "pvsWith createVolumeOperation k8sPVs M =
      filter (\<lambda>q. create_due ?hs ?ids (cnsCreationMap s) (pv_handle q)) k8sPVs"
    unfolding pvsWith_def using spec by (intro filter_cong) auto
  moreover have "pv_handle q \<in> set ?hs \<inter> set ?ids"
    if "q \<in> set (pvsWith op k8sPVs M)" "op \<notin> {noOperation, createVolumeOperation}" for q op
    using that pvsWith_other [OF build, of "pv_handle q" op] by (auto simp: pvsWith_def)
  then have "update_VolumeId u \<in> set ?hs \<inter> set ?ids" if "u \<in> set (updateSpecArray p)" for u
    using updates that by metis
  moreover have "dom (k8sPVsMap p) = set ?hs" using dom p(1) by simp
  ultimately show ?thesis
    using p(2,3) spec volumesToBeDeleted_ids [OF distinct]
    by (simp add: planned_def s' absent fun_eq_iff volumesToBeDeleted_map fold_marked)
qed

section \<open>Preparing a cycle\<close>

text \<open>What the two-cycle rule needs of CNS: a listing names a volume once.\<close>

definition unique_volumes :: "env \<Rightarrow> bool" where
  "unique_volumes env \<longleftrightarrow>
     (\<forall>f h vols. ans_CnsQueryAll env f h = Inr vols \<longrightarrow> distinct (map vol_Id vols))"

lemma emits_getPVs [emits_rules]: "P CallListPVs \<Longrightarrow> emits P (getPVsInBoundAvailableOrReleased k8s)"
  unfolding getPVsInBoundAvailableOrReleased_def by (intro emits_rules)

lemma getPVs_Inr:
  "run_state (getPVsInBoundAvailableOrReleased k8s) s = (Inr pvs, s') \<Longrightarrow>
   \<exists>allPVs. ans_ListPVs k8s (trace s) = Inr allPVs \<and> pvs = filter inDesiredState allPVs \<and>
     s' = s\<lparr>trace := trace s @ [CallListPVs]\<rparr>"
  by (auto simp: getPVsInBoundAvailableOrReleased_def split: sum.splits)

lemma keeps_getPVs [keeps_rules]: "keeps (maps_are x) (getPVsInBoundAvailableOrReleased k8s)"
  unfolding getPVsInBoundAvailableOrReleased_def by (intro keeps_bindE keeps_maps_perform keeps_return)

lemma emits_buildMaps [emits_rules]:
  "(\<And>ns n. P (CallGetPVC ns n)) \<Longrightarrow> (\<And>ns. P (CallListPods ns)) \<Longrightarrow> emits P (buildMaps k8s pvList m1 m2)"
  by (induction pvList arbitrary: m1 m2)
     (auto simp: Let_def intro!: emits_rules split: option.splits)

lemma keeps_buildMaps: "keeps (maps_are x) (buildMaps k8s pvList m1 m2)"
  by (induction pvList arbitrary: m1 m2)
     (auto simp: Let_def intro!: keeps_handle keeps_maps_perform keeps_return split: option.splits)

lemma emits_clusterOf [emits_rules]: "emits P (clusterOf ms)"
  unfolding clusterOf_def by (intro emits_rules)

lemma emits_classifyPV [emits_rules]:
  "(\<And>c. session_call c \<Longrightarrow> P c) \<Longrightarrow> (\<And>cl f. P (CallCnsQuery cl f)) \<Longrightarrow>
   emits P (classifyPV env ms ids pvcs pods p)"
  unfolding classifyPV_def Let_def
  by (intro emits_rules | (split list.split, intro conjI impI allI) | simp)+

lemma emits_buildVolumeMapFrom [emits_rules]:
  "(\<And>c. session_call c \<Longrightarrow> P c) \<Longrightarrow> (\<And>cl f. P (CallCnsQuery cl f)) \<Longrightarrow>
   emits P (buildVolumeMapFrom env ms ids pvcs pods pvList acc)"
  by (induction pvList arbitrary: acc) (auto intro!: emits_rules)

lemma emits_constructs [emits_rules]:
  "emits P (constructCnsCreateSpec pvs pvcs pods ms)" "emits P (constructCnsUpdateSpec pvs pvcs pods ms)"
  "emits P (constructCnsUpdateSpecWithPVCToBeDeleted pvs ms)"
  "emits P (constructCnsUpdateSpecWithPodToBeDeleted pvs ms)"
  unfolding constructCnsCreateSpec_def constructCnsUpdateSpec_def
    constructCnsUpdateSpecWithPVCToBeDeleted_def constructCnsUpdateSpecWithPodToBeDeleted_def
    buildCnsMetadataSpecMarkedForDelete_def
  by (intro emits_rules)+

lemma emits_planFullSync [emits_rules]:
  "(\<And>c. session_call c \<Longrightarrow> P c) \<Longrightarrow> (\<And>cl f. P (CallCnsQuery cl f)) \<Longrightarrow>
   emits P (planFullSync env ms pvs pvcs pods vols)"
  unfolding planFullSync_def buildVolumeMap_def identifyVolumesToBeDeleted_def
    identifyVolumesToBeCreatedUpdated_def
  by (intro emits_rules | simp add: initCnsMaps_def)+

lemma emits_prepareFullSync: "emits (\<lambda>c. \<not> cns_mutation c) (prepareFullSync env k8s ms)"
  unfolding prepareFullSync_def buildPVCMapPodMap_def
  by (intro emits_rules | simp add: session_call_no_mutation)+

lemma planned_maps:
  assumes "planned pvs ids s p s'" and "sync_maps t = sync_maps s"
  shows "planned pvs ids t p s'"
proof -
  from assms(2) have eqs: "cnsCreationMap t = cnsCreationMap s" "cnsDeletionMap t = cnsDeletionMap s"
    by (simp_all add: sync_maps_def)
  from assms(1) show ?thesis unfolding planned_def eqs .
qed

lemma prepareFullSync_planned:
  assumes run: "run_state (prepareFullSync env k8s ms) s = (Inr (Some p), s')"
    and unique: "unique_volumes env"
  obtains allPVs f h vols where
    "ans_ListPVs k8s (trace s) = Inr allPVs" and "ans_CnsQueryAll env f h = Inr vols"
    and "filter_ContainerClusterIds f = [Global_ClusterID (cfg ms)]"
    and "planned (filter inDesiredState allPVs) (map vol_Id vols) s p s'"
proof -
  let ?f = "\<lparr>filter_VolumeIds = [], filter_ContainerClusterIds = [Global_ClusterID (cfg ms)]\<rparr>"
  let ?q = "manager ms (\<lambda>m. QueryAllVolume env m ?f)"
  from run obtain k8sPVs s1 pvcs pods s2 vols s3 where
      pvs: "run_state (getPVsInBoundAvailableOrReleased k8s) s = (Inr k8sPVs, s1)"
    and maps: "run_state (buildMaps k8s k8sPVs Map.empty Map.empty) s1 = (Inr (pvcs, pods), s2)"
    and query: "run_state ?q s2 = (Inr vols, s3)"
    and plan: "run_state (planFullSync env ms k8sPVs pvcs pods vols) s3 = (Inr p, s')"
    by (auto simp: prepareFullSync_def buildPVCMapPodMap_def split: prod.splits sum.splits error.splits)
  from getPVs_Inr [OF pvs] obtain allPVs where all: "ans_ListPVs k8s (trace s) = Inr allPVs"
    and k: "k8sPVs = filter inDesiredState allPVs" and s1: "sync_maps s1 = sync_maps s"
    by (auto simp: sync_maps_def)
  have s2: "sync_maps s2 = sync_maps s1"
    using keepsD [OF keeps_buildMaps maps, of "sync_maps s1"] by (simp add: maps_are_def)
  have s3: "sync_maps s3 = sync_maps s2"
    by (rule manager_maps [OF _ query]) (rule steady_manager, simp)
  from query obtain h where h: "ans_CnsQueryAll env ?f h = Inr vols"
    by (auto simp: manager_def QueryAllVolume_def elim!: withCNS_Inr split: prod.splits sum.splits)
  from unique h have "distinct (map vol_Id vols)" by (auto simp: unique_volumes_def)
  from planFullSync_planned [OF plan this] have "planned k8sPVs (map vol_Id vols) s p s'"
    by (rule planned_maps) (simp add: s1 s2 s3)
  with all h k that show ?thesis by simp
qed

section \<open>Comparing the entries\<close>

lemma build_types_distinct: "distinct (map EntityType (buildCnsUpdateMetadataList p pvcs pods))"
  by (auto simp: buildCnsUpdateMetadataList_def GetCnsKubernetesEntityMetaData_def split: option.splits)

lemma build_length: "length (buildCnsUpdateMetadataList p pvcs pods) \<in> {1, 2, 3}"
  by (auto simp: buildCnsUpdateMetadataList_def split: option.splits)

lemma entries_match:
  assumes "distinct (map EntityType ys)" and "set ys = set xs"
  shows "\<not> entriesDiffer xs ys"
proof -
  have "map_of (rev (map (\<lambda>m. (EntityType m, m)) ys)) (EntityType m) = Some m" if "m \<in> set ys" for m
    using assms(1) that by (intro map_of_is_SomeI) (auto simp: rev_map [symmetric] o_def)
  with assms(2) show ?thesis by (auto simp: entriesDiffer_def list_ex_iff)
qed

text \<open>What the comparison sees of a list of entries.\<close>

definition entity_views where
  "entity_views ms = (\<lambda>m. (EntityType m, metadata_view m)) ` set ms"

lemma lookup_type:
  "distinct (map EntityType ys) \<Longrightarrow>
   map_of (rev (map (\<lambda>m. (EntityType m, m)) ys)) t = Some m \<longleftrightarrow> m \<in> set ys \<and> EntityType m = t"
  by (subst map_of_eq_Some_iff) (auto simp: rev_map [symmetric] o_def)

lemma entriesDiffer_views:
  assumes "distinct (map EntityType ys)" and "distinct (map EntityType xs)"
    and "EntityType ` set ys = EntityType ` set xs"
  shows "entriesDiffer xs ys \<longleftrightarrow> entity_views ys \<noteq> entity_views xs"
proof
  assume "entriesDiffer xs ys"
  then obtain m m' where m: "m \<in> set xs" "m' \<in> set ys" "EntityType m' = EntityType m"
    "metadata_view m \<noteq> metadata_view m'"
    by (auto simp: entriesDiffer_def list_ex_iff lookup_type [OF assms(1)] CompareKubernetesMetadata_view
        split: option.splits)
  have inj: "inj_on EntityType (set xs)" using assms(2) by (simp add: distinct_map)
  show "entity_views ys \<noteq> entity_views xs"
  proof
    assume "entity_views ys = entity_views xs"
    then have "(EntityType m', metadata_view m') \<in> entity_views xs"
      using m(2) unfolding entity_views_def by blast
    then obtain m'' where "m'' \<in> set xs" "EntityType m'' = EntityType m'" "metadata_view m'' = metadata_view m'"
      by (auto simp: entity_views_def)
    with inj m show False by (auto dest: inj_onD)
  qed
next
  assume differ: "entity_views ys \<noteq> entity_views xs"
  show "entriesDiffer xs ys"
  proof (rule ccontr)
    assume "\<not> entriesDiffer xs ys"
    then have same: "metadata_view m = metadata_view m'"
      if "m \<in> set xs" "m' \<in> set ys" "EntityType m' = EntityType m" for m m'
      using that lookup_type [OF assms(1), of "EntityType m" m']
      by (auto simp: entriesDiffer_def list_ex_iff CompareKubernetesMetadata_view)
    have "entity_views ys = entity_views xs"
      unfolding entity_views_def using assms(3) same by (auto simp: image_iff set_eq_iff) metis+
    with differ show False ..
  qed
qed

section \<open>Properties\<close>

text \<open>
  Full sync converges: a volume whose CNS entries are the entries computed from Kubernetes (in any
  order) gets no operation, so an update that CNS applied is not repeated.
\<close>

lemma update_converges:
  assumes "mset cnsMetadata = mset (buildCnsUpdateMetadataList p pvcs pods)"
  shows "run_state (getCnsUpdateOperationType (buildCnsUpdateMetadataList p pvcs pods)
           (map KubernetesEntity cnsMetadata) pvName) s = (Inr noOperation, s)"
proof -
  let ?k8s = "buildCnsUpdateMetadataList p pvcs pods"
  from assms have "mset (map EntityType cnsMetadata) = mset (map EntityType ?k8s)" by simp
  then have "distinct (map EntityType cnsMetadata)"
    using build_types_distinct by (metis distinct_count_atmost_1 set_mset_mset)
  moreover have "set cnsMetadata = set ?k8s" using assms by (metis set_mset_mset)
  moreover have "length cnsMetadata = length ?k8s" using assms by (metis size_mset)
  ultimately show ?thesis
    by (simp add: getCnsUpdateOperationType_def entries_match)
qed

text \<open>
  C23. When CNS has one Kubernetes entry of each entity type that Kubernetes has, full sync updates the volume exactly
  when an entry differs in its name, namespace, delete flag or labels.
\<close>

theorem update_iff_differs:
  assumes "distinct (map EntityType cnsMetadata)"
    and "EntityType ` set cnsMetadata = EntityType ` set (buildCnsUpdateMetadataList p pvcs pods)"
  shows "run_state (getCnsUpdateOperationType (buildCnsUpdateMetadataList p pvcs pods)
      (map KubernetesEntity cnsMetadata) pvName) s =
    (Inr (if entity_views cnsMetadata = entity_views (buildCnsUpdateMetadataList p pvcs pods)
          then noOperation else updateVolumeOperation), s)"
proof -
  let ?k8s = "buildCnsUpdateMetadataList p pvcs pods"
  have "length cnsMetadata = length ?k8s"
    using assms build_types_distinct [of p pvcs pods] distinct_card [of "map EntityType cnsMetadata"]
      distinct_card [of "map EntityType ?k8s"]
    by simp
  with entriesDiffer_views [OF assms(1) build_types_distinct assms(2)] show ?thesis
    by (simp add: getCnsUpdateOperationType_def)
qed

text \<open>
  An entry missing in CNS goes unnoticed when CNS has a stale entry of another type instead: with the
  PV and the claim in Kubernetes, and the same PV entry and a pod entry in CNS, full sync chooses no
  operation, so the claim is never registered and the stale pod never removed.
\<close>

lemma missing_entry_unnoticed:
  assumes "pvcs (pv_Name p) = Some claim" and "pods (pvc_Namespace claim @ ''/'' @ pvc_Name claim) = None"
    and "EntityType stalePod = PODType"
  shows "run_state (getCnsUpdateOperationType (buildCnsUpdateMetadataList p pvcs pods)
           (map KubernetesEntity [hd (buildCnsUpdateMetadataList p pvcs pods), stalePod]) pvName) s = (Inr noOperation, s)"
  using assms
  by (simp add: getCnsUpdateOperationType_def buildCnsUpdateMetadataList_def entriesDiffer_def asKubernetes_def
      GetCnsKubernetesEntityMetaData_def)

text \<open>
  An entry that is not Kubernetes metadata crashes the syncer: unless Kubernetes has more entries, the
  type assertion is reached and panics.
\<close>

lemma foreign_forE:
  assumes k: "\<And>m s. \<exists>s'. run_state (k m :: ('s, error + unit) state) s = (Inr (), s')"
  shows "OtherEntity kind \<in> set xs \<Longrightarrow>
    \<exists>s'. run_state (forE (\<lambda>x. bindE (asKubernetes x) k) xs) s = (Inl (Panic ''interface conversion''), s')"
proof (induction xs arbitrary: s)
  case (Cons x xs)
  show ?case
  proof (cases x)
    case (KubernetesEntity m)
    obtain s1 where "run_state (k m) s = (Inr (), s1)" using k by blast
    with Cons KubernetesEntity show ?thesis by (simp add: asKubernetes_def)
  qed (simp add: asKubernetes_def)
qed simp

lemma foreign_mapE:
  "OtherEntity kind \<in> set xs \<Longrightarrow> run_state (mapE asKubernetes xs) s = (Inl (Panic ''interface conversion''), s)"
proof (induction xs)
  case (Cons x xs) then show ?case by (cases x) (auto simp: asKubernetes_def)
qed simp

lemma foreign_entry_panics:
  assumes "OtherEntity kind \<in> set cnsMetadataList" and "length pvMetadataList \<le> length cnsMetadataList"
  shows "\<exists>s'. run_state (getCnsUpdateOperationType pvMetadataList cnsMetadataList pvName) s =
    (Inl (Panic ''interface conversion''), s')"
proof (cases "length pvMetadataList < length cnsMetadataList")
  case True
  obtain s' where "run_state (forE (\<lambda>cnsMetadata. bindE (asKubernetes cnsMetadata) (\<lambda>m. do {
      assign (recordCnsEntity pvName m); State_Monad.return (Inr ()) })) cnsMetadataList) s =
      (Inl (Panic ''interface conversion''), s')"
    using foreign_forE [OF _ assms(1), of "\<lambda>m. do { assign (recordCnsEntity pvName m); State_Monad.return (Inr ()) }" s]
    by auto
  with True show ?thesis by (simp add: getCnsUpdateOperationType_def)
next
  case False
  with assms show ?thesis by (simp add: getCnsUpdateOperationType_def foreign_mapE)
qed

section \<open>Witnesses\<close>

definition sample_syncer :: syncer where
  "sample_syncer = \<lparr>trace = [], vcs = [0 \<mapsto> sample_vc], next_vc = 1, virtualCenters = [(''vc1'', 0)],
     managerInstance = None, cnsVolumeToPodMap = Map.empty, cnsVolumeToPvcMap = Map.empty,
     cnsVolumeToEntityNamespaceMap = Map.empty, cnsDeletionMap = Map.empty, cnsCreationMap = Map.empty\<rparr>"

definition sample_ms :: MetadataSyncInformer where
  "sample_ms = \<lparr>cfg = vc_sample_config, vcenter = 0\<rparr>"

definition sample_claimed_pv :: pv where
  "sample_claimed_pv = \<lparr>pv_Name = ''pv1'', pv_Namespace = [], pv_Labels = None, pv_Phase = VolumeBound,
     pv_CSI = Some \<lparr>Driver = DriverName, VolumeHandle = ''vol-1''\<rparr>,
     pv_ClaimRef = Some \<lparr>ref_Namespace = ''ns'', ref_Name = ''c1''\<rparr>,
     pv_ReclaimPolicy = PersistentVolumeReclaimDelete, pv_StorageClassName = [], pv_Deleting = False\<rparr>"

definition sample_claim :: pvc where
  "sample_claim = \<lparr>pvc_Name = ''c1'', pvc_Namespace = ''ns'', pvc_Labels = None, pvc_Phase = ClaimBound,
     pvc_VolumeName = ''pv1''\<rparr>"

lemma update_converges_witness:
  "run_state (getCnsUpdateOperationType
      (buildCnsUpdateMetadataList sample_claimed_pv [''pv1'' \<mapsto> sample_claim] Map.empty)
      (map KubernetesEntity (rev (buildCnsUpdateMetadataList sample_claimed_pv [''pv1'' \<mapsto> sample_claim] Map.empty))) ''pv1'') sample_syncer
   = (Inr noOperation, sample_syncer)"
  by (rule update_converges) simp

lemma missing_entry_unnoticed_witness:
  "run_state (getCnsUpdateOperationType
      (buildCnsUpdateMetadataList sample_claimed_pv [''pv1'' \<mapsto> sample_claim] Map.empty)
      (map KubernetesEntity [hd (buildCnsUpdateMetadataList sample_claimed_pv [''pv1'' \<mapsto> sample_claim] Map.empty),
       GetCnsKubernetesEntityMetaData ''old-pod'' None False PODType ''ns'']) ''pv1'') sample_syncer
   = (Inr noOperation, sample_syncer)"
  by (rule missing_entry_unnoticed [where claim = sample_claim])
     (simp_all add: sample_claimed_pv_def sample_claim_def GetCnsKubernetesEntityMetaData_def)

theorem update_iff_differs_witness:
  "fst (run_state (getCnsUpdateOperationType
      (buildCnsUpdateMetadataList sample_claimed_pv Map.empty Map.empty)
      (map KubernetesEntity [GetCnsKubernetesEntityMetaData ''pv1'' (Some [(''a'', ''1'')]) False PVType []]) ''pv1'') sample_syncer)
   = Inr updateVolumeOperation"
  by (subst update_iff_differs)
     (auto simp: buildCnsUpdateMetadataList_def GetCnsKubernetesEntityMetaData_def entity_views_def
       metadata_view_def sample_claimed_pv_def fun_eq_iff)

end
