(* ===== verification/Full_Sync_Steps.thy ===== *)
theory Full_Sync_Steps
  imports Full_Sync
begin

text \<open>
  The concurrent part of \<open>triggerFullSync\<close>: the goroutines \<open>fullSyncCreateVolumes\<close>,
  \<open>fullSyncDeleteVolumes\<close> and \<open>fullSyncUpdateVolumes\<close>, the mutex \<open>volumeOperationsLock\<close> and the wait
  group. A step is the acquisition of the lock together with the listing of the PVs, one iteration of
  a goroutine's loop, or its end; the steps of the three goroutines interleave freely, except that
  creation and deletion exclude each other through the lock. A goroutine that returns before
  \<^verbatim>\<open>wg.Done()\<close> releases the lock (the deferred unlock) and leaves the wait group as it is.
\<close>

section \<open>The goroutines\<close>

datatype phase =
    Waiting                     \<comment> \<open>for \<open>volumeOperationsLock\<close>\<close>
  | Running "string list"       \<comment> \<open>with the handles of the PVs it listed\<close>
  | Returned                    \<comment> \<open>early, without \<open>wg.Done()\<close>\<close>
  | Finished

record 'z cycle =
  sync :: "'z syncer_scheme"
  createPhase :: phase
  createTodo :: "create_spec list"
  deletePhase :: phase
  deleteTodo :: "string list"
  updateTodo :: "update_spec list"
  updateDone :: bool
  locked :: bool
  wg :: nat
  crashed :: bool

definition startCycle :: "plan \<Rightarrow> 'z syncer_scheme \<Rightarrow> 'z cycle" where
  "startCycle p s = \<lparr>sync = s, createPhase = Waiting, createTodo = createSpecArray p,
     deletePhase = Waiting, deleteTodo = volToBeDeleted p, updateTodo = updateSpecArray p,
     updateDone = False, locked = False, wg = 3, crashed = False\<rparr>"

inductive sync_step :: "env \<Rightarrow> k8s_env \<Rightarrow> MetadataSyncInformer \<Rightarrow> 'z cycle \<Rightarrow> 'z cycle \<Rightarrow> bool"
  for env k8s ms where
  create_lock:
    "\<not> crashed c \<Longrightarrow> createPhase c = Waiting \<Longrightarrow> \<not> locked c \<Longrightarrow>
     run_state (getPVsInBoundAvailableOrReleased k8s) (sync c) = (Inr pvs, s') \<Longrightarrow>
     sync_step env k8s ms c
       (c\<lparr>sync := s', locked := True, createPhase := Running (map pv_handle pvs)\<rparr>)"
| create_return:
    "\<not> crashed c \<Longrightarrow> createPhase c = Waiting \<Longrightarrow> \<not> locked c \<Longrightarrow>
     run_state (getPVsInBoundAvailableOrReleased k8s) (sync c) = (Inl err, s') \<Longrightarrow>
     sync_step env k8s ms c (c\<lparr>sync := s', createPhase := Returned\<rparr>)"
| create_volume:
    "\<not> crashed c \<Longrightarrow> createPhase c = Running current \<Longrightarrow> createTodo c = createSpec # todo \<Longrightarrow>
     run_state (fullSyncCreateVolume env ms current createSpec) (sync c) = (r, s') \<Longrightarrow>
     sync_step env k8s ms c
       (c\<lparr>sync := s', createTodo := todo, crashed := (\<exists>err. r = Inl err)\<rparr>)"
| create_done:
    "\<not> crashed c \<Longrightarrow> createPhase c = Running current \<Longrightarrow> createTodo c = [] \<Longrightarrow>
     sync_step env k8s ms c (c\<lparr>createPhase := Finished, locked := False, wg := wg c - 1\<rparr>)"
| delete_lock:
    "\<not> crashed c \<Longrightarrow> deletePhase c = Waiting \<Longrightarrow> \<not> locked c \<Longrightarrow>
     run_state (getPVsInBoundAvailableOrReleased k8s) (sync c) = (Inr pvs, s') \<Longrightarrow>
     sync_step env k8s ms c
       (c\<lparr>sync := s', locked := True, deletePhase := Running (map pv_handle pvs)\<rparr>)"
| delete_return:
    "\<not> crashed c \<Longrightarrow> deletePhase c = Waiting \<Longrightarrow> \<not> locked c \<Longrightarrow>
     run_state (getPVsInBoundAvailableOrReleased k8s) (sync c) = (Inl err, s') \<Longrightarrow>
     sync_step env k8s ms c (c\<lparr>sync := s', deletePhase := Returned\<rparr>)"
| delete_volume:
    "\<not> crashed c \<Longrightarrow> deletePhase c = Running current \<Longrightarrow> deleteTodo c = volID # todo \<Longrightarrow>
     run_state (fullSyncDeleteVolume env ms current volID) (sync c) = (r, s') \<Longrightarrow>
     sync_step env k8s ms c
       (c\<lparr>sync := s', deleteTodo := todo, crashed := (\<exists>err. r = Inl err)\<rparr>)"
| delete_done:
    "\<not> crashed c \<Longrightarrow> deletePhase c = Running current \<Longrightarrow> deleteTodo c = [] \<Longrightarrow>
     sync_step env k8s ms c (c\<lparr>deletePhase := Finished, locked := False, wg := wg c - 1\<rparr>)"
| update_volume:
    "\<not> crashed c \<Longrightarrow> \<not> updateDone c \<Longrightarrow> updateTodo c = updateSpec # todo \<Longrightarrow>
     run_state (fullSyncUpdateVolume env ms updateSpec) (sync c) = (r, s') \<Longrightarrow>
     sync_step env k8s ms c
       (c\<lparr>sync := s', updateTodo := todo, crashed := (\<exists>err. r = Inl err)\<rparr>)"
| update_done:
    "\<not> crashed c \<Longrightarrow> \<not> updateDone c \<Longrightarrow> updateTodo c = [] \<Longrightarrow>
     sync_step env k8s ms c (c\<lparr>updateDone := True, wg := wg c - 1\<rparr>)"

text \<open>
  A full sync from \<open>s\<close> that ends in \<open>s'\<close>: it gave up while preparing, or the goroutines ran and
  \<^verbatim>\<open>wg.Wait()\<close> returned.
\<close>

inductive triggerFullSync ::
  "env \<Rightarrow> k8s_env \<Rightarrow> MetadataSyncInformer \<Rightarrow> 'z syncer_scheme \<Rightarrow> 'z syncer_scheme \<Rightarrow> bool"
  for env k8s ms where
  gave_up:
    "run_state (prepareFullSync env k8s ms) s = (Inr None, s') \<Longrightarrow> triggerFullSync env k8s ms s s'"
| complete:
    "run_state (prepareFullSync env k8s ms) s = (Inr (Some p), s1) \<Longrightarrow>
     (sync_step env k8s ms)\<^sup>*\<^sup>* (startCycle p s1) c \<Longrightarrow> wg c = 0 \<Longrightarrow> \<not> crashed c \<Longrightarrow>
     triggerFullSync env k8s ms s (cleanupCnsMaps (k8sPVsMap p) (sync c))"

inductive_cases sync_stepE: "sync_step env k8s ms c c'"

section \<open>Invariants of the goroutines\<close>

fun undone :: "phase \<Rightarrow> nat" where
  "undone Finished = 0"
| "undone _ = 1"

fun holds_lock :: "phase \<Rightarrow> bool" where
  "holds_lock (Running _) = True"
| "holds_lock _ = False"

text \<open>
  The wait group counts the goroutines that did not call \<open>Done\<close>, the lock is held by exactly the
  goroutine in its loop, and the work still to do is part of the plan.
\<close>

definition cycle_inv :: "plan \<Rightarrow> 'z cycle \<Rightarrow> bool" where
  "cycle_inv p c \<longleftrightarrow>
     wg c = undone (createPhase c) + undone (deletePhase c) + (if updateDone c then 0 else 1) \<and>
     locked c = (holds_lock (createPhase c) \<or> holds_lock (deletePhase c)) \<and>
     \<not> (holds_lock (createPhase c) \<and> holds_lock (deletePhase c)) \<and>
     set (createTodo c) \<subseteq> set (createSpecArray p) \<and> set (deleteTodo c) \<subseteq> set (volToBeDeleted p) \<and>
     set (updateTodo c) \<subseteq> set (updateSpecArray p)"

lemma cycle_inv_start: "cycle_inv p (startCycle p s)"
  by (simp add: cycle_inv_def startCycle_def)

lemma cycle_inv_step: "sync_step env k8s ms c c' \<Longrightarrow> cycle_inv p c \<Longrightarrow> cycle_inv p c'"
  by (erule sync_stepE) (auto simp: cycle_inv_def)

lemma cycle_inv_steps:
  "(sync_step env k8s ms)\<^sup>*\<^sup>* c c' \<Longrightarrow> cycle_inv p c \<Longrightarrow> cycle_inv p c'"
  by (induction rule: rtranclp_induct) (auto intro: cycle_inv_step)

section \<open>Termination and progress\<close>

fun phase_rank :: "phase \<Rightarrow> nat" where
  "phase_rank Waiting = 2"
| "phase_rank (Running _) = 1"
| "phase_rank _ = 0"

definition work_left :: "'z cycle \<Rightarrow> nat" where
  "work_left c = phase_rank (createPhase c) + phase_rank (deletePhase c) +
     (if updateDone c then 0 else 1) +
     length (createTodo c) + length (deleteTodo c) + length (updateTodo c)"

lemma work_left_step: "sync_step env k8s ms c c' \<Longrightarrow> work_left c' < work_left c"
  by (erule sync_stepE) (auto simp: work_left_def)

lemma work_left_steps: "(sync_step env k8s ms ^^ n) c c' \<Longrightarrow> n + work_left c' \<le> work_left c"
proof (induction n arbitrary: c')
  case (Suc n)
  then obtain d where "(sync_step env k8s ms ^^ n) c d" and "sync_step env k8s ms d c'" by auto
  with Suc.IH [of d] work_left_step [of env k8s ms d c'] show ?case by simp
qed simp

lemma sync_progress:
  assumes inv: "cycle_inv p c" and "\<not> crashed c" and "wg c \<noteq> 0"
    and "createPhase c \<noteq> Returned" "deletePhase c \<noteq> Returned"
  shows "\<exists>c'. sync_step env k8s ms c c'"
proof (cases "updateDone c")
  case False
  then show ?thesis
    using update_volume [of c _ _ env ms _ _ k8s] update_done [of c env k8s ms] assms(2)
    by (cases "updateTodo c"; cases "run_state (fullSyncUpdateVolume env ms (hd (updateTodo c))) (sync c)") auto
next
  case updated: True
  obtain r s' where list: "run_state (getPVsInBoundAvailableOrReleased k8s) (sync c) = (r, s')" by fastforce
  consider (create) current where "createPhase c = Running current"
    | (delete) current where "deletePhase c = Running current"
    | (free) "\<not> locked c" "createPhase c = Waiting \<or> deletePhase c = Waiting"
    using inv updated assms(3,4,5)
    by (cases "createPhase c"; cases "deletePhase c") (auto simp: cycle_inv_def)
  then show ?thesis
  proof cases
    case create
    then show ?thesis
      using create_volume [of c current _ _ env ms _ _ k8s] create_done [of c current env k8s ms] assms(2)
      by (cases "createTodo c"; cases "run_state (fullSyncCreateVolume env ms current (hd (createTodo c))) (sync c)") auto
  next
    case delete
    then show ?thesis
      using delete_volume [of c current _ _ env ms _ _ k8s] delete_done [of c current env k8s ms] assms(2)
      by (cases "deleteTodo c"; cases "run_state (fullSyncDeleteVolume env ms current (hd (deleteTodo c))) (sync c)") auto
  next
    case free
    with list assms(2) show ?thesis
      by (cases r) (metis create_lock delete_lock create_return delete_return)+
  qed
qed

definition stuck :: "'z cycle \<Rightarrow> bool" where
  "stuck c \<longleftrightarrow> createPhase c = Returned \<or> deletePhase c = Returned"

lemma stuck_step: "sync_step env k8s ms c c' \<Longrightarrow> stuck c \<Longrightarrow> stuck c'"
  by (erule sync_stepE) (auto simp: stuck_def)

lemma stuck_steps: "(sync_step env k8s ms)\<^sup>*\<^sup>* c c' \<Longrightarrow> stuck c \<Longrightarrow> stuck c'"
  by (induction rule: rtranclp_induct) (auto intro: stuck_step)

lemma stuck_wg: "cycle_inv p c \<Longrightarrow> stuck c \<Longrightarrow> wg c \<noteq> 0"
  by (auto simp: cycle_inv_def stuck_def)

lemma listing_succeeds:
  assumes "\<And>h. \<exists>allPVs. ans_ListPVs k8s h = Inr allPVs"
  shows "run_state (getPVsInBoundAvailableOrReleased k8s) s \<noteq> (Inl err, s')"
  using assms [of "trace s"] by (auto simp: getPVsInBoundAvailableOrReleased_def)

lemma not_stuck_step:
  assumes "sync_step env k8s ms c c'" and "\<And>h. \<exists>allPVs. ans_ListPVs k8s h = Inr allPVs" and "\<not> stuck c"
  shows "\<not> stuck c'"
  using assms(1,3) by (elim sync_stepE) (auto simp: stuck_def listing_succeeds [OF assms(2)])

lemma wait_returns:
  assumes lists: "\<And>h. \<exists>allPVs. ans_ListPVs k8s h = Inr allPVs"
  shows "cycle_inv p c \<Longrightarrow> \<not> stuck c \<Longrightarrow>
    \<exists>c'. (sync_step env k8s ms)\<^sup>*\<^sup>* c c' \<and> (wg c' = 0 \<or> crashed c')"
proof (induction "work_left c" arbitrary: c rule: less_induct)
  case less
  show ?case
  proof (cases "wg c = 0 \<or> crashed c")
    case True then show ?thesis by blast
  next
    case False
    with less.prems sync_progress [of p c env k8s ms] obtain c1 where
      step: "sync_step env k8s ms c c1" by (auto simp: stuck_def)
    from less.hyps [OF work_left_step [OF step] cycle_inv_step [OF step less.prems(1)]
        not_stuck_step [OF step lists less.prems(2)]]
    show ?thesis using step by (meson converse_rtranclp_into_rtranclp)
  qed
qed

section \<open>What a cycle may change\<close>

definition k8s_listed :: "k8s_env \<Rightarrow> string list \<Rightarrow> bool" where
  "k8s_listed k8s hs \<longleftrightarrow>
     (\<exists>h allPVs. ans_ListPVs k8s h = Inr allPVs \<and> hs = map pv_handle (filter inDesiredState allPVs))"

text \<open>
  The changes a plan allows: the deletion (not of the disk) of a planned volume that a second listing
  of the PVs does not have, the creation of a planned volume that a second listing still has, a planned
  update.
\<close>

definition allowed :: "env \<Rightarrow> k8s_env \<Rightarrow> plan \<Rightarrow> call \<Rightarrow> bool" where
  "allowed env k8s p c \<longleftrightarrow>
     (\<exists>vol \<in> set (volToBeDeleted p). is_delete (vol, False) c \<and> (\<exists>hs. k8s_listed k8s hs \<and> vol \<notin> set hs)) \<or>
     (\<exists>spec \<in> set (createSpecArray p). is_create env spec c \<and>
        (\<exists>hs. k8s_listed k8s hs \<and> BackingDiskId (create_Backing spec) \<in> set hs)) \<or>
     (\<exists>u \<in> set (updateSpecArray p). is_update env u c)"

lemma emits_fullSyncDeleteVolume:
  "emits (changesOnly (\<lambda>c. is_delete (vol, False) c \<and> vol \<notin> set current))
     (fullSyncDeleteVolume env ms current vol)"
  unfolding fullSyncDeleteVolume_def Let_def
  by (intro emits_rules | simp add: changesOnly_def)+

lemma emits_fullSyncCreateVolume:
  "emits (changesOnly (\<lambda>c. is_create env spec c \<and> BackingDiskId (create_Backing spec) \<in> set current))
     (fullSyncCreateVolume env ms current spec)"
  unfolding fullSyncCreateVolume_def Let_def
  by (intro emits_rules | simp add: changesOnly_def)+

lemma emits_fullSyncUpdateVolume:
  "emits (changesOnly (is_update env u)) (fullSyncUpdateVolume env ms u)"
  unfolding fullSyncUpdateVolume_def
  by (intro emits_rules | simp add: changesOnly_def)+

text \<open>A cycle only adds allowed calls to the trace, and what a goroutine listed was a listing.\<close>

definition trace_inv :: "env \<Rightarrow> k8s_env \<Rightarrow> plan \<Rightarrow> call list \<Rightarrow> 'z cycle \<Rightarrow> bool" where
  "trace_inv env k8s p tr c \<longleftrightarrow>
     (\<exists>ks. trace (sync c) = tr @ ks \<and> list_all (changesOnly (allowed env k8s p)) ks) \<and>
     (\<forall>hs. createPhase c = Running hs \<longrightarrow> k8s_listed k8s hs) \<and>
     (\<forall>hs. deletePhase c = Running hs \<longrightarrow> k8s_listed k8s hs)"

lemma trace_inv_run:
  assumes "emits P m" and "run_state m s = (r, s')" and "\<And>c. P c \<Longrightarrow> changesOnly does c"
    and "\<exists>ks. trace s = tr @ ks \<and> list_all (changesOnly does) ks"
  shows "\<exists>ks. trace s' = tr @ ks \<and> list_all (changesOnly does) ks"
proof -
  from assms(1,2) obtain ks where "trace s' = trace s @ ks" "list_all P ks" by (rule emitsE)
  with assms(3,4) show ?thesis by (force simp: list_all_iff)
qed

lemma getPVs_listed:
  "run_state (getPVsInBoundAvailableOrReleased k8s) s = (Inr pvs, s') \<Longrightarrow> k8s_listed k8s (map pv_handle pvs)"
  by (auto simp: k8s_listed_def dest!: getPVs_Inr)

lemma reads_getPVs: "emits (\<lambda>c. \<not> cns_mutation c) (getPVsInBoundAvailableOrReleased k8s)"
  by (intro emits_rules) simp

lemma trace_inv_step:
  assumes step: "sync_step env k8s ms c c'" and inv: "cycle_inv p c" "trace_inv env k8s p tr c"
  shows "trace_inv env k8s p tr c'"
  using step
proof (cases rule: sync_step.cases)
  case (create_lock pvs s')
  from trace_inv_run [OF reads_getPVs create_lock(5)] getPVs_listed [OF create_lock(5)] inv create_lock(1)
  show ?thesis by (auto simp: trace_inv_def)
next
  case (create_return err s')
  from trace_inv_run [OF reads_getPVs create_return(5)] inv create_return(1)
  show ?thesis by (auto simp: trace_inv_def)
next
  case (create_volume current spec todo r s')
  then have "spec \<in> set (createSpecArray p)" "k8s_listed k8s current"
    using inv by (auto simp: cycle_inv_def trace_inv_def)
  then have "changesOnly (allowed env k8s p) k"
    if "changesOnly (\<lambda>c. is_create env spec c \<and> BackingDiskId (create_Backing spec) \<in> set current) k" for k
    using that by (elim changesOnly_mono) (auto simp: allowed_def)
  from trace_inv_run [OF emits_fullSyncCreateVolume create_volume(5) this] inv create_volume(1)
  show ?thesis by (auto simp: trace_inv_def)
next
  case (delete_lock pvs s')
  from trace_inv_run [OF reads_getPVs delete_lock(5)] getPVs_listed [OF delete_lock(5)] inv delete_lock(1)
  show ?thesis by (auto simp: trace_inv_def)
next
  case (delete_return err s')
  from trace_inv_run [OF reads_getPVs delete_return(5)] inv delete_return(1)
  show ?thesis by (auto simp: trace_inv_def)
next
  case (delete_volume current vol todo r s')
  then have "vol \<in> set (volToBeDeleted p)" "k8s_listed k8s current"
    using inv by (auto simp: cycle_inv_def trace_inv_def)
  then have "changesOnly (allowed env k8s p) k"
    if "changesOnly (\<lambda>c. is_delete (vol, False) c \<and> vol \<notin> set current) k" for k
    using that by (elim changesOnly_mono) (auto simp: allowed_def)
  from trace_inv_run [OF emits_fullSyncDeleteVolume delete_volume(5) this] inv delete_volume(1)
  show ?thesis by (auto simp: trace_inv_def)
next
  case (update_volume u todo r s')
  then have "u \<in> set (updateSpecArray p)" using inv by (auto simp: cycle_inv_def)
  then have "changesOnly (allowed env k8s p) k" if "changesOnly (is_update env u) k" for k
    using that by (elim changesOnly_mono) (auto simp: allowed_def)
  from trace_inv_run [OF emits_fullSyncUpdateVolume update_volume(5) this] inv update_volume(1)
  show ?thesis by (auto simp: trace_inv_def)
qed (use inv in \<open>auto simp: trace_inv_def\<close>)

lemma trace_inv_steps:
  assumes "(sync_step env k8s ms)\<^sup>*\<^sup>* (startCycle p s) c"
  shows "trace_inv env k8s p (trace s) c"
proof -
  have "cycle_inv p c \<and> trace_inv env k8s p (trace s) c"
    using assms
  proof (induction rule: rtranclp_induct)
    case base then show ?case by (simp add: cycle_inv_start) (simp add: trace_inv_def startCycle_def)
  next
    case step then show ?case by (blast intro: cycle_inv_step trace_inv_step)
  qed
  then show ?thesis ..
qed

text \<open>The goroutines remove entries of planned volumes from the two maps, and nothing else.\<close>

definition shrunk :: "string set \<Rightarrow> (string \<rightharpoonup> bool) \<Rightarrow> (string \<rightharpoonup> bool) \<Rightarrow> bool" where
  "shrunk A m m' \<longleftrightarrow> (\<forall>v. m' v = m v \<or> v \<in> A \<and> m' v = None)"

definition map_inv :: "plan \<Rightarrow> 'z syncer_scheme \<Rightarrow> 'z syncer_scheme \<Rightarrow> bool" where
  "map_inv p s0 s \<longleftrightarrow>
     shrunk (set (volToBeDeleted p)) (cnsDeletionMap s0) (cnsDeletionMap s) \<and>
     shrunk (BackingDiskId ` create_Backing ` set (createSpecArray p)) (cnsCreationMap s0) (cnsCreationMap s)"

lemma shrunk_forget: "shrunk A m m' \<Longrightarrow> v \<in> A \<Longrightarrow> shrunk A m (m'(v := None))"
  by (auto simp: shrunk_def)

lemma steady_map_inv [simp]: "steady (map_inv p s0)"
  by (rule steadyI) (simp_all add: map_inv_def)

lemma keeps_map_inv_manager:
  assumes "\<And>m. keeps (map_inv p s0) (operation m)"
  shows "keeps (map_inv p s0) (manager ms operation)"
  unfolding manager_def GetManager_def
  by (intro keeps_rules assms) (simp add: map_inv_def)

lemma map_inv_delete:
  assumes "vol \<in> set (volToBeDeleted p)"
  shows "keeps (map_inv p s0) (fullSyncDeleteVolume env ms current vol)"
  unfolding fullSyncDeleteVolume_def Let_def
  by (intro keeps_rules keeps_map_inv_manager steady_manager)
     (simp_all add: map_inv_def shrunk_forget assms)

lemma map_inv_create:
  assumes "spec \<in> set (createSpecArray p)"
  shows "keeps (map_inv p s0) (fullSyncCreateVolume env ms current spec)"
proof (cases "create_Backing spec")
  case (BackingObjectDetails c)
  then show ?thesis by (simp add: fullSyncCreateVolume_def keeps_return)
next
  case (BlockBackingDetails d)
  have "BackingDiskId (create_Backing spec) \<in> BackingDiskId ` create_Backing ` set (createSpecArray p)"
    using assms by blast
  then have "d \<in> BackingDiskId ` create_Backing ` set (createSpecArray p)"
    using BlockBackingDetails by simp
  then show ?thesis
    unfolding fullSyncCreateVolume_def Let_def BlockBackingDetails backing_details.case
    by (intro keeps_rules keeps_map_inv_manager steady_manager)
       (simp_all add: map_inv_def shrunk_forget)
qed

lemma map_inv_update: "keeps (map_inv p s0) (fullSyncUpdateVolume env ms u)"
  unfolding fullSyncUpdateVolume_def
  by (intro keeps_rules keeps_map_inv_manager steady_manager) simp

lemma map_inv_step:
  assumes step: "sync_step env k8s ms c c'" and inv: "cycle_inv p c" "map_inv p s0 (sync c)"
  shows "map_inv p s0 (sync c')"
proof -
  have list: "keeps (map_inv p s0) (getPVsInBoundAvailableOrReleased k8s)"
    unfolding getPVsInBoundAvailableOrReleased_def by (intro keeps_bindE keeps_return steady_perform) simp
  show ?thesis
    using step inv
    by (elim sync_stepE)
       (auto simp: cycle_inv_def dest: keepsD [OF list] keepsD [OF map_inv_delete]
          keepsD [OF map_inv_create] keepsD [OF map_inv_update])
qed

lemma map_inv_steps:
  assumes "(sync_step env k8s ms)\<^sup>*\<^sup>* (startCycle p s) c"
  shows "map_inv p s (sync c)"
proof -
  have "cycle_inv p c \<and> map_inv p s (sync c)"
    using assms
  proof (induction rule: rtranclp_induct)
    case base then show ?case by (simp add: cycle_inv_start) (simp add: map_inv_def shrunk_def startCycle_def)
  next
    case step then show ?case by (blast intro: cycle_inv_step map_inv_step)
  qed
  then show ?thesis ..
qed

section \<open>A whole cycle\<close>

definition cns_listed :: "env \<Rightarrow> MetadataSyncInformer \<Rightarrow> string list \<Rightarrow> bool" where
  "cns_listed env ms ids \<longleftrightarrow>
     (\<exists>f h vols. filter_ContainerClusterIds f = [Global_ClusterID (cfg ms)] \<and>
        ans_CnsQueryAll env f h = Inr vols \<and> ids = map vol_Id vols)"

lemma prepareFullSync_None:
  assumes run: "run_state (prepareFullSync env k8s ms) s = (Inr None, s')"
  shows "sync_maps s' = sync_maps s"
proof -
  let ?q = "manager ms (\<lambda>m. QueryAllVolume env m
    \<lparr>filter_VolumeIds = [], filter_ContainerClusterIds = [Global_ClusterID (cfg ms)]\<rparr>)"
  obtain r1 s1 where pvs: "run_state (getPVsInBoundAvailableOrReleased k8s) s = (r1, s1)" by fastforce
  have s1: "sync_maps s1 = sync_maps s"
    using keepsD [OF keeps_getPVs pvs, of "sync_maps s"] by (simp add: maps_are_def)
  show ?thesis
  proof (cases r1)
    case (Inl e) with run pvs s1 show ?thesis by (auto simp: prepareFullSync_def split: error.splits)
  next
    case (Inr k8sPVs)
    with run pvs obtain pvcs pods s2 r3 s3 where
        maps: "run_state (buildMaps k8s k8sPVs Map.empty Map.empty) s1 = (Inr (pvcs, pods), s2)"
      and query: "run_state ?q s2 = (r3, s3)"
      by (auto simp: prepareFullSync_def buildPVCMapPodMap_def split: prod.splits sum.splits error.splits)
    have s2: "sync_maps s2 = sync_maps s1"
      using keepsD [OF keeps_buildMaps maps, of "sync_maps s1"] by (simp add: maps_are_def)
    have s3: "sync_maps s3 = sync_maps s2"
      by (rule manager_maps [OF _ query]) (rule steady_manager, simp)
    show ?thesis
      using run pvs Inr maps query s1 s2 s3
      by (auto simp: prepareFullSync_def buildPVCMapPodMap_def split: prod.splits sum.splits error.splits)
  qed
qed

lemma triggerFullSync_cases:
  assumes "triggerFullSync env k8s ms s s'" and "unique_volumes env"
  obtains (nothing) "run_state (prepareFullSync env k8s ms) s = (Inr None, s')" and "sync_maps s' = sync_maps s" and "\<And>c. c \<in> new_calls s s' \<Longrightarrow> \<not> cns_mutation c"
  | (cycle) pvs ids p s1 t where "k8s_listed k8s (map pv_handle pvs)" and "cns_listed env ms ids"
    and "planned pvs ids s p s1" and "map_inv p s1 t" and "s' = cleanupCnsMaps (k8sPVsMap p) t"
    and "\<And>c. c \<in> new_calls s s' \<Longrightarrow> changesOnly (allowed env k8s p) c"
    and "run_state (prepareFullSync env k8s ms) s = (Inr (Some p), s1)"
  using assms(1)
proof (cases rule: triggerFullSync.cases)
  case gave_up
  from emits_prepareFullSync gave_up obtain ks where "trace s' = trace s @ ks" "list_all (\<lambda>c. \<not> cns_mutation c) ks"
    by (rule emitsE)
  then have "\<not> cns_mutation c" if "c \<in> new_calls s s'" for c
    using that by (auto simp: new_calls_def list_all_iff)
  with gave_up prepareFullSync_None [OF gave_up] show ?thesis by (rule nothing)
next
  case (complete p s1 c)
  obtain allPVs f h vols where
      all: "ans_ListPVs k8s (trace s) = Inr allPVs" and vols: "ans_CnsQueryAll env f h = Inr vols"
    and f: "filter_ContainerClusterIds f = [Global_ClusterID (cfg ms)]"
    and planned: "planned (filter inDesiredState allPVs) (map vol_Id vols) s p s1"
    using prepareFullSync_planned [OF complete(2) assms(2)] by blast
  from emits_prepareFullSync complete(2) obtain ks where
    ks: "trace s1 = trace s @ ks" "list_all (\<lambda>c. \<not> cns_mutation c) ks" by (rule emitsE)
  from trace_inv_steps [OF complete(3)] obtain ks' where
    ks': "trace (sync c) = trace s1 @ ks'" "list_all (changesOnly (allowed env k8s p)) ks'"
    by (auto simp: trace_inv_def)
  have calls: "changesOnly (allowed env k8s p) k" if "k \<in> new_calls s s'" for k
    using that ks ks' by (auto simp: new_calls_def complete(1) cleanupCnsMaps_def list_all_iff)
  show ?thesis
  proof (rule cycle)
    show "k8s_listed k8s (map pv_handle (filter inDesiredState allPVs))" using all by (auto simp: k8s_listed_def)
    show "cns_listed env ms (map vol_Id vols)" using vols f by (auto simp: cns_listed_def)
  qed (use planned map_inv_steps [OF complete(3)] complete(1,2) calls in auto)
qed

lemma planned_create:
  assumes "planned pvs ids s p s1" and "spec \<in> set (createSpecArray p)"
  obtains h where "create_Backing spec = BlockBackingDetails h" and "h \<in> set (map pv_handle pvs)"
    and "h \<notin> set ids" and "cnsCreationMap s h \<noteq> None \<or> 2 \<le> count_list (map pv_handle pvs) h"
proof -
  have "create_Backing spec \<in> set (map create_Backing (createSpecArray p))" using assms(2) by simp
  then have "create_Backing spec \<in> set (map (\<lambda>q. BlockBackingDetails (pv_handle q))
      (filter (\<lambda>q. create_due (map pv_handle pvs) ids (cnsCreationMap s) (pv_handle q)) pvs))"
    using assms(1) unfolding planned_def by simp
  then obtain q where "q \<in> set pvs" "create_Backing spec = BlockBackingDetails (pv_handle q)"
    and "create_due (map pv_handle pvs) ids (cnsCreationMap s) (pv_handle q)" by auto
  then have "q \<in> set pvs" "create_Backing spec = BlockBackingDetails (pv_handle q)" "pv_handle q \<notin> set ids"
    "cnsCreationMap s (pv_handle q) \<noteq> None \<or> 2 \<le> count_list (map pv_handle pvs) (pv_handle q)"
    by (simp_all add: create_due_def)
  with that show ?thesis by simp
qed

text \<open>Why a cycle gives up: Kubernetes did not list the PVs, or CNS not the volumes.\<close>

definition listing_failed :: "env \<Rightarrow> k8s_env \<Rightarrow> MetadataSyncInformer \<Rightarrow> 'z syncer_scheme \<Rightarrow> bool" where
  "listing_failed env k8s ms s \<longleftrightarrow> (\<exists>err. ans_ListPVs k8s (trace s) = Inl err) \<or>
     (\<exists>t err t'. prefix (trace s) (trace t) \<and> run_state (manager ms (\<lambda>m. QueryAllVolume env m
        \<lparr>filter_VolumeIds = [], filter_ContainerClusterIds = [Global_ClusterID (cfg ms)]\<rparr>))
        (t :: 'z syncer_scheme) = (Inl err, t'))"

lemma prepareFullSync_failed:
  assumes run: "run_state (prepareFullSync env k8s ms) s = (Inr None, s')"
  shows "listing_failed env k8s ms s"
proof -
  let ?q = "manager ms (\<lambda>m. QueryAllVolume env m
    \<lparr>filter_VolumeIds = [], filter_ContainerClusterIds = [Global_ClusterID (cfg ms)]\<rparr>)"
  obtain r1 s1 where pvs: "run_state (getPVsInBoundAvailableOrReleased k8s) s = (r1, s1)" by fastforce
  show ?thesis
  proof (cases r1)
    case (Inl e)
    with pvs show ?thesis
      by (auto simp: listing_failed_def getPVsInBoundAvailableOrReleased_def split: sum.splits)
  next
    case (Inr k8sPVs)
    with run pvs obtain pvcs pods s2 err s3 where
        maps: "run_state (buildMaps k8s k8sPVs Map.empty Map.empty) s1 = (Inr (pvcs, pods), s2)"
      and query: "run_state ?q s2 = (Inl err, s3)"
      by (auto simp: prepareFullSync_def buildPVCMapPodMap_def split: prod.splits sum.splits error.splits)
    have "emits (\<lambda>_. True) (buildMaps k8s k8sPVs Map.empty Map.empty)" by (intro emits_rules) simp_all
    then obtain ks where "trace s2 = trace s1 @ ks" using maps by (rule emitsE)
    moreover have "prefix (trace s) (trace s1)"
      using getPVs_Inr pvs Inr by fastforce
    ultimately have "prefix (trace s) (trace s2)" by (simp add: prefix_def) force
    with query show ?thesis unfolding listing_failed_def by blast
  qed
qed

text \<open>
  What a plan, the goroutines and the cleanup leave in the two maps; \<open>s\<close> is the state before the cycle,
  \<open>t\<close> the one the goroutines leave.
\<close>

lemma plan_records:
  assumes plan: "planned pvs listed s p s1" and inv: "map_inv p s1 t"
  defines "hs \<equiv> map pv_handle pvs" and "s' \<equiv> cleanupCnsMaps (k8sPVsMap p) t"
  shows "v \<notin> set hs \<and> v \<in> set listed \<and> cnsDeletionMap s v = None \<longrightarrow> cnsDeletionMap s' v \<noteq> None"
    and "h \<in> set hs \<and> h \<notin> set listed \<and> cnsCreationMap s h = None \<and> count_list hs h = 1 \<longrightarrow> cnsCreationMap s' h \<noteq> None"
    and "cnsDeletionMap s' v \<noteq> None \<longrightarrow> v \<notin> set hs \<and> (v \<in> set listed \<or> cnsDeletionMap s v \<noteq> None)"
    and "cnsCreationMap s' h \<noteq> None \<longrightarrow> h \<in> set hs \<and> (h \<notin> set listed \<or> cnsCreationMap s h \<noteq> None)"
    and "cnsDeletionMap s v \<noteq> None \<and> v \<notin> set hs \<and> v \<notin> set (volToBeDeleted p) \<longrightarrow> cnsDeletionMap s' v \<noteq> None"
    and "cnsCreationMap s h \<noteq> None \<and> h \<in> set hs \<and> h \<notin> BackingDiskId ` create_Backing ` set (createSpecArray p) \<longrightarrow>
      cnsCreationMap s' h \<noteq> None"
proof -
  have K: "k8sPVsMap p v = None \<longleftrightarrow> v \<notin> set hs" for v
    using plan unfolding planned_def hs_def by (metis domIff)
  have s1: "cnsDeletionMap s1 v \<noteq> None \<longleftrightarrow> v \<in> set listed \<and> v \<notin> set hs \<or> cnsDeletionMap s v \<noteq> None"
    "cnsCreationMap s1 v \<noteq> None \<longleftrightarrow> v \<in> set hs \<and> v \<notin> set listed \<or> cnsCreationMap s v \<noteq> None" for v
    using plan by (auto simp: planned_def hs_def)
  have t: "cnsDeletionMap t v = cnsDeletionMap s1 v \<or> v \<in> set (volToBeDeleted p) \<and> cnsDeletionMap t v = None"
    "cnsCreationMap t v = cnsCreationMap s1 v \<or>
     v \<in> BackingDiskId ` create_Backing ` set (createSpecArray p) \<and> cnsCreationMap t v = None" for v
    using inv by (auto simp: map_inv_def shrunk_def)
  have s': "cnsDeletionMap s' v = (if v \<in> set hs then None else cnsDeletionMap t v)"
    "cnsCreationMap s' v = (if v \<in> set hs then cnsCreationMap t v else None)" for v
    using K [of v] by (auto simp: s'_def cleanupCnsMaps_def)
  have due: "h \<in> BackingDiskId ` create_Backing ` set (createSpecArray p) \<Longrightarrow>
      cnsCreationMap s h \<noteq> None \<or> 2 \<le> count_list hs h"
    by (auto simp: hs_def elim!: planned_create [OF plan])
  have del: "v \<in> set (volToBeDeleted p) \<Longrightarrow> cnsDeletionMap s v \<noteq> None" using plan by (simp add: planned_def)
  show "v \<notin> set hs \<and> v \<in> set listed \<and> cnsDeletionMap s v = None \<longrightarrow> cnsDeletionMap s' v \<noteq> None"
    and "cnsDeletionMap s' v \<noteq> None \<longrightarrow> v \<notin> set hs \<and> (v \<in> set listed \<or> cnsDeletionMap s v \<noteq> None)"
    and "cnsDeletionMap s v \<noteq> None \<and> v \<notin> set hs \<and> v \<notin> set (volToBeDeleted p) \<longrightarrow> cnsDeletionMap s' v \<noteq> None"
    using s1(1) [of v] t(1) [of v] s'(1) [of v] del by (auto split: if_splits)
  show "h \<in> set hs \<and> h \<notin> set listed \<and> cnsCreationMap s h = None \<and> count_list hs h = 1 \<longrightarrow> cnsCreationMap s' h \<noteq> None"
    and "cnsCreationMap s' h \<noteq> None \<longrightarrow> h \<in> set hs \<and> (h \<notin> set listed \<or> cnsCreationMap s h \<noteq> None)"
    and "cnsCreationMap s h \<noteq> None \<and> h \<in> set hs \<and> h \<notin> BackingDiskId ` create_Backing ` set (createSpecArray p) \<longrightarrow>
      cnsCreationMap s' h \<noteq> None"
    using s1(2) [of h] t(2) [of h] s'(2) [of h] due by (auto split: if_splits)
qed

section \<open>The plan is carried out\<close>

text \<open>A program was executed, as one step of a goroutine, between two states of a cycle.\<close>

definition executed ::
  "env \<Rightarrow> k8s_env \<Rightarrow> MetadataSyncInformer \<Rightarrow> 'z cycle \<Rightarrow> 'z cycle \<Rightarrow> ('z, unit) syncE \<Rightarrow> bool" where
  "executed env k8s ms c0 c program \<longleftrightarrow> (\<exists>c1 c2. (sync_step env k8s ms)\<^sup>*\<^sup>* c0 c1 \<and> sync_step env k8s ms c1 c2 \<and>
     run_state program (sync c1) = (Inr (), sync c2) \<and> (sync_step env k8s ms)\<^sup>*\<^sup>* c2 c)"

lemma executed_step:
  "executed env k8s ms c0 c program \<Longrightarrow> sync_step env k8s ms c c' \<Longrightarrow> executed env k8s ms c0 c' program"
  unfolding executed_def by (meson rtranclp.rtrancl_into_rtrancl)

lemma executed_now:
  "(sync_step env k8s ms)\<^sup>*\<^sup>* c0 c \<Longrightarrow> sync_step env k8s ms c c' \<Longrightarrow>
   run_state program (sync c) = (Inr (), sync c') \<Longrightarrow> executed env k8s ms c0 c' program"
  unfolding executed_def by blast

text \<open>Every item of the plan is still to do or was executed, and a goroutine that is done has nothing left to do.\<close>

definition carried ::
  "env \<Rightarrow> k8s_env \<Rightarrow> MetadataSyncInformer \<Rightarrow> plan \<Rightarrow> 'z cycle \<Rightarrow> 'z cycle \<Rightarrow> bool" where
  "carried env k8s ms p c0 c \<longleftrightarrow>
     (\<forall>vol \<in> set (volToBeDeleted p) - set (deleteTodo c). \<exists>hs. k8s_listed k8s hs \<and>
        executed env k8s ms c0 c (fullSyncDeleteVolume env ms hs vol)) \<and>
     (\<forall>spec \<in> set (createSpecArray p) - set (createTodo c). \<exists>hs. k8s_listed k8s hs \<and>
        executed env k8s ms c0 c (fullSyncCreateVolume env ms hs spec)) \<and>
     (\<forall>u \<in> set (updateSpecArray p) - set (updateTodo c).
        executed env k8s ms c0 c (fullSyncUpdateVolume env ms u)) \<and>
     (deletePhase c = Finished \<longrightarrow> deleteTodo c = []) \<and> (createPhase c = Finished \<longrightarrow> createTodo c = []) \<and>
     (updateDone c \<longrightarrow> updateTodo c = [])"

lemma no_error_iff: "(\<forall>err. r \<noteq> Inl err) \<longleftrightarrow> r = Inr ()"
  by (cases r) auto

lemma todo_step:
  assumes "sync_step env k8s ms c c'"
  shows "deleteTodo c' = deleteTodo c \<or> (\<exists>vol hs. deletePhase c = Running hs \<and> deleteTodo c = vol # deleteTodo c')"
    and "createTodo c' = createTodo c \<or> (\<exists>spec hs. createPhase c = Running hs \<and> createTodo c = spec # createTodo c')"
    and "updateTodo c' = updateTodo c \<or> (\<exists>u. updateTodo c = u # updateTodo c')"
  using assms by (auto elim!: sync_stepE)

lemma done_step:
  assumes "sync_step env k8s ms c c'"
  shows "deletePhase c' = Finished \<Longrightarrow> (deletePhase c = Finished \<longrightarrow> deleteTodo c = []) \<Longrightarrow> deleteTodo c' = []"
    and "createPhase c' = Finished \<Longrightarrow> (createPhase c = Finished \<longrightarrow> createTodo c = []) \<Longrightarrow> createTodo c' = []"
    and "updateDone c' \<Longrightarrow> (updateDone c \<longrightarrow> updateTodo c = []) \<Longrightarrow> updateTodo c' = []"
  using assms by (auto elim!: sync_stepE)

lemma execute_step:
  assumes "(sync_step env k8s ms)\<^sup>*\<^sup>* c0 c" and step: "sync_step env k8s ms c c'" and "\<not> crashed c'"
  shows "deletePhase c = Running hs \<Longrightarrow> deleteTodo c = vol # deleteTodo c' \<Longrightarrow>
      executed env k8s ms c0 c' (fullSyncDeleteVolume env ms hs vol)"
    and "createPhase c = Running hs \<Longrightarrow> createTodo c = spec # createTodo c' \<Longrightarrow>
      executed env k8s ms c0 c' (fullSyncCreateVolume env ms hs spec)"
    and "updateTodo c = u # updateTodo c' \<Longrightarrow> executed env k8s ms c0 c' (fullSyncUpdateVolume env ms u)"
proof -
  note now = executed_now [OF assms(1,2)]
  show "executed env k8s ms c0 c' (fullSyncDeleteVolume env ms hs vol)"
    if "deletePhase c = Running hs" "deleteTodo c = vol # deleteTodo c'"
    using step that assms(3) now [of "fullSyncDeleteVolume env ms hs vol"] by (elim sync_stepE) (auto simp: no_error_iff)
  show "executed env k8s ms c0 c' (fullSyncCreateVolume env ms hs spec)"
    if "createPhase c = Running hs" "createTodo c = spec # createTodo c'"
    using step that assms(3) now [of "fullSyncCreateVolume env ms hs spec"] by (elim sync_stepE) (auto simp: no_error_iff)
  show "executed env k8s ms c0 c' (fullSyncUpdateVolume env ms u)" if "updateTodo c = u # updateTodo c'"
    using step that assms(3) now [of "fullSyncUpdateVolume env ms u"] by (elim sync_stepE) (auto simp: no_error_iff)
qed

lemma carried_step:
  assumes steps: "(sync_step env k8s ms)\<^sup>*\<^sup>* c0 c" and step: "sync_step env k8s ms c c'"
    and trace: "trace_inv env k8s p tr c" and inv: "carried env k8s ms p c0 c" and ok: "\<not> crashed c'"
  shows "carried env k8s ms p c0 c'"
proof -
  note exec = executed_step [OF _ step] and now = execute_step [OF steps step ok]
  have "\<exists>hs. k8s_listed k8s hs \<and> executed env k8s ms c0 c' (fullSyncDeleteVolume env ms hs vol)"
    if "vol \<in> set (volToBeDeleted p)" "vol \<notin> set (deleteTodo c')" for vol
  proof (cases "vol \<in> set (deleteTodo c)")
    case True
    with todo_step(1) [OF step] that(2) obtain hs where "deletePhase c = Running hs" "deleteTodo c = vol # deleteTodo c'"
      by auto
    with now(1) trace show ?thesis by (auto simp: trace_inv_def)
  next
    case False
    with inv that(1) obtain hs where "k8s_listed k8s hs" "executed env k8s ms c0 c (fullSyncDeleteVolume env ms hs vol)"
      unfolding carried_def by blast
    with exec show ?thesis by blast
  qed
  moreover have "\<exists>hs. k8s_listed k8s hs \<and> executed env k8s ms c0 c' (fullSyncCreateVolume env ms hs spec)"
    if "spec \<in> set (createSpecArray p)" "spec \<notin> set (createTodo c')" for spec
  proof (cases "spec \<in> set (createTodo c)")
    case True
    with todo_step(2) [OF step] that(2) obtain hs where "createPhase c = Running hs" "createTodo c = spec # createTodo c'"
      by auto
    with now(2) trace show ?thesis by (auto simp: trace_inv_def)
  next
    case False
    with inv that(1) obtain hs where "k8s_listed k8s hs" "executed env k8s ms c0 c (fullSyncCreateVolume env ms hs spec)"
      unfolding carried_def by blast
    with exec show ?thesis by blast
  qed
  moreover have "executed env k8s ms c0 c' (fullSyncUpdateVolume env ms u)"
    if "u \<in> set (updateSpecArray p)" "u \<notin> set (updateTodo c')" for u
    using that todo_step(3) [OF step] now(3) [of u] inv exec
    by (cases "u \<in> set (updateTodo c)") (auto simp: carried_def)
  ultimately show ?thesis
    using done_step [OF step] inv unfolding carried_def by blast
qed

lemma carried_steps:
  assumes "(sync_step env k8s ms)\<^sup>*\<^sup>* (startCycle p s) c" and "\<not> crashed c"
  shows "carried env k8s ms p (startCycle p s) c"
  using assms
proof (induction rule: rtranclp_induct)
  case base
  show ?case by (simp add: carried_def startCycle_def)
next
  case (step c c')
  then have "\<not> crashed c" by (auto elim: sync_stepE)
  with step carried_step [OF step.hyps trace_inv_steps [OF step.hyps(1)]] show ?case by blast
qed

section \<open>One schedule as a program\<close>

text \<open>
  The goroutines as whole programs; the result says whether \<^verbatim>\<open>wg.Done()\<close> was called. Running them one
  after the other is one of the schedules of the step relation, and an executable one.
\<close>

definition fullSyncCreateVolumes ::
  "env \<Rightarrow> k8s_env \<Rightarrow> MetadataSyncInformer \<Rightarrow> create_spec list \<Rightarrow> ('z, bool) syncE" where
  "fullSyncCreateVolumes env k8s ms specs = do {
     r \<leftarrow> getPVsInBoundAvailableOrReleased k8s;
     case r of
       Inl _ \<Rightarrow> State_Monad.return (Inr False)
     | Inr currentK8sPV \<Rightarrow>
         bindE (forE (fullSyncCreateVolume env ms (map pv_handle currentK8sPV)) specs)
           (\<lambda>_. State_Monad.return (Inr True))
   }"

definition fullSyncDeleteVolumes ::
  "env \<Rightarrow> k8s_env \<Rightarrow> MetadataSyncInformer \<Rightarrow> string list \<Rightarrow> ('z, bool) syncE" where
  "fullSyncDeleteVolumes env k8s ms ids = do {
     r \<leftarrow> getPVsInBoundAvailableOrReleased k8s;
     case r of
       Inl _ \<Rightarrow> State_Monad.return (Inr False)
     | Inr currentK8sPV \<Rightarrow>
         bindE (forE (fullSyncDeleteVolume env ms (map pv_handle currentK8sPV)) ids)
           (\<lambda>_. State_Monad.return (Inr True))
   }"

definition fullSyncUpdateVolumes ::
  "env \<Rightarrow> MetadataSyncInformer \<Rightarrow> update_spec list \<Rightarrow> ('z, bool) syncE" where
  "fullSyncUpdateVolumes env ms specs =
     bindE (forE (fullSyncUpdateVolume env ms) specs) (\<lambda>_. State_Monad.return (Inr True))"

definition sequentialFullSync ::
  "env \<Rightarrow> k8s_env \<Rightarrow> MetadataSyncInformer \<Rightarrow> ('z, bool) syncE" where
  "sequentialFullSync env k8s ms =
     bindE (prepareFullSync env k8s ms) (\<lambda>prepared.
       case prepared of
         None \<Rightarrow> State_Monad.return (Inr True)
       | Some p \<Rightarrow>
           bindE (fullSyncCreateVolumes env k8s ms (createSpecArray p)) (\<lambda>created.
           bindE (fullSyncDeleteVolumes env k8s ms (volToBeDeleted p)) (\<lambda>deleted.
           bindE (fullSyncUpdateVolumes env ms (updateSpecArray p)) (\<lambda>updated.
           if created \<and> deleted \<and> updated
           then do { assign (cleanupCnsMaps (k8sPVsMap p)); State_Monad.return (Inr True) }
           else State_Monad.return (Inr False)))))"

lemma loop_steps:
  assumes iteration: "\<And>x xs s u s1. run_state (body x) s = (Inr u, s1) \<Longrightarrow> step (C s (x # xs)) (C s1 xs)"
  shows "run_state (forE body xs) s = (Inr (), s') \<Longrightarrow> step\<^sup>*\<^sup>* (C s xs) (C s' [])"
proof (induction xs arbitrary: s)
  case (Cons x xs)
  from Cons.prems obtain u s1 where x: "run_state (body x) s = (Inr u, s1)"
    and xs: "run_state (forE body xs) s1 = (Inr (), s')"
    unfolding forE.simps by (rule bindE_Inr)
  from iteration [OF x] Cons.IH [OF xs] show ?case by (rule converse_rtranclp_into_rtranclp)
qed simp

lemma create_runs:
  assumes "run_state (fullSyncCreateVolumes env k8s ms specs) s = (Inr True, s')"
    and c: "\<not> crashed c" "createPhase c = Waiting" "\<not> locked c"
  shows "(sync_step env k8s ms)\<^sup>*\<^sup>* (c\<lparr>sync := s, createTodo := specs\<rparr>)
    (c\<lparr>sync := s', createTodo := [], createPhase := Finished, wg := wg c - 1\<rparr>)"
proof -
  from assms(1) obtain pvs s1 where
      list: "run_state (getPVsInBoundAvailableOrReleased k8s) s = (Inr pvs, s1)"
    and loop: "run_state (forE (fullSyncCreateVolume env ms (map pv_handle pvs)) specs) s1 = (Inr (), s')"
    by (auto simp: fullSyncCreateVolumes_def split: prod.splits sum.splits)
  define C where "C s xs = c\<lparr>sync := s, createTodo := xs, locked := True,
    createPhase := Running (map pv_handle pvs)\<rparr>" for s xs
  have "sync_step env k8s ms (c\<lparr>sync := s, createTodo := specs\<rparr>) (C s1 specs)"
    using sync_step.create_lock [of "c\<lparr>sync := s, createTodo := specs\<rparr>" k8s pvs s1 env ms] list c
    by (cases c) (simp add: C_def)
  moreover have "(sync_step env k8s ms)\<^sup>*\<^sup>* (C s1 specs) (C s' [])"
  proof (rule loop_steps [OF _ loop])
    fix spec xs u and s s1 :: "'a syncer_scheme"
    assume "run_state (fullSyncCreateVolume env ms (map pv_handle pvs) spec) s = (Inr u, s1)"
    then show "sync_step env k8s ms (C s (spec # xs)) (C s1 xs)"
      using sync_step.create_volume [of "C s (spec # xs)" "map pv_handle pvs" spec xs env ms "Inr u" s1 k8s] c
      by (cases c) (simp add: C_def)
  qed
  moreover have "sync_step env k8s ms (C s' [])
      (c\<lparr>sync := s', createTodo := [], createPhase := Finished, wg := wg c - 1\<rparr>)"
    using sync_step.create_done [of "C s' []" "map pv_handle pvs" env k8s ms] c
    by (cases c) (simp add: C_def)
  ultimately show ?thesis
    by (meson converse_rtranclp_into_rtranclp rtranclp.rtrancl_into_rtrancl)
qed

lemma delete_runs:
  assumes "run_state (fullSyncDeleteVolumes env k8s ms ids) s = (Inr True, s')"
    and c: "\<not> crashed c" "deletePhase c = Waiting" "\<not> locked c"
  shows "(sync_step env k8s ms)\<^sup>*\<^sup>* (c\<lparr>sync := s, deleteTodo := ids\<rparr>)
    (c\<lparr>sync := s', deleteTodo := [], deletePhase := Finished, wg := wg c - 1\<rparr>)"
proof -
  from assms(1) obtain pvs s1 where
      list: "run_state (getPVsInBoundAvailableOrReleased k8s) s = (Inr pvs, s1)"
    and loop: "run_state (forE (fullSyncDeleteVolume env ms (map pv_handle pvs)) ids) s1 = (Inr (), s')"
    by (auto simp: fullSyncDeleteVolumes_def split: prod.splits sum.splits)
  define C where "C s xs = c\<lparr>sync := s, deleteTodo := xs, locked := True,
    deletePhase := Running (map pv_handle pvs)\<rparr>" for s xs
  have "sync_step env k8s ms (c\<lparr>sync := s, deleteTodo := ids\<rparr>) (C s1 ids)"
    using sync_step.delete_lock [of "c\<lparr>sync := s, deleteTodo := ids\<rparr>" k8s pvs s1 env ms] list c
    by (cases c) (simp add: C_def)
  moreover have "(sync_step env k8s ms)\<^sup>*\<^sup>* (C s1 ids) (C s' [])"
  proof (rule loop_steps [OF _ loop])
    fix v xs u and s s1 :: "'a syncer_scheme"
    assume "run_state (fullSyncDeleteVolume env ms (map pv_handle pvs) v) s = (Inr u, s1)"
    then show "sync_step env k8s ms (C s (v # xs)) (C s1 xs)"
      using sync_step.delete_volume [of "C s (v # xs)" "map pv_handle pvs" v xs env ms "Inr u" s1 k8s] c
      by (cases c) (simp add: C_def)
  qed
  moreover have "sync_step env k8s ms (C s' [])
      (c\<lparr>sync := s', deleteTodo := [], deletePhase := Finished, wg := wg c - 1\<rparr>)"
    using sync_step.delete_done [of "C s' []" "map pv_handle pvs" env k8s ms] c
    by (cases c) (simp add: C_def)
  ultimately show ?thesis
    by (meson converse_rtranclp_into_rtranclp rtranclp.rtrancl_into_rtrancl)
qed

lemma update_runs:
  assumes "run_state (fullSyncUpdateVolumes env ms specs) s = (Inr True, s')"
    and c: "\<not> crashed c" "\<not> updateDone c"
  shows "(sync_step env k8s ms)\<^sup>*\<^sup>* (c\<lparr>sync := s, updateTodo := specs\<rparr>)
    (c\<lparr>sync := s', updateTodo := [], updateDone := True, wg := wg c - 1\<rparr>)"
proof -
  from assms(1) have loop: "run_state (forE (fullSyncUpdateVolume env ms) specs) s = (Inr (), s')"
    by (auto simp: fullSyncUpdateVolumes_def split: prod.splits sum.splits)
  define C where "C s xs = c\<lparr>sync := s, updateTodo := xs\<rparr>" for s xs
  have "(sync_step env k8s ms)\<^sup>*\<^sup>* (C s specs) (C s' [])"
  proof (rule loop_steps [OF _ loop])
    fix spec xs u and s s1 :: "'a syncer_scheme"
    assume "run_state (fullSyncUpdateVolume env ms spec) s = (Inr u, s1)"
    then show "sync_step env k8s ms (C s (spec # xs)) (C s1 xs)"
      using sync_step.update_volume [of "C s (spec # xs)" spec xs env ms "Inr u" s1 k8s] c
      by (cases c) (simp add: C_def)
  qed
  moreover have "sync_step env k8s ms (C s' [])
      (c\<lparr>sync := s', updateTodo := [], updateDone := True, wg := wg c - 1\<rparr>)"
    using sync_step.update_done [of "C s' []" env k8s ms] c by (cases c) (simp add: C_def)
  ultimately show ?thesis unfolding C_def by (rule rtranclp.rtrancl_into_rtrancl)
qed

text \<open>The sequential program is a full sync.\<close>

lemma sequential_full_sync:
  assumes "run_state (sequentialFullSync env k8s ms) s = (Inr True, s')"
  shows "triggerFullSync env k8s ms s s'"
proof -
  from assms obtain prepared s1 where prep: "run_state (prepareFullSync env k8s ms) s = (Inr prepared, s1)"
    by (auto simp: sequentialFullSync_def split: prod.splits sum.splits)
  show ?thesis
  proof (cases prepared)
    case None
    with assms prep show ?thesis by (auto simp: sequentialFullSync_def intro: gave_up)
  next
    case (Some p)
    from assms prep Some obtain s2 s3 s4 where
        create: "run_state (fullSyncCreateVolumes env k8s ms (createSpecArray p)) s1 = (Inr True, s2)"
      and delete: "run_state (fullSyncDeleteVolumes env k8s ms (volToBeDeleted p)) s2 = (Inr True, s3)"
      and update: "run_state (fullSyncUpdateVolumes env ms (updateSpecArray p)) s3 = (Inr True, s4)"
      and s': "s' = cleanupCnsMaps (k8sPVsMap p) s4"
      by (auto simp: sequentialFullSync_def split: prod.splits sum.splits if_splits)
    let ?c = "startCycle p s1"
    let ?c1 = "?c\<lparr>sync := s2, createTodo := [], createPhase := Finished, wg := 2\<rparr>"
    let ?c2 = "?c1\<lparr>sync := s3, deleteTodo := [], deletePhase := Finished, wg := 1\<rparr>"
    let ?c3 = "?c2\<lparr>sync := s4, updateTodo := [], updateDone := True, wg := 0\<rparr>"
    have "(sync_step env k8s ms)\<^sup>*\<^sup>* ?c ?c1"
      using create_runs [OF create, of ?c] by (simp add: startCycle_def)
    also have "(sync_step env k8s ms)\<^sup>*\<^sup>* ?c1 ?c2"
      using delete_runs [OF delete, of ?c1] by (simp add: startCycle_def)
    also have "(sync_step env k8s ms)\<^sup>*\<^sup>* ?c2 ?c3"
      using update_runs [OF update, of ?c2 k8s] by (simp add: startCycle_def)
    finally have "(sync_step env k8s ms)\<^sup>*\<^sup>* (startCycle p s1) ?c3" .
    from triggerFullSync.complete [OF prep [unfolded Some] this] s' show ?thesis
      by (simp add: startCycle_def)
  qed
qed

section \<open>Properties\<close>




text \<open>
  A volume is never recorded for creation and for deletion at once: every full sync keeps the two maps
  disjoint.
\<close>

lemma full_sync_maps_disjoint:
  assumes "triggerFullSync env k8s ms s s'" and "unique_volumes env"
    and "dom (cnsCreationMap s) \<inter> dom (cnsDeletionMap s) = {}"
  shows "dom (cnsCreationMap s') \<inter> dom (cnsDeletionMap s') = {}"
  using assms(1,2)
proof (cases rule: triggerFullSync_cases)
  case nothing
  with assms(3) show ?thesis by (simp add: sync_maps_def)
next
  case (cycle pvs listed p s1 t)
  then show ?thesis by (auto simp: cleanupCnsMaps_def split: if_splits)
qed

text \<open>
  C14. The goroutines end: when the PV listings succeed, every state that the goroutines can reach can go on
  to one where \<^verbatim>\<open>wg.Wait()\<close> returns (unless the process panicked), and a run has at most
  \<open>work_left\<close> steps, so no schedule runs forever.
\<close>

theorem full_sync_terminates:
  assumes "\<And>h. \<exists>allPVs. ans_ListPVs k8s h = Inr allPVs"
    and "(sync_step env k8s ms ^^ n) (startCycle p s) c"
  shows "n \<le> work_left (startCycle p s) \<and>
    (\<exists>c'. (sync_step env k8s ms)\<^sup>*\<^sup>* c c' \<and> (wg c' = 0 \<or> crashed c'))"
proof -
  have steps: "(sync_step env k8s ms)\<^sup>*\<^sup>* (startCycle p s) c"
    using assms(2) by (rule relpowp_imp_rtranclp)
  then have "cycle_inv p c" by (rule cycle_inv_steps) (rule cycle_inv_start)
  moreover have "\<not> stuck c"
    using steps by (induction rule: rtranclp_induct)
      (auto simp: stuck_def startCycle_def dest: not_stuck_step [OF _ assms(1), unfolded stuck_def])
  ultimately show ?thesis
    using wait_returns [OF assms(1), of p c env ms] work_left_steps [OF assms(2)] by auto
qed

text \<open>
  C10. A full sync that completes has carried out its whole plan: each planned deletion and creation was
  processed by its goroutine, against a second listing of the PVs, and each planned update was sent.\<close>

theorem full_sync_carries_out:
  assumes "(sync_step env k8s ms)\<^sup>*\<^sup>* (startCycle p s) c" and "wg c = 0" and "\<not> crashed c"
  shows "(\<forall>vol \<in> set (volToBeDeleted p). \<exists>hs. k8s_listed k8s hs \<and>
      executed env k8s ms (startCycle p s) c (fullSyncDeleteVolume env ms hs vol)) \<and>
    (\<forall>spec \<in> set (createSpecArray p). \<exists>hs. k8s_listed k8s hs \<and>
      executed env k8s ms (startCycle p s) c (fullSyncCreateVolume env ms hs spec)) \<and>
    (\<forall>u \<in> set (updateSpecArray p). executed env k8s ms (startCycle p s) c (fullSyncUpdateVolume env ms u))"
proof -
  have "cycle_inv p c" using assms(1) cycle_inv_start by (rule cycle_inv_steps)
  with assms(2) have "deletePhase c = Finished" "createPhase c = Finished" "updateDone c"
    by (cases "deletePhase c"; cases "createPhase c"; auto simp: cycle_inv_def split: if_splits)+
  with carried_steps [OF assms(1,3)] show ?thesis by (simp add: carried_def)
qed

text \<open>
  C38. When the second PV listing fails in the creating or in the deleting goroutine, that goroutine returns
  without \<^verbatim>\<open>wg.Done()\<close>: from then on \<^verbatim>\<open>wg.Wait()\<close> never returns, so full sync hangs for good.
\<close>

theorem full_sync_hangs:
  assumes "(sync_step env k8s ms)\<^sup>*\<^sup>* (startCycle p s) c"
    and "createPhase c = Returned \<or> deletePhase c = Returned"
    and "(sync_step env k8s ms)\<^sup>*\<^sup>* c c'"
  shows "wg c' \<noteq> 0"
proof (rule stuck_wg)
  show "stuck c'" using stuck_steps [OF assms(3)] assms(2) by (simp add: stuck_def)
  show "cycle_inv p c'"
    using assms(1,3) by (meson cycle_inv_start cycle_inv_steps)
qed

text \<open>
  The creating and the deleting goroutine exclude each other through \<open>volumeOperationsLock\<close>, the lock is
  held exactly while one of them is in its loop, and the wait group counts the goroutines still
  to call \<open>Done\<close>.
\<close>

lemma full_sync_exclusion:
  assumes "(sync_step env k8s ms)\<^sup>*\<^sup>* (startCycle p s) c"
  shows "\<not> (holds_lock (createPhase c) \<and> holds_lock (deletePhase c)) \<and>
    locked c = (holds_lock (createPhase c) \<or> holds_lock (deletePhase c)) \<and>
    wg c = undone (createPhase c) + undone (deletePhase c) + (if updateDone c then 0 else 1)"
  using cycle_inv_steps [OF assms cycle_inv_start] by (simp add: cycle_inv_def)

section \<open>Witnesses\<close>

text \<open>CNS knows one volume that Kubernetes does not, for the second cycle.\<close>

definition sample_orphan_env :: env where
  "sample_orphan_env = sample_env\<lparr>ans_CnsQueryAll := (\<lambda>_ _. Inr
     [\<lparr>vol_Id = ''vol-9'', vol_DatastoreUrl = [], vol_EntityMetadata = []\<rparr>])\<rparr>"

definition sample_orphan :: syncer where
  "sample_orphan = sample_syncer\<lparr>cnsDeletionMap := [''vol-9'' \<mapsto> True]\<rparr>"

lemmas sync_program_defs =
  sequentialFullSync_def prepareFullSync_def getPVsInBoundAvailableOrReleased_def buildPVCMapPodMap_def
  planFullSync_def initCnsMaps_def buildVolumeMap_def identifyVolumesToBeCreatedUpdated_def pvsWith_def
  identifyVolumesToBeDeleted_def constructCnsCreateSpec_def constructCnsUpdateSpec_def
  constructCnsUpdateSpecWithPVCToBeDeleted_def constructCnsUpdateSpecWithPodToBeDeleted_def
  fullSyncCreateVolumes_def fullSyncDeleteVolumes_def fullSyncUpdateVolumes_def fullSyncDeleteVolume_def
  fullSyncCreateVolume_def fullSyncUpdateVolume_def cleanupCnsMaps_def manager_def GetManager_def
  manager_defs withCNS_def validateManager_def cnsTask_def cnsClient_def sessionUser_def checkFault_def

lemmas sample_sync_simps =
  sample_simps sample_k8s_def sample_syncer_def sample_ms_def sample_orphan_env_def sample_orphan_def

lemma orphan_cycle:
  "\<exists>s'. run_state (sequentialFullSync sample_orphan_env sample_k8s sample_ms) sample_orphan = (Inr True, s') \<and>
     CallCnsDelete 1 [''vol-9''] False \<in> new_calls sample_orphan s'"
  by (simp add: sync_program_defs sample_sync_simps vc_program_defs new_calls_def)

lemma orphan_unique: "unique_volumes sample_orphan_env"
  by (auto simp: unique_volumes_def sample_sync_simps)


lemma orphan_prepared:
  "\<exists>p s1. run_state (prepareFullSync sample_orphan_env sample_k8s sample_ms) sample_orphan = (Inr (Some p), s1) \<and>
     volToBeDeleted p = [''vol-9'']"
  by (simp add: sync_program_defs sample_sync_simps vc_program_defs)

theorem full_sync_carries_out_witness:
  "\<exists>p s c hs. (sync_step sample_orphan_env sample_k8s sample_ms)\<^sup>*\<^sup>* (startCycle p s) c \<and> wg c = 0 \<and>
     volToBeDeleted p = [''vol-9''] \<and> executed sample_orphan_env sample_k8s sample_ms (startCycle p (s :: syncer)) c
       (fullSyncDeleteVolume sample_orphan_env sample_ms hs ''vol-9'')"
proof -
  obtain s' where "triggerFullSync sample_orphan_env sample_k8s sample_ms sample_orphan s'"
    using orphan_cycle sequential_full_sync by blast
  then obtain p c and s1 :: syncer where c: "(sync_step sample_orphan_env sample_k8s sample_ms)\<^sup>*\<^sup>* (startCycle p s1) c" "wg c = 0" "\<not> crashed c"
    and "volToBeDeleted p = [''vol-9'']"
    using orphan_prepared by (cases rule: triggerFullSync.cases) auto
  with full_sync_carries_out [OF c] show ?thesis by fastforce
qed

text \<open>Kubernetes has a volume that CNS does not, for the second cycle.\<close>

definition sample_pv :: pv where
  "sample_pv = \<lparr>pv_Name = ''pv5'', pv_Namespace = [], pv_Labels = None, pv_Phase = VolumeBound,
     pv_CSI = Some \<lparr>Driver = DriverName, VolumeHandle = ''vol-5''\<rparr>, pv_ClaimRef = None,
     pv_ReclaimPolicy = PersistentVolumeReclaimDelete, pv_StorageClassName = [], pv_Deleting = False\<rparr>"

definition sample_pv_k8s :: k8s_env where
  "sample_pv_k8s = sample_k8s\<lparr>ans_ListPVs := (\<lambda>_. Inr [sample_pv])\<rparr>"

definition sample_uncreated :: syncer where
  "sample_uncreated = sample_syncer\<lparr>cnsCreationMap := [''vol-5'' \<mapsto> True]\<rparr>"

lemma create_cycle:
  "\<exists>s' spec. run_state (sequentialFullSync sample_env sample_pv_k8s sample_ms) sample_uncreated = (Inr True, s') \<and>
     CallCnsCreate 1 [spec] \<in> new_calls sample_uncreated s'"
  by (simp add: sync_program_defs sample_sync_simps vc_program_defs new_calls_def sample_pv_k8s_def
      sample_uncreated_def sample_pv_def inDesiredState_def pv_handle_def classifyPV_def Let_def
      clusterOf_def vc_sample_config_def empty_config_def)

lemma create_unique: "unique_volumes sample_env"
  by (auto simp: unique_volumes_def sample_sync_simps)


text \<open>
  Two PVs that share a volume handle, as statically provisioned PVs can: the first full sync, which
  starts with empty maps, records the handle at the first PV and creates the volume because of the
  second, without waiting for a second cycle.\<close>

definition sample_twice_k8s :: k8s_env where
  "sample_twice_k8s = sample_k8s\<lparr>ans_ListPVs := (\<lambda>_. Inr [sample_pv, sample_pv\<lparr>pv_Name := ''pv6''\<rparr>])\<rparr>"

lemma twice_cycle:
  "\<exists>s' spec. run_state (sequentialFullSync sample_env sample_twice_k8s sample_ms) sample_syncer = (Inr True, s') \<and>
     CallCnsCreate 1 [spec] \<in> new_calls sample_syncer s'"
  by (simp add: sync_program_defs sample_sync_simps vc_program_defs new_calls_def sample_twice_k8s_def ex_disj_distrib
      sample_pv_def inDesiredState_def pv_handle_def classifyPV_def Let_def
      clusterOf_def vc_sample_config_def empty_config_def)

lemma duplicate_handle_creates:
  "\<exists>s' spec. cnsCreationMap sample_syncer = Map.empty \<and>
     triggerFullSync sample_env sample_twice_k8s sample_ms sample_syncer s' \<and> CallCnsCreate 1 [spec] \<in> new_calls sample_syncer s'"
  using twice_cycle sequential_full_sync by (auto simp: sample_syncer_def) blast

lemma empty_cycle:
  "\<exists>s'. run_state (sequentialFullSync sample_orphan_env sample_k8s sample_ms) sample_syncer = (Inr True, s')"
  by (simp add: sync_program_defs sample_sync_simps vc_program_defs)

lemma empty_prepared:
  "\<exists>p s1. run_state (prepareFullSync sample_orphan_env sample_k8s sample_ms) sample_syncer = (Inr (Some p), s1)"
  by (simp add: sync_program_defs sample_sync_simps vc_program_defs)


lemma full_sync_maps_disjoint_witness:
  "\<exists>s'. triggerFullSync sample_orphan_env sample_k8s sample_ms sample_syncer s' \<and>
     dom (cnsCreationMap s') \<inter> dom (cnsDeletionMap s') = {}"
proof -
  obtain s' where s': "triggerFullSync sample_orphan_env sample_k8s sample_ms sample_syncer s'"
    using empty_cycle sequential_full_sync by blast
  from full_sync_maps_disjoint [OF s' orphan_unique] s' show ?thesis
    by (auto simp: sample_syncer_def)
qed

definition sample_plan :: plan where
  "sample_plan = \<lparr>createSpecArray = [], volToBeDeleted = [''vol-9''], updateSpecArray = [], k8sPVsMap = Map.empty\<rparr>"

theorem full_sync_terminates_witness:
  "\<exists>c'. (sync_step sample_env sample_k8s sample_ms)\<^sup>*\<^sup>* (startCycle sample_plan sample_syncer) c' \<and>
     (wg c' = 0 \<or> crashed c')"
  using full_sync_terminates [of sample_k8s 0 sample_env sample_ms sample_plan sample_syncer]
  by (simp add: sample_k8s_def)

definition sample_failing_k8s :: k8s_env where
  "sample_failing_k8s = sample_k8s\<lparr>ans_ListPVs := (\<lambda>_. Inl (OutsideError ''timeout''))\<rparr>"

theorem full_sync_hangs_witness:
  "\<exists>c. sync_step sample_env sample_failing_k8s sample_ms (startCycle sample_plan sample_syncer) c \<and>
     createPhase c = Returned \<and> wg c \<noteq> 0"
proof -
  define c where "c = startCycle sample_plan sample_syncer"
  have "run_state (getPVsInBoundAvailableOrReleased sample_failing_k8s) (sync c) =
      (Inl (OutsideError ''timeout''), (sync c)\<lparr>trace := trace (sync c) @ [CallListPVs]\<rparr>)"
    by (simp add: getPVsInBoundAvailableOrReleased_def sample_failing_k8s_def)
  then have step: "sync_step sample_env sample_failing_k8s sample_ms c
      (c\<lparr>sync := (sync c)\<lparr>trace := trace (sync c) @ [CallListPVs]\<rparr>, createPhase := Returned\<rparr>)"
    by (intro sync_step.create_return) (simp_all add: c_def startCycle_def)
  then have "(sync_step sample_env sample_failing_k8s sample_ms)\<^sup>*\<^sup>* c
      (c\<lparr>sync := (sync c)\<lparr>trace := trace (sync c) @ [CallListPVs]\<rparr>, createPhase := Returned\<rparr>)"
    by (rule r_into_rtranclp)
  from full_sync_hangs [OF this [unfolded c_def]] step show ?thesis
    unfolding c_def by (intro exI) auto
qed

lemma full_sync_exclusion_witness:
  "wg (startCycle sample_plan sample_syncer) = 3 \<and> \<not> locked (startCycle sample_plan sample_syncer)"
  using full_sync_exclusion [of sample_env sample_k8s sample_ms sample_plan sample_syncer
      "startCycle sample_plan sample_syncer"]
  by (simp add: startCycle_def)

end
