(* ===== verification/Metadata_Syncer.thy ===== *)
theory Metadata_Syncer
  imports Full_Sync
begin

text \<open>
  \<open>pkg/syncer/metadatasyncer.go\<close>: the interval of the full sync, the initialisation of the syncer and
  the handlers of the Kubernetes events. An event's object is an option: \<open>None\<close> is a nil object or
  one of another type, which the handlers ignore. A handler's errors are logged, so its result is
  \<open>Inl\<close> only for a panic. \<open>pvUpdated\<close> and \<open>pvDeleted\<close> hold \<open>volumeOperationsLock\<close> during their call of the
  volume manager; here a handler is one atomic program.
\<close>

section \<open>Interval\<close>

definition defaultFullSyncIntervalInMin :: int where
  "defaultFullSyncIntervalInMin = 30"

definition envFullSyncIntervalMinutes :: string where
  "envFullSyncIntervalMinutes = ''FULL_SYNC_INTERVAL_MINUTES''"

definition getFullSyncIntervalInMin :: "environ \<Rightarrow> int" where
  "getFullSyncIntervalInMin environ =
     (let v = Getenv environ envFullSyncIntervalMinutes
      in if v \<noteq> []
         then case Atoi v of
                Some value \<Rightarrow>
                  if value \<le> 0 \<or> value > defaultFullSyncIntervalInMin
                  then defaultFullSyncIntervalInMin else value
              | None \<Rightarrow> defaultFullSyncIntervalInMin
         else defaultFullSyncIntervalInMin)"

section \<open>Initialisation\<close>

text \<open>
  \<open>Init\<close> up to the start of the ticker and of the informers, which are the events below and the calls of
  \<open>triggerFullSync\<close>; \<open>newK8sClient\<close> is the outcome of \<open>k8s.NewClient\<close>.
\<close>

definition InitSyncer :: "env \<Rightarrow> error + unit \<Rightarrow> ('z, MetadataSyncInformer) syncE" where
  "InitSyncer env newK8sClient = do {
     file \<leftarrow> perform (CallReadConfig (configPath env)) (host_Files env (configPath env));
     case GetCnsconfig (host_Environ env) (\<lambda>_. file) (configPath env) of
       Inl err \<Rightarrow> State_Monad.return (Inl err)
     | Inr parsed \<Rightarrow>
         (case GetVirtualCenterConfig parsed of
            Inl err \<Rightarrow> State_Monad.return (Inl err)
          | Inr vcconfig \<Rightarrow>
              bindE (RegisterVirtualCenter vcconfig) (\<lambda>a.
              bindE (Connect env a) (\<lambda>_.
              case newK8sClient of
                Inl err \<Rightarrow> State_Monad.return (Inl err)
              | Inr _ \<Rightarrow> do {
                  assign (\<lambda>s. s\<lparr>cnsDeletionMap := Map.empty, cnsCreationMap := Map.empty\<rparr>);
                  State_Monad.return (Inr \<lparr>cfg = parsed, vcenter = a\<rparr>)
                })))
   }"

section \<open>Event handlers\<close>

definition isVsphereVolume :: "pv \<Rightarrow> bool" where
  "isVsphereVolume p = (case pv_CSI p of None \<Rightarrow> False | Some src \<Rightarrow> Driver src = DriverName)"

text \<open>The call every updating handler ends with; a failure is logged.\<close>

definition sendUpdate ::
  "env \<Rightarrow> MetadataSyncInformer \<Rightarrow> string \<Rightarrow> entity_metadata \<Rightarrow> (error \<Rightarrow> 'a) \<Rightarrow> 'a \<Rightarrow> ('z, 'a) syncE" where
  "sendUpdate env ms volumeHandle metadata onError onSuccess =
     bindE (clusterOf ms) (\<lambda>cluster.
     handle (manager ms (\<lambda>m. UpdateVolumeMetadata env m
               \<lparr>update_VolumeId = volumeHandle,
                update_Metadata = \<lparr>ContainerCluster = cluster, EntityMetadata = [metadata]\<rparr>\<rparr>))
       (\<lambda>err. State_Monad.return (Inr (onError err)))
       (\<lambda>_. State_Monad.return (Inr onSuccess)))"

definition pvcUpdated ::
  "env \<Rightarrow> k8s_env \<Rightarrow> MetadataSyncInformer \<Rightarrow> pvc option \<Rightarrow> pvc option \<Rightarrow> ('z, unit) syncE" where
  "pvcUpdated env k8s ms oldObj newObj =
     (case (oldObj, newObj) of
        (Some oldPvc, Some newPvc) \<Rightarrow>
          if pvc_Phase newPvc \<noteq> ClaimBound then State_Monad.return (Inr ())
          else handle (perform (CallPVLister (pvc_VolumeName newPvc)) (ans_PVLister k8s (pvc_VolumeName newPvc)))
                 (\<lambda>_. State_Monad.return (Inr ()))
                 (\<lambda>p.
                    if \<not> isVsphereVolume p then State_Monad.return (Inr ())
                    else if pvc_Phase oldPvc = ClaimBound \<and> DeepEqual_labels (pvc_Labels newPvc) (pvc_Labels oldPvc)
                    then State_Monad.return (Inr ())
                    else sendUpdate env ms (pv_handle p)
                           (GetCnsKubernetesEntityMetaData (pvc_Name newPvc) (pvc_Labels newPvc) False PVCType
                              (pvc_Namespace newPvc)) (\<lambda>_. ()) ())
      | _ \<Rightarrow> State_Monad.return (Inr ()))"

definition pvcDeleted ::
  "env \<Rightarrow> k8s_env \<Rightarrow> MetadataSyncInformer \<Rightarrow> pvc option \<Rightarrow> ('z, unit) syncE" where
  "pvcDeleted env k8s ms obj =
     (case obj of
        None \<Rightarrow> State_Monad.return (Inr ())
      | Some claim \<Rightarrow>
          if pvc_Phase claim \<noteq> ClaimBound then State_Monad.return (Inr ())
          else handle (perform (CallPVLister (pvc_VolumeName claim)) (ans_PVLister k8s (pvc_VolumeName claim)))
                 (\<lambda>_. State_Monad.return (Inr ()))
                 (\<lambda>p.
                    if \<not> isVsphereVolume p then State_Monad.return (Inr ())
                    else if pv_ReclaimPolicy p = PersistentVolumeReclaimDelete then State_Monad.return (Inr ())
                    else sendUpdate env ms (pv_handle p)
                           (GetCnsKubernetesEntityMetaData (pvc_Name claim) None True PVCType
                              (pvc_Namespace claim)) (\<lambda>_. ()) ()))"

definition pvUpdated ::
  "env \<Rightarrow> MetadataSyncInformer \<Rightarrow> pv option \<Rightarrow> pv option \<Rightarrow> ('z, unit) syncE" where
  "pvUpdated env ms oldObj newObj =
     (case (oldObj, newObj) of
        (Some oldPv, Some newPv) \<Rightarrow>
          if pv_CSI oldPv = None \<or> \<not> isVsphereVolume newPv then State_Monad.return (Inr ())
          else if pv_Phase newPv = VolumePending \<or> pv_Phase newPv = VolumeFailed then State_Monad.return (Inr ())
          else if pv_Phase oldPv = VolumeAvailable \<and> DeepEqual_labels (pv_Labels newPv) (pv_Labels oldPv)
          then State_Monad.return (Inr ())
          else if pv_Phase oldPv = VolumeBound \<and> pv_Phase newPv = VolumeReleased \<and>
                  pv_ReclaimPolicy oldPv = PersistentVolumeReclaimDelete
          then State_Monad.return (Inr ())
          else if pv_Deleting newPv then State_Monad.return (Inr ())
          else
            (let pvMetadata = GetCnsKubernetesEntityMetaData (pv_Name newPv) (pv_Labels newPv) False PVType
                                (pv_Namespace newPv)
             in if pv_Phase oldPv = VolumeAvailable \<or> pv_StorageClassName newPv \<noteq> []
                then sendUpdate env ms (pv_handle newPv) pvMetadata (\<lambda>_. ()) ()
                else bindE (clusterOf ms) (\<lambda>cluster.
                     handle (manager ms (\<lambda>m. CreateVolume env m
                               \<lparr>create_Name = pv_Name oldPv, create_VolumeType = BlockVolumeType,
                                create_Datastores = [],
                                create_Metadata = \<lparr>ContainerCluster = cluster, EntityMetadata = [pvMetadata]\<rparr>,
                                create_Backing = BlockBackingDetails (pv_handle oldPv), create_Profile = []\<rparr>))
                       (\<lambda>_. State_Monad.return (Inr ())) (\<lambda>_. State_Monad.return (Inr ()))))
      | _ \<Rightarrow> State_Monad.return (Inr ()))"

definition pvDeleted :: "env \<Rightarrow> MetadataSyncInformer \<Rightarrow> pv option \<Rightarrow> ('z, unit) syncE" where
  "pvDeleted env ms obj =
     (case obj of
        None \<Rightarrow> State_Monad.return (Inr ())
      | Some p \<Rightarrow>
          if \<not> isVsphereVolume p then State_Monad.return (Inr ())
          else if pv_ClaimRef p \<noteq> None \<and> (pv_Phase p = VolumeAvailable \<or> pv_Phase p = VolumeReleased) \<and>
                  pv_ReclaimPolicy p = PersistentVolumeReclaimDelete
          then State_Monad.return (Inr ())
          else
            (let deleteDisk = (if pv_ClaimRef p = None \<or> pv_ReclaimPolicy p \<noteq> PersistentVolumeReclaimDelete
                               then False else True)
             in handle (manager ms (\<lambda>m. DeleteVolume env m (pv_handle p) deleteDisk))
                  (\<lambda>_. State_Monad.return (Inr ())) (\<lambda>_. State_Monad.return (Inr ()))))"

definition updatePodVolume ::
  "env \<Rightarrow> k8s_env \<Rightarrow> MetadataSyncInformer \<Rightarrow> pod \<Rightarrow> bool \<Rightarrow> pod_volume \<Rightarrow> ('z, error list) syncE" where
  "updatePodVolume env k8s ms p deleteFlag volume =
     (case podvol_ClaimName volume of
        None \<Rightarrow> State_Monad.return (Inr [])
      | Some pvcName \<Rightarrow>
          handle (perform (CallPVCLister (pod_Namespace p) pvcName) (ans_PVCLister k8s (pod_Namespace p) pvcName))
            (\<lambda>_. State_Monad.return (Inr
               [Errorf ''Error getting Persistent Volume Claim for volume %s with err: %v'']))
            (\<lambda>claim.
               handle (perform (CallPVLister (pvc_VolumeName claim)) (ans_PVLister k8s (pvc_VolumeName claim)))
                 (\<lambda>_. State_Monad.return (Inr
                    [Errorf ''Error getting Persistent Volume for PVC %s in volume %s with err: %v'']))
                 (\<lambda>v.
                    if \<not> isVsphereVolume v then State_Monad.return (Inr [])
                    else sendUpdate env ms (pv_handle v)
                           (GetCnsKubernetesEntityMetaData (pod_Name p) None deleteFlag PODType (pod_Namespace p))
                           (\<lambda>_. [Errorf ''UpdateVolumeMetadata failed for volume %s with err: %v'']) [])))"

fun updatePodVolumes ::
  "env \<Rightarrow> k8s_env \<Rightarrow> MetadataSyncInformer \<Rightarrow> pod \<Rightarrow> bool \<Rightarrow> pod_volume list \<Rightarrow> ('z, error list) syncE" where
  "updatePodVolumes env k8s ms p deleteFlag [] = State_Monad.return (Inr [])"
| "updatePodVolumes env k8s ms p deleteFlag (volume # vols) =
     bindE (updatePodVolume env k8s ms p deleteFlag volume) (\<lambda>errs.
     bindE (updatePodVolumes env k8s ms p deleteFlag vols) (\<lambda>errorList.
     State_Monad.return (Inr (errs @ errorList))))"

definition updatePodMetadata ::
  "env \<Rightarrow> k8s_env \<Rightarrow> pod \<Rightarrow> MetadataSyncInformer \<Rightarrow> bool \<Rightarrow> ('z, error list) syncE" where
  "updatePodMetadata env k8s p ms deleteFlag = updatePodVolumes env k8s ms p deleteFlag (pod_Volumes p)"

definition podUpdated ::
  "env \<Rightarrow> k8s_env \<Rightarrow> MetadataSyncInformer \<Rightarrow> pod option \<Rightarrow> pod option \<Rightarrow> ('z, unit) syncE" where
  "podUpdated env k8s ms oldObj newObj =
     (case (oldObj, newObj) of
        (Some oldPod, Some newPod) \<Rightarrow>
          if pod_Phase oldPod = PodPending \<and> pod_Phase newPod = PodRunning
          then bindE (updatePodMetadata env k8s newPod ms False) (\<lambda>_. State_Monad.return (Inr ()))
          else State_Monad.return (Inr ())
      | _ \<Rightarrow> State_Monad.return (Inr ()))"

definition podDeleted ::
  "env \<Rightarrow> k8s_env \<Rightarrow> MetadataSyncInformer \<Rightarrow> pod option \<Rightarrow> ('z, unit) syncE" where
  "podDeleted env k8s ms obj =
     (case obj of
        None \<Rightarrow> State_Monad.return (Inr ())
      | Some p \<Rightarrow>
          if pod_Phase p = PodPending then State_Monad.return (Inr ())
          else bindE (updatePodMetadata env k8s p ms True) (\<lambda>_. State_Monad.return (Inr ())))"

section \<open>What the handlers change\<close>

text \<open>An update of one volume by the given entry.\<close>

fun updates_entry :: "env \<Rightarrow> string \<Rightarrow> entity_metadata \<Rightarrow> call \<Rightarrow> bool" where
  "updates_entry env volumeHandle metadata (CallCnsUpdate _ specs) \<longleftrightarrow>
     (\<exists>spec. specs = [spec] \<and> update_VolumeId spec = volumeHandle \<and>
        EntityMetadata (update_Metadata spec) = [metadata] \<and>
        session_user env (VSphereUser (ContainerCluster (update_Metadata spec))))"
| "updates_entry _ _ _ _ \<longleftrightarrow> False"

lemma is_update_entry:
  "is_update env \<lparr>update_VolumeId = v, update_Metadata = \<lparr>ContainerCluster = cl, EntityMetadata = [m]\<rparr>\<rparr> c \<Longrightarrow>
   updates_entry env v m c"
  by (cases c) auto

lemma emits_sendUpdate [emits_rules]:
  "(\<And>c. changesOnly (updates_entry env v metadata) c \<Longrightarrow> P c) \<Longrightarrow> emits P (sendUpdate env ms v metadata f x)"
  unfolding sendUpdate_def
  by (intro emits_rules) (blast intro: changesOnly_mono is_update_entry)

lemma sendUpdate_success:
  assumes "run_state (sendUpdate env ms v metadata f x) s = (Inr x, s')" and "\<And>err. f err \<noteq> x"
  shows "\<exists>c \<in> new_calls s s'. updates_entry env v metadata c"
proof -
  from assms obtain cluster m s2 u where
      man: "run_state (GetManager (Some (vcenter ms))) s = (m, s2)"
    and upd: "run_state (UpdateVolumeMetadata env m \<lparr>update_VolumeId = v,
        update_Metadata = \<lparr>ContainerCluster = cluster, EntityMetadata = [metadata]\<rparr>\<rparr>) s2 = (Inr u, s')"
    by (auto simp: sendUpdate_def manager_def dest!: clusterOf_reads split: prod.splits sum.splits error.splits)
  have "trace s2 = trace s" using man by (auto simp: GetManager_def split: option.splits)
  moreover obtain c where c: "updates_entry env v metadata c" "mutations s' = mutations s2 @ [c]"
    using update_op.success [OF upd] is_update_entry by blast
  moreover obtain ks where "trace s' = trace s2 @ ks"
    by (rule emitsE [OF emits_True_manager(2) upd])
  ultimately show ?thesis using mutations_new_calls [of s' s2 ks c] by (auto simp: new_calls_def)
qed

text \<open>What follows a call depends on one of its answers.\<close>

lemma emits_handle_perform:
  assumes "P c" and "\<And>err. emits P (f err)" and "\<And>x h. answer h = Inr x \<Longrightarrow> emits P (k x)"
  shows "emits P (handle (perform c answer) f k)"
proof (rule emitsI)
  fix s r s'
  assume run: "run_state (handle (perform c answer) f k) s = (r, s')"
  let ?t = "s\<lparr>trace := trace s @ [c]\<rparr>"
  have "emits P (handle (State_Monad.return (answer (trace s))) f k)"
  proof (cases "answer (trace s)")
    case (Inl e) with assms(2) show ?thesis by (cases e) (auto simp: handle_def intro: emits_return)
  next
    case (Inr x) with assms(3) [OF Inr] show ?thesis by (simp add: handle_def)
  qed
  moreover have "run_state (handle (State_Monad.return (answer (trace s))) f k) ?t = (r, s')"
    using run by (simp add: handle_def)
  ultimately obtain ks where "trace s' = trace ?t @ ks" "list_all P ks" by (rule emitsE)
  with assms(1) show "\<exists>ks. trace s' = trace s @ ks \<and> list_all P ks" by auto
qed

text \<open>The PV that the lister has for a claim, when it is a volume of this driver.\<close>

definition claim_volume :: "k8s_env \<Rightarrow> pvc \<Rightarrow> pv \<Rightarrow> bool" where
  "claim_volume k8s claim v \<longleftrightarrow> (\<exists>h. ans_PVLister k8s (pvc_VolumeName claim) h = Inr v) \<and> isVsphereVolume v"

text \<open>The update of the entry of a pod on the volume of one of the claims the pod mounts.\<close>

definition pod_entry :: "env \<Rightarrow> k8s_env \<Rightarrow> pod \<Rightarrow> bool \<Rightarrow> pod_volume \<Rightarrow> call \<Rightarrow> bool" where
  "pod_entry env k8s p deleteFlag volume c \<longleftrightarrow>
     (\<exists>pvcName claim v h. podvol_ClaimName volume = Some pvcName \<and>
        ans_PVCLister k8s (pod_Namespace p) pvcName h = Inr claim \<and> claim_volume k8s claim v \<and>
        updates_entry env (pv_handle v)
          (GetCnsKubernetesEntityMetaData (pod_Name p) None deleteFlag PODType (pod_Namespace p)) c)"

lemma emits_updatePodVolume:
  "emits (changesOnly (pod_entry env k8s p del volume)) (updatePodVolume env k8s ms p del volume)"
  unfolding updatePodVolume_def
  by (intro emits_case_option emits_handle_perform emits_if emits_return emits_sendUpdate; (erule changesOnly_mono)?)
     (auto simp: pod_entry_def claim_volume_def)

lemma emits_updatePodVolumes:
  assumes "\<And>volume c. volume \<in> set vols \<Longrightarrow> changesOnly (pod_entry env k8s p del volume) c \<Longrightarrow> P c"
  shows "emits P (updatePodVolumes env k8s ms p del vols)"
  using assms
proof (induction vols)
  case Nil show ?case by (simp add: emits_return)
next
  case (Cons volume vols)
  have "emits P (updatePodVolume env k8s ms p del volume)"
    by (rule emits_mono [OF emits_updatePodVolume]) (rule Cons.prems, simp_all)
  moreover have "volume' \<in> set vols \<Longrightarrow> changesOnly (pod_entry env k8s p del volume') c \<Longrightarrow> P c" for volume' c
    by (rule Cons.prems) simp_all
  note Cons.IH [OF this]
  ultimately show ?case unfolding updatePodVolumes.simps by (intro emits_bindE emits_return)
qed

text \<open>What one volume of a pod asks for when no error is reported.\<close>

definition pod_volume_done ::
  "env \<Rightarrow> k8s_env \<Rightarrow> pod \<Rightarrow> bool \<Rightarrow> call set \<Rightarrow> string \<Rightarrow> bool" where
  "pod_volume_done env k8s p deleteFlag calls claimName \<longleftrightarrow>
     (\<exists>h claim h' v. ans_PVCLister k8s (pod_Namespace p) claimName h = Inr claim \<and>
        ans_PVLister k8s (pvc_VolumeName claim) h' = Inr v \<and>
        (isVsphereVolume v \<longrightarrow> (\<exists>c \<in> calls. updates_entry env (pv_handle v)
           (GetCnsKubernetesEntityMetaData (pod_Name p) None deleteFlag PODType (pod_Namespace p)) c)))"

lemma pod_volume_done_mono:
  "pod_volume_done env k8s p del A n \<Longrightarrow> A \<subseteq> B \<Longrightarrow> pod_volume_done env k8s p del B n"
  by (fastforce simp: pod_volume_done_def)

lemma updatePodVolume_done:
  assumes "run_state (updatePodVolume env k8s ms p del volume) s = (Inr [], s')"
    and "podvol_ClaimName volume = Some n"
  shows "pod_volume_done env k8s p del (new_calls s s') n"
proof -
  let ?m = "GetCnsKubernetesEntityMetaData (pod_Name p) None del PODType (pod_Namespace p)"
  let ?s2 = "\<lambda>v. s\<lparr>trace := (trace s @ [CallPVCLister (pod_Namespace p) n]) @ [CallPVLister v]\<rparr>"
  from assms obtain claim v where
      claim: "ans_PVCLister k8s (pod_Namespace p) n (trace s) = Inr claim"
    and v: "ans_PVLister k8s (pvc_VolumeName claim) (trace s @ [CallPVCLister (pod_Namespace p) n]) = Inr v"
    and rest: "run_state (if \<not> isVsphereVolume v then State_Monad.return (Inr [])
        else sendUpdate env ms (pv_handle v) ?m
          (\<lambda>_. [Errorf ''UpdateVolumeMetadata failed for volume %s with err: %v'']) [])
        (?s2 (pvc_VolumeName claim)) = (Inr [], s')"
    by (auto simp: updatePodVolume_def split: sum.splits error.splits)
  have "\<exists>c \<in> new_calls s s'. updates_entry env (pv_handle v) ?m c" if own: "isVsphereVolume v"
  proof -
    let ?send = "sendUpdate env ms (pv_handle v) ?m
      (\<lambda>_. [Errorf ''UpdateVolumeMetadata failed for volume %s with err: %v'']) []"
    from rest own have send: "run_state ?send (?s2 (pvc_VolumeName claim)) = (Inr [], s')" by simp
    have "emits (\<lambda>_. True) ?send" by (intro emits_rules) simp
    then obtain ks where "trace s' = trace (?s2 (pvc_VolumeName claim)) @ ks" using send by (rule emitsE)
    then have "new_calls (?s2 (pvc_VolumeName claim)) s' \<subseteq> new_calls s s'" by (auto simp: new_calls_def)
    with sendUpdate_success [OF send] show ?thesis by auto
  qed
  with claim v show ?thesis unfolding pod_volume_done_def by blast
qed

lemma updatePodVolumes_done:
  assumes "run_state (updatePodVolumes env k8s ms p del vols) s = (Inr [], s')"
    and "volume \<in> set vols" and "podvol_ClaimName volume = Some n"
  shows "pod_volume_done env k8s p del (new_calls s s') n"
  using assms(1,2)
proof (induction vols arbitrary: s)
  case (Cons v vols)
  from Cons.prems(1) obtain s1 where
      first: "run_state (updatePodVolume env k8s ms p del v) s = (Inr [], s1)"
    and rest: "run_state (updatePodVolumes env k8s ms p del vols) s1 = (Inr [], s')"
    by (auto split: prod.splits sum.splits)
  have "emits (\<lambda>_. True) (updatePodVolume env k8s ms p del v)" by (rule emits_mono [OF emits_updatePodVolume]) simp
  then obtain ks where ks: "trace s1 = trace s @ ks" using first by (rule emitsE)
  have "emits (\<lambda>_. True) (updatePodVolumes env k8s ms p del vols)" by (rule emits_updatePodVolumes) simp
  then obtain ks' where "trace s' = trace s1 @ ks'" using rest by (rule emitsE)
  with ks have calls: "new_calls s s' = new_calls s s1 \<union> new_calls s1 s'" by (rule new_calls_trans)
  show ?case
  proof (cases "volume = v")
    case True
    from updatePodVolume_done [OF first assms(3) [unfolded True]] show ?thesis
      by (rule pod_volume_done_mono) (simp add: calls)
  next
    case False
    with Cons.prems(2) have "volume \<in> set vols" by simp
    from Cons.IH [OF rest this] show ?thesis by (rule pod_volume_done_mono) (simp add: calls)
  qed
qed simp

section \<open>The configuration the syncer works with\<close>

lemma RegisterVirtualCenter_host:
  "run_state (RegisterVirtualCenter conf) s = (Inr a, s') \<Longrightarrow> host_is a (conf_Host conf) s'"
  by (auto simp: RegisterVirtualCenter_def host_is_def split: if_splits)

lemma GetVirtualCenterConfig_host:
  "GetVirtualCenterConfig parsed = Inr conf \<Longrightarrow>
   \<exists>section. map_of (VirtualCenter parsed) (conf_Host conf) = Some section"
  by (auto simp: GetVirtualCenterConfig_def GetVcenterIPs_def Let_def split: if_splits option.splits sum.splits)

section \<open>The changes of each handler\<close>

text \<open>The deletion of the volume of a PV, with the disk when the PV was claimed and is to be reclaimed.\<close>

definition pv_deletion :: "pv option \<Rightarrow> call \<Rightarrow> bool" where
  "pv_deletion obj c \<longleftrightarrow> (\<exists>p deleteDisk. obj = Some p \<and> isVsphereVolume p \<and> is_delete (pv_handle p, deleteDisk) c \<and>
     deleteDisk = (pv_ClaimRef p \<noteq> None \<and> pv_ReclaimPolicy p = PersistentVolumeReclaimDelete) \<and>
     \<not> (deleteDisk \<and> pv_Phase p \<in> {VolumeAvailable, VolumeReleased}))"

lemma emits_pvDeleted: "emits (changesOnly (pv_deletion obj)) (pvDeleted env ms obj)"
  unfolding pvDeleted_def Let_def
  by (intro emits_rules; erule changesOnly_mono; auto simp: pv_deletion_def split: if_splits)

text \<open>The update of a PV's entry, or the creation of the volume its disk backs.\<close>

definition pv_change :: "env \<Rightarrow> pv \<Rightarrow> pv \<Rightarrow> call \<Rightarrow> bool" where
  "pv_change env oldPv newPv c \<longleftrightarrow>
     isVsphereVolume newPv \<and> \<not> pv_Deleting newPv \<and> pv_Phase newPv \<notin> {VolumePending, VolumeFailed} \<and>
     (if pv_Phase oldPv = VolumeAvailable \<or> pv_StorageClassName newPv \<noteq> []
      then updates_entry env (pv_handle newPv) (GetCnsKubernetesEntityMetaData (pv_Name newPv) (pv_Labels newPv)
             False PVType (pv_Namespace newPv)) c
      else (\<exists>spec. is_create env spec c \<and> create_Backing spec = BlockBackingDetails (pv_handle oldPv)))"

lemma emits_pvUpdated: "emits (changesOnly (pv_change env oldPv newPv)) (pvUpdated env ms (Some oldPv) (Some newPv))"
  unfolding pvUpdated_def Let_def prod.case option.case
  by (intro emits_rules | simp | (erule changesOnly_mono, force simp: pv_change_def))+

text \<open>
  The update of the entry of a claim whose new version is bound, unless neither its phase nor its labels changed, and
  the removal of the entry of a deleted claim from a volume that is kept.
\<close>

definition claim_update :: "env \<Rightarrow> k8s_env \<Rightarrow> pvc option \<Rightarrow> pvc option \<Rightarrow> call \<Rightarrow> bool" where
  "claim_update env k8s oldObj newObj c \<longleftrightarrow> (\<exists>oldPvc newPvc v. oldObj = Some oldPvc \<and> newObj = Some newPvc \<and>
     pvc_Phase newPvc = ClaimBound \<and> (pvc_Phase oldPvc \<noteq> ClaimBound \<or> \<not> DeepEqual_labels (pvc_Labels newPvc) (pvc_Labels oldPvc)) \<and>
     claim_volume k8s newPvc v \<and> updates_entry env (pv_handle v)
       (GetCnsKubernetesEntityMetaData (pvc_Name newPvc) (pvc_Labels newPvc) False PVCType (pvc_Namespace newPvc)) c)"

definition claim_removal :: "env \<Rightarrow> k8s_env \<Rightarrow> pvc option \<Rightarrow> call \<Rightarrow> bool" where
  "claim_removal env k8s obj c \<longleftrightarrow> (\<exists>claim v. obj = Some claim \<and> pvc_Phase claim = ClaimBound \<and>
     claim_volume k8s claim v \<and> pv_ReclaimPolicy v \<noteq> PersistentVolumeReclaimDelete \<and> updates_entry env (pv_handle v)
       (GetCnsKubernetesEntityMetaData (pvc_Name claim) None True PVCType (pvc_Namespace claim)) c)"

text \<open>The entry of a pod that begins to run is written, that of a deleted pod that has run is removed.\<close>

definition pod_update :: "env \<Rightarrow> k8s_env \<Rightarrow> pod option \<Rightarrow> pod option \<Rightarrow> call \<Rightarrow> bool" where
  "pod_update env k8s oldObj newObj c \<longleftrightarrow> (\<exists>oldPod newPod. oldObj = Some oldPod \<and> newObj = Some newPod \<and>
     pod_Phase oldPod = PodPending \<and> pod_Phase newPod = PodRunning \<and>
     (\<exists>volume \<in> set (pod_Volumes newPod). pod_entry env k8s newPod False volume c))"

definition pod_removal :: "env \<Rightarrow> k8s_env \<Rightarrow> pod option \<Rightarrow> call \<Rightarrow> bool" where
  "pod_removal env k8s obj c \<longleftrightarrow> (\<exists>p. obj = Some p \<and> pod_Phase p \<noteq> PodPending \<and>
     (\<exists>volume \<in> set (pod_Volumes p). pod_entry env k8s p True volume c))"

lemma emits_entry_handlers:
  "emits (changesOnly (claim_update env k8s oldPvc newPvc)) (pvcUpdated env k8s ms oldPvc newPvc)"
  "emits (changesOnly (claim_removal env k8s oldPvc)) (pvcDeleted env k8s ms oldPvc)"
  "emits (changesOnly (pod_update env k8s oldPod newPod)) (podUpdated env k8s ms oldPod newPod)"
  "emits (changesOnly (pod_removal env k8s oldPod)) (podDeleted env k8s ms oldPod)"
proof -
  show "emits (changesOnly (claim_update env k8s oldPvc newPvc)) (pvcUpdated env k8s ms oldPvc newPvc)"
    unfolding pvcUpdated_def
    by (cases oldPvc; cases newPvc; simp add: emits_return;
        intro conjI impI emits_handle_perform emits_if emits_return emits_sendUpdate; (erule changesOnly_mono)?)
       (auto simp: claim_update_def claim_volume_def)
  show "emits (changesOnly (claim_removal env k8s oldPvc)) (pvcDeleted env k8s ms oldPvc)"
    unfolding pvcDeleted_def
    by (intro emits_case_option emits_handle_perform emits_if emits_return emits_sendUpdate; (erule changesOnly_mono)?)
       (auto simp: claim_removal_def claim_volume_def)
  show "emits (changesOnly (pod_update env k8s oldPod newPod)) (podUpdated env k8s ms oldPod newPod)"
    unfolding podUpdated_def updatePodMetadata_def
    by (cases oldPod; cases newPod; simp add: emits_return;
        intro conjI impI emits_bindE emits_return emits_updatePodVolumes; (erule changesOnly_mono)?)
       (auto simp: pod_update_def)
  show "emits (changesOnly (pod_removal env k8s oldPod)) (podDeleted env k8s ms oldPod)"
    unfolding podDeleted_def updatePodMetadata_def
    by (intro emits_case_option emits_if emits_bindE emits_return emits_updatePodVolumes; (erule changesOnly_mono)?)
       (auto simp: pod_removal_def)
qed

section \<open>Properties\<close>

text \<open>
  The interval of the full sync is between 1 and 30 minutes whatever the environment contains, and it
  is the value of \<open>FULL_SYNC_INTERVAL_MINUTES\<close> when that is a number in this range.
\<close>

lemma full_sync_interval:
  "1 \<le> getFullSyncIntervalInMin environ \<and> getFullSyncIntervalInMin environ \<le> 30 \<and>
   (case Atoi (Getenv environ envFullSyncIntervalMinutes) of
      Some n \<Rightarrow> n \<in> {1..30} = (getFullSyncIntervalInMin environ = n)
    | None \<Rightarrow> getFullSyncIntervalInMin environ = 30)"
  by (auto simp: getFullSyncIntervalInMin_def defaultFullSyncIntervalInMin_def Let_def
      split: option.splits)

text \<open>
  After a successful initialisation the syncer can always name its container cluster: its virtual center
  exists and the configuration has a section for its host, so the unchecked lookup
  \<^verbatim>\<open>cfg.VirtualCenter[vcenter.Config.Host].User\<close> of the handlers does not panic; both maps of the full
  sync are empty.
\<close>

lemma InitSyncer_cluster:
  assumes "run_state (InitSyncer env newK8sClient) s = (Inr ms, s')"
  shows "(\<exists>cluster. run_state (clusterOf ms) s' = (Inr cluster, s') \<and>
            ClusterId cluster = Global_ClusterID (cfg ms)) \<and>
         cnsDeletionMap s' = Map.empty \<and> cnsCreationMap s' = Map.empty"
proof -
  let ?s0 = "s\<lparr>trace := trace s @ [CallReadConfig (configPath env)]\<rparr>"
  from assms obtain parsed conf a s1 u s2 where
      conf: "GetVirtualCenterConfig parsed = Inr conf"
    and reg: "run_state (RegisterVirtualCenter conf) ?s0 = (Inr a, s1)"
    and con: "run_state (Connect env a) s1 = (Inr u, s2)"
    and ms: "ms = \<lparr>cfg = parsed, vcenter = a\<rparr>"
    and s': "s' = s2\<lparr>cnsDeletionMap := Map.empty, cnsCreationMap := Map.empty\<rparr>"
    by (auto simp: InitSyncer_def split: sum.splits prod.splits)
  from keepsD [OF host_is_Connect con RegisterVirtualCenter_host [OF reg]]
  have "host_is a (conf_Host conf) s2" .
  with GetVirtualCenterConfig_host [OF conf] show ?thesis
    by (auto simp: clusterOf_def load_vc_def host_is_def ms s' GetContainerCluster_def)
qed

text \<open>
  C22. A deleted PV leads to the deletion of exactly its own volume, and only when it is a volume of this
  driver that the controller does not delete itself. The disk goes with it exactly when the PV was
  claimed and its reclaim policy is Delete, which then excludes the phases Available and Released.
\<close>

theorem pvDeleted_deletes:
  assumes "run_state (pvDeleted env ms obj) s = (r, s')" and "c \<in> new_calls s s'" and "cns_mutation c"
  shows "\<exists>p deleteDisk. obj = Some p \<and> isVsphereVolume p \<and> is_delete (pv_handle p, deleteDisk) c \<and>
    deleteDisk = (pv_ClaimRef p \<noteq> None \<and> pv_ReclaimPolicy p = PersistentVolumeReclaimDelete) \<and>
    \<not> (deleteDisk \<and> pv_Phase p \<in> {VolumeAvailable, VolumeReleased})"
  using emits_new_calls [OF emits_pvDeleted assms(1,2)] assms(3) by (simp add: changesOnly_def pv_deletion_def)

text \<open>
  C28. When \<open>updatePodMetadata\<close> reports no error, every claim the pod mounts was resolved to its PV, and each
  of these PVs that is a volume of this driver got its update with the pod's entry (marked for
  deletion when the pod is gone).
\<close>

theorem updatePodMetadata_complete:
  assumes "run_state (updatePodMetadata env k8s p ms deleteFlag) s = (Inr [], s')"
    and "volume \<in> set (pod_Volumes p)" and "podvol_ClaimName volume = Some claimName"
  shows "pod_volume_done env k8s p deleteFlag (new_calls s s') claimName"
  using assms unfolding updatePodMetadata_def by (rule updatePodVolumes_done)

text \<open>
  C29. What the handlers of claims and pods change in CNS. An updated claim writes its own entry (its name,
  namespace and labels), and only when it is bound and its phase or its labels changed; a deleted
  claim that was bound removes its own entry, and only from a volume that is not reclaimed by deletion; both on the
  volume of the PV that the lister has for the claim. A pod that goes from pending to running writes, and a deleted
  pod that was not pending removes, its own entry on the volumes of the PVs of the claims it mounts. All
  these volumes belong to this driver; nothing else is changed.
\<close>

theorem entry_handlers:
  "emits (changesOnly (claim_update env k8s oldPvc newPvc)) (pvcUpdated env k8s ms oldPvc newPvc) \<and>
   emits (changesOnly (claim_removal env k8s oldPvc)) (pvcDeleted env k8s ms oldPvc) \<and>
   emits (changesOnly (pod_update env k8s oldPod newPod)) (podUpdated env k8s ms oldPod newPod) \<and>
   emits (changesOnly (pod_removal env k8s oldPod)) (podDeleted env k8s ms oldPod)"
  using emits_entry_handlers by blast

text \<open>
  An updated PV changes CNS only when it is a live volume of this driver that is neither pending nor
  failed; the change is the update of its own entry, or (PV without storage class that was not
  Available before) the creation of the volume its disk backs.
\<close>

lemma pvUpdated_changes:
  assumes "run_state (pvUpdated env ms (Some oldPv) (Some newPv)) s = (r, s')"
    and "c \<in> new_calls s s'" and "cns_mutation c"
  shows "isVsphereVolume newPv \<and> \<not> pv_Deleting newPv \<and> pv_Phase newPv \<notin> {VolumePending, VolumeFailed} \<and>
    (if pv_Phase oldPv = VolumeAvailable \<or> pv_StorageClassName newPv \<noteq> []
     then updates_entry env (pv_handle newPv) (GetCnsKubernetesEntityMetaData (pv_Name newPv) (pv_Labels newPv)
            False PVType (pv_Namespace newPv)) c
     else (\<exists>spec. is_create env spec c \<and> create_Backing spec = BlockBackingDetails (pv_handle oldPv)))"
  using emits_new_calls [OF emits_pvUpdated assms(1,2)] assms(3) by (simp add: changesOnly_def pv_change_def)

text \<open>
  A label change of a bound PV without storage class (statically provisioned) is not sent to CNS as an
  update: the handler calls \<open>CreateVolume\<close> for the existing volume instead, although it is documented
  to update the metadata.
\<close>

lemma pvUpdated_static_bound:
  assumes "run_state (pvUpdated env ms (Some oldPv) (Some newPv)) s = (Inr (), s')"
    and "pv_Phase oldPv = VolumeBound" and "pv_StorageClassName newPv = []"
  shows "CallCnsUpdate cl specs \<notin> new_calls s s'"
proof
  assume c: "CallCnsUpdate cl specs \<in> new_calls s s'"
  have "emits (changesOnly (\<lambda>c. \<exists>spec. is_create env spec c)) (pvUpdated env ms (Some oldPv) (Some newPv))"
    unfolding pvUpdated_def Let_def prod.case option.case
    by (intro emits_rules | simp add: assms(2,3) | (erule changesOnly_mono, force))+
  from emits_new_calls [OF this assms(1) c] show False by (simp add: changesOnly_def)
qed

section \<open>Witnesses\<close>

lemmas handler_defs =
  sendUpdate_def manager_def GetManager_def clusterOf_def manager_defs withCNS_def validateManager_def
  cnsTask_def cnsClient_def sessionUser_def checkFault_def vc_program_defs
  sample_simps sample_k8s_def sample_syncer_def sample_ms_def sample_claimed_pv_def sample_claim_def
  vc_sample_config_def empty_config_def isVsphereVolume_def pv_handle_def

definition sample_file_env :: env where
  "sample_file_env = sample_env\<lparr>host_Files := (\<lambda>_ _. Opened (Inr (empty_config\<lparr>Global_ClusterID := ''c1'',
     VirtualCenter := [(''vc9'', \<lparr>User = ''u'', Password = ''p'', VCenterPort = ''443'', InsecureFlag = False,
       Datacenters = ''dc''\<rparr>)]\<rparr>)))\<rparr>"

lemma InitSyncer_cluster_witness:
  "\<exists>ms s'. run_state (InitSyncer sample_file_env (Inr ())) sample_syncer = (Inr ms, s') \<and>
     (\<exists>cluster. run_state (clusterOf ms) s' = (Inr cluster, s') \<and> ClusterId cluster = Global_ClusterID (cfg ms))"
proof -
  have "\<exists>ms s'. run_state (InitSyncer sample_file_env (Inr ())) sample_syncer = (Inr ms, s')"
    by (simp add: InitSyncer_def handler_defs sample_file_env_def GetCnsconfig_def ReadConfig_def
        fromEnvOrError_def overrideGlobals_def ParseBool_def addGlobalVC_def validateConfig_def Let_def
        validateVC_def DefaultVCenterPort_def GetVirtualCenterConfig_def GetVcenterIPs_def Atoi_def)
  with InitSyncer_cluster show ?thesis by blast
qed

definition sample_failed_pv :: pv where
  "sample_failed_pv = sample_claimed_pv\<lparr>pv_Phase := VolumeFailed\<rparr>"

theorem pvDeleted_deletes_witness:
  "\<exists>s'. run_state (pvDeleted sample_env sample_ms (Some sample_failed_pv)) sample_syncer = (Inr (), s') \<and>
     CallCnsDelete 0 [''vol-1''] True \<in> new_calls sample_syncer s' \<and> isVsphereVolume sample_failed_pv"
proof -
  obtain s' where s': "run_state (pvDeleted sample_env sample_ms (Some sample_failed_pv)) sample_syncer = (Inr (), s')"
      "CallCnsDelete 0 [''vol-1''] True \<in> new_calls sample_syncer s'"
    by (simp add: pvDeleted_def handler_defs sample_failed_pv_def new_calls_def)
  from pvDeleted_deletes [OF this] s' show ?thesis by auto
qed

definition sample_pod :: pod where
  "sample_pod = \<lparr>pod_Name = ''p1'', pod_Namespace = ''ns'', pod_Phase = PodRunning,
     pod_Volumes = [\<lparr>podvol_Name = ''data'', podvol_ClaimName = Some ''c1''\<rparr>]\<rparr>"

definition sample_lister_k8s :: k8s_env where
  "sample_lister_k8s = sample_k8s\<lparr>ans_PVLister := (\<lambda>_ _. Inr sample_claimed_pv),
     ans_PVCLister := (\<lambda>_ _ _. Inr sample_claim)\<rparr>"

theorem updatePodMetadata_complete_witness:
  "\<exists>s'. run_state (updatePodMetadata sample_env sample_lister_k8s sample_pod sample_ms False) sample_syncer = (Inr [], s') \<and>
     pod_volume_done sample_env sample_lister_k8s sample_pod False (new_calls sample_syncer s') ''c1''"
proof -
  obtain s' where s': "run_state (updatePodMetadata sample_env sample_lister_k8s sample_pod sample_ms False)
      sample_syncer = (Inr [], s')"
    by (simp add: updatePodMetadata_def updatePodVolume_def handler_defs sample_pod_def sample_lister_k8s_def Let_def)
  from updatePodMetadata_complete [OF s', of "\<lparr>podvol_Name = ''data'', podvol_ClaimName = Some ''c1''\<rparr>" "''c1''"] s'
  show ?thesis by (simp add: sample_pod_def)
qed

definition sample_labelled_pv :: pv where
  "sample_labelled_pv = sample_claimed_pv\<lparr>pv_Labels := Some [(''app'', ''db'')]\<rparr>"

lemma labelled_pv_run:
  "\<exists>s' spec. run_state (pvUpdated sample_env sample_ms (Some sample_claimed_pv) (Some sample_labelled_pv)) sample_syncer
     = (Inr (), s') \<and> CallCnsCreate 0 [spec] \<in> new_calls sample_syncer s'"
  by (simp add: pvUpdated_def handler_defs sample_labelled_pv_def Let_def new_calls_def)

lemma pvUpdated_changes_witness:
  "\<exists>s' spec. CallCnsCreate 0 [spec] \<in> new_calls sample_syncer s' \<and> isVsphereVolume sample_labelled_pv \<and>
     create_Backing spec = BlockBackingDetails ''vol-1''"
proof -
  obtain s' spec where s': "run_state (pvUpdated sample_env sample_ms (Some sample_claimed_pv) (Some sample_labelled_pv))
      sample_syncer = (Inr (), s')" "CallCnsCreate 0 [spec] \<in> new_calls sample_syncer s'"
    using labelled_pv_run by blast
  from pvUpdated_changes [OF s'] have "isVsphereVolume sample_labelled_pv"
    "create_Backing spec = BlockBackingDetails ''vol-1''"
    by (auto simp: sample_labelled_pv_def sample_claimed_pv_def pv_handle_def)
  with s'(2) show ?thesis by blast
qed

lemma pvUpdated_static_bound_witness:
  "\<exists>s' spec. CallCnsCreate 0 [spec] \<in> new_calls sample_syncer s' \<and> CallCnsUpdate 0 [] \<notin> new_calls sample_syncer s'"
proof -
  obtain s' spec where s': "run_state (pvUpdated sample_env sample_ms (Some sample_claimed_pv) (Some sample_labelled_pv))
      sample_syncer = (Inr (), s')" "CallCnsCreate 0 [spec] \<in> new_calls sample_syncer s'"
    using labelled_pv_run by blast
  from pvUpdated_static_bound [OF s'(1)] s'(2) show ?thesis
    by (auto simp: sample_labelled_pv_def sample_claimed_pv_def)
qed

end
