(* ===== verification/Syncer_Run.thy ===== *)
theory Syncer_Run
  imports Full_Sync_Steps Metadata_Syncer
begin

text \<open>
  The running syncer: what the listeners and the timer that \<open>Init\<close> of \<open>metadatasyncer.go\<close> sets up do from then
  on. Each listener calls its handlers one after the other, the goroutine of the timer runs one full sync
  after the other. A handler is one step, which may come between any two steps of the goroutines of a full sync. It is
  not held up by \<open>volumeOperationsLock\<close> here, so the relation has every interleaving of the program, and more.
  The part of a full sync before its goroutines, which only reads, is one step. After a panic the process is gone.
\<close>

section \<open>Events and runs\<close>

datatype event =
    PvcUpdated "pvc option" "pvc option"
  | PvcDeleted "pvc option"
  | PvUpdated "pv option" "pv option"
  | PvDeleted "pv option"
  | PodUpdated "pod option" "pod option"
  | PodDeleted "pod option"

definition handleEvent :: "env \<Rightarrow> k8s_env \<Rightarrow> MetadataSyncInformer \<Rightarrow> event \<Rightarrow> ('z, unit) syncE" where
  "handleEvent env k8s ms e = (case e of
     PvcUpdated oldObj newObj \<Rightarrow> pvcUpdated env k8s ms oldObj newObj
   | PvcDeleted obj \<Rightarrow> pvcDeleted env k8s ms obj
   | PvUpdated oldObj newObj \<Rightarrow> pvUpdated env ms oldObj newObj
   | PvDeleted obj \<Rightarrow> pvDeleted env ms obj
   | PodUpdated oldObj newObj \<Rightarrow> podUpdated env k8s ms oldObj newObj
   | PodDeleted obj \<Rightarrow> podDeleted env k8s ms obj)"

text \<open>The goroutine of the timer waits for the next tick, or waits for the goroutines of a full sync with this plan.\<close>

datatype 'z daemon = Idle "'z syncer_scheme" | Syncing plan "'z cycle"

fun state_of :: "'z daemon \<Rightarrow> 'z syncer_scheme" where
  "state_of (Idle s) = s"
| "state_of (Syncing p c) = sync c"

text \<open>The runs from a state, with the events handled and the plans of the full syncs begun so far.\<close>

inductive syncer_run ::
  "env \<Rightarrow> k8s_env \<Rightarrow> MetadataSyncInformer \<Rightarrow> 'z syncer_scheme \<Rightarrow> event list \<Rightarrow> plan list \<Rightarrow> 'z daemon \<Rightarrow> bool"
  for env k8s ms s0 where
  start: "syncer_run env k8s ms s0 [] [] (Idle s0)"
| event:
    "syncer_run env k8s ms s0 evs plans (Idle s) \<Longrightarrow> run_state (handleEvent env k8s ms e) s = (Inr (), s') \<Longrightarrow>
     syncer_run env k8s ms s0 (evs @ [e]) plans (Idle s')"
| event_syncing:
    "syncer_run env k8s ms s0 evs plans (Syncing p c) \<Longrightarrow> \<not> crashed c \<Longrightarrow>
     run_state (handleEvent env k8s ms e) (sync c) = (Inr (), s') \<Longrightarrow>
     syncer_run env k8s ms s0 (evs @ [e]) plans (Syncing p (c\<lparr>sync := s'\<rparr>))"
| tick_gave_up:
    "syncer_run env k8s ms s0 evs plans (Idle s) \<Longrightarrow>
     run_state (prepareFullSync env k8s ms) s = (Inr None, s') \<Longrightarrow>
     syncer_run env k8s ms s0 evs plans (Idle s')"
| tick:
    "syncer_run env k8s ms s0 evs plans (Idle s) \<Longrightarrow>
     run_state (prepareFullSync env k8s ms) s = (Inr (Some p), s') \<Longrightarrow>
     syncer_run env k8s ms s0 evs (plans @ [p]) (Syncing p (startCycle p s'))"
| goroutine:
    "syncer_run env k8s ms s0 evs plans (Syncing p c) \<Longrightarrow> sync_step env k8s ms c c' \<Longrightarrow>
     syncer_run env k8s ms s0 evs plans (Syncing p c')"
| finish:
    "syncer_run env k8s ms s0 evs plans (Syncing p c) \<Longrightarrow> wg c = 0 \<Longrightarrow> \<not> crashed c \<Longrightarrow>
     syncer_run env k8s ms s0 evs plans (Idle (cleanupCnsMaps (k8sPVsMap p) (sync c)))"

section \<open>What an event changes\<close>

fun event_change :: "env \<Rightarrow> k8s_env \<Rightarrow> event \<Rightarrow> call \<Rightarrow> bool" where
  "event_change env k8s (PvcUpdated oldObj newObj) c \<longleftrightarrow> claim_update env k8s oldObj newObj c"
| "event_change env k8s (PvcDeleted obj) c \<longleftrightarrow> claim_removal env k8s obj c"
| "event_change env k8s (PvUpdated oldObj newObj) c \<longleftrightarrow>
     (\<exists>oldPv newPv. oldObj = Some oldPv \<and> newObj = Some newPv \<and> pv_change env oldPv newPv c)"
| "event_change env k8s (PvDeleted obj) c \<longleftrightarrow> pv_deletion obj c"
| "event_change env k8s (PodUpdated oldObj newObj) c \<longleftrightarrow> pod_update env k8s oldObj newObj c"
| "event_change env k8s (PodDeleted obj) c \<longleftrightarrow> pod_removal env k8s obj c"

lemma emits_handleEvent: "emits (changesOnly (event_change env k8s e)) (handleEvent env k8s ms e)"
proof (cases e)
  case (PvUpdated oldObj newObj)
  show ?thesis
  proof (cases "\<exists>oldPv newPv. oldObj = Some oldPv \<and> newObj = Some newPv")
    case True
    then obtain oldPv newPv where "oldObj = Some oldPv" "newObj = Some newPv" by blast
    with PvUpdated show ?thesis
      by (auto simp: handleEvent_def elim!: changesOnly_mono intro!: emits_mono [OF emits_pvUpdated])
  next
    case False
    then have "oldObj = None \<or> newObj = None" by auto
    with PvUpdated show ?thesis
      by (cases oldObj) (auto simp: handleEvent_def pvUpdated_def emits_return)
  qed
qed (auto simp: handleEvent_def elim!: changesOnly_mono
      intro!: emits_mono [OF emits_entry_handlers(1)] emits_mono [OF emits_entry_handlers(2)]
        emits_mono [OF emits_entry_handlers(3)] emits_mono [OF emits_entry_handlers(4)] emits_mono [OF emits_pvDeleted])

text \<open>No handler touches the maps of the full sync.\<close>

lemma keeps_clusterOf [keeps_rules]: "keeps I (clusterOf ms)"
  unfolding clusterOf_def by (intro keeps_rules)

lemma keeps_sendUpdate [keeps_rules]: "keeps (maps_are x) (sendUpdate env ms v m f y)"
  unfolding sendUpdate_def
  by (intro keeps_rules steady_manager) simp_all

lemma keeps_updatePodVolumes [keeps_rules]: "keeps (maps_are x) (updatePodVolumes env k8s ms p del vols)"
proof (induction vols)
  case (Cons volume vols)
  have "keeps (maps_are x) (updatePodVolume env k8s ms p del volume)"
    unfolding updatePodVolume_def by (intro keeps_rules keeps_maps_perform)
  with Cons show ?case unfolding updatePodVolumes.simps by (intro keeps_rules)
qed (simp add: keeps_return)

lemmas handlers_defs =
  pvcUpdated_def pvcDeleted_def pvUpdated_def pvDeleted_def podUpdated_def podDeleted_def updatePodMetadata_def

lemma keeps_handleEvent: "keeps (maps_are x) (handleEvent env k8s ms e)"
  unfolding handleEvent_def handlers_defs Let_def
  by (cases e; simp; intro keeps_rules steady_manager; simp add: maps_are_def sync_maps_def)


section \<open>The invariant of a run\<close>

text \<open>What is recorded for deletion was missing in the listing of the last plan; what is recorded for creation was in it.\<close>

definition recorded :: "plan list \<Rightarrow> 'z syncer_scheme \<Rightarrow> bool" where
  "recorded plans s \<longleftrightarrow>
     (\<forall>v \<in> dom (cnsDeletionMap s). plans \<noteq> [] \<and> k8sPVsMap (last plans) v = None) \<and>
     (\<forall>h \<in> dom (cnsCreationMap s). plans \<noteq> [] \<and> k8sPVsMap (last plans) h \<noteq> None)"

text \<open>
  Two plans in a row: what the second deletes is in neither of their listings of Kubernetes; what it creates
  is in both, or is the handle of two PVs of its listing. The first plan deletes nothing.
\<close>

definition listed_twice :: "k8s_env \<Rightarrow> plan \<Rightarrow> string \<Rightarrow> bool" where
  "listed_twice k8s p h \<longleftrightarrow> (\<exists>pvs. k8s_listed k8s pvs \<and> set pvs = dom (k8sPVsMap p) \<and> 2 \<le> count_list pvs h)"

definition two_cycles :: "k8s_env \<Rightarrow> plan list \<Rightarrow> bool" where
  "two_cycles k8s plans \<longleftrightarrow> (\<forall>j < length plans.
     (\<forall>v \<in> set (volToBeDeleted (plans ! j)).
        0 < j \<and> k8sPVsMap (plans ! (j - 1)) v = None \<and> k8sPVsMap (plans ! j) v = None) \<and>
     (\<forall>h \<in> BackingDiskId ` create_Backing ` set (createSpecArray (plans ! j)).
        (0 < j \<and> k8sPVsMap (plans ! (j - 1)) h \<noteq> None \<or> listed_twice k8s (plans ! j) h) \<and>
        k8sPVsMap (plans ! j) h \<noteq> None))"

definition explained :: "env \<Rightarrow> k8s_env \<Rightarrow> event list \<Rightarrow> plan list \<Rightarrow> call \<Rightarrow> bool" where
  "explained env k8s evs plans c \<longleftrightarrow> (\<exists>e \<in> set evs. event_change env k8s e c) \<or> (\<exists>p \<in> set plans. allowed env k8s p c)"

fun activity_inv :: "env \<Rightarrow> k8s_env \<Rightarrow> plan list \<Rightarrow> 'z daemon \<Rightarrow> bool" where
  "activity_inv env k8s plans (Idle s) \<longleftrightarrow> recorded plans s"
| "activity_inv env k8s plans (Syncing p c) \<longleftrightarrow>
     plans \<noteq> [] \<and> p = last plans \<and> cycle_inv p c \<and> trace_inv env k8s p (trace (sync c)) c"

definition run_inv ::
  "env \<Rightarrow> k8s_env \<Rightarrow> 'z syncer_scheme \<Rightarrow> event list \<Rightarrow> plan list \<Rightarrow> 'z daemon \<Rightarrow> bool" where
  "run_inv env k8s s0 evs plans d \<longleftrightarrow> two_cycles k8s plans \<and> activity_inv env k8s plans d \<and>
     (\<exists>ks. trace (state_of d) = trace s0 @ ks \<and> list_all (changesOnly (explained env k8s evs plans)) ks)"

lemma explained_mono:
  "explained env k8s evs plans c \<Longrightarrow> set evs \<subseteq> set evs' \<Longrightarrow> set plans \<subseteq> set plans' \<Longrightarrow> explained env k8s evs' plans' c"
  by (auto simp: explained_def)

text \<open>The trace grows by explained calls.\<close>

lemma trace_explained:
  assumes "\<exists>ks. trace s = tr @ ks \<and> list_all (changesOnly (explained env k8s evs plans)) ks"
    and "trace s' = trace s @ ks'" and "list_all (changesOnly does) ks'"
    and "\<And>c. does c \<Longrightarrow> explained env k8s evs' plans' c"
    and "set evs \<subseteq> set evs'" and "set plans \<subseteq> set plans'"
  shows "\<exists>ks. trace s' = tr @ ks \<and> list_all (changesOnly (explained env k8s evs' plans')) ks"
proof -
  from assms(1) obtain ks where "trace s = tr @ ks" "list_all (changesOnly (explained env k8s evs plans)) ks" by blast
  with assms(2-6) show ?thesis
    by (intro exI [of _ "ks @ ks'"]) (auto simp: list_all_iff changesOnly_def intro: explained_mono)
qed

lemma handleEvent_effect:
  assumes "run_state (handleEvent env k8s ms e) s = (r, s')"
  obtains ks where "trace s' = trace s @ ks" and "list_all (changesOnly (event_change env k8s e)) ks"
    and "cnsDeletionMap s' = cnsDeletionMap s" and "cnsCreationMap s' = cnsCreationMap s"
proof -
  have "sync_maps s' = sync_maps s"
    using keepsD [OF keeps_handleEvent assms, of "sync_maps s"] by (simp add: maps_are_def)
  moreover obtain ks where "trace s' = trace s @ ks" "list_all (changesOnly (event_change env k8s e)) ks"
    using emits_handleEvent assms by (rule emitsE)
  ultimately show ?thesis using that by (simp add: sync_maps_def)
qed

text \<open>The plan of a new full sync keeps the rule of the two cycles.\<close>

lemma two_cycles_snoc:
  assumes "two_cycles k8s plans" and rec: "recorded plans s" and plan: "planned pvs ids s p s'"
    and listed: "k8s_listed k8s (map pv_handle pvs)"
  shows "two_cycles k8s (plans @ [p])"
proof -
  have K: "k8sPVsMap p v = None \<longleftrightarrow> v \<notin> set (map pv_handle pvs)" for v
    using plan unfolding planned_def by (metis domIff)
  have del: "k8sPVsMap (last plans) v = None \<and> plans \<noteq> [] \<and> k8sPVsMap p v = None" if "v \<in> set (volToBeDeleted p)" for v
    using that plan rec by (auto simp: planned_def recorded_def K)
  have create: "(k8sPVsMap (last plans) h \<noteq> None \<and> plans \<noteq> [] \<or> listed_twice k8s p h) \<and> k8sPVsMap p h \<noteq> None"
    if h: "h \<in> BackingDiskId ` create_Backing ` set (createSpecArray p)" for h
  proof -
    from h obtain spec where spec: "spec \<in> set (createSpecArray p)" "h = BackingDiskId (create_Backing spec)" by blast
    from plan spec(1) obtain h' where "create_Backing spec = BlockBackingDetails h'" "h' \<in> set (map pv_handle pvs)"
      "cnsCreationMap s h' \<noteq> None \<or> 2 \<le> count_list (map pv_handle pvs) h'" by (rule planned_create)
    with spec(2) have h: "h \<in> set (map pv_handle pvs)" "cnsCreationMap s h \<noteq> None \<or> 2 \<le> count_list (map pv_handle pvs) h"
      by simp_all
    have "2 \<le> count_list (map pv_handle pvs) h \<Longrightarrow> listed_twice k8s p h"
      using listed plan unfolding listed_twice_def planned_def by metis
    with h rec K [of h] show ?thesis unfolding recorded_def by (meson domIff)
  qed
  show ?thesis
    unfolding two_cycles_def
  proof (intro allI impI)
    fix j assume "j < length (plans @ [p])"
    then consider "j < length plans" | "j = length plans" by fastforce
    then show "(\<forall>v \<in> set (volToBeDeleted ((plans @ [p]) ! j)). 0 < j \<and>
          k8sPVsMap ((plans @ [p]) ! (j - 1)) v = None \<and> k8sPVsMap ((plans @ [p]) ! j) v = None) \<and>
        (\<forall>h \<in> BackingDiskId ` create_Backing ` set (createSpecArray ((plans @ [p]) ! j)).
          (0 < j \<and> k8sPVsMap ((plans @ [p]) ! (j - 1)) h \<noteq> None \<or> listed_twice k8s ((plans @ [p]) ! j) h) \<and>
          k8sPVsMap ((plans @ [p]) ! j) h \<noteq> None)"
    proof cases
      case 1
      then have "(plans @ [p]) ! j = plans ! j" "(plans @ [p]) ! (j - 1) = plans ! (j - 1)"
        by (simp_all add: nth_append less_imp_diff_less)
      with 1 assms(1) show ?thesis unfolding two_cycles_def by metis
    next
      case 2
      have "plans \<noteq> [] \<Longrightarrow> (plans @ [p]) ! (j - 1) = last plans \<and> 0 < j" using 2 by (simp add: nth_append last_conv_nth)
      with 2 del create show ?thesis by (metis nth_append_length)
    qed
  qed
qed

lemma recorded_cleanup: "plans \<noteq> [] \<Longrightarrow> recorded plans (cleanupCnsMaps (k8sPVsMap (last plans)) s)"
  by (auto simp: recorded_def cleanupCnsMaps_def split: if_splits)

lemma trace_inv_now: "trace_inv env k8s p tr c \<Longrightarrow> trace_inv env k8s p (trace (sync c)) c"
  by (auto simp: trace_inv_def)

lemma run_inv_event:
  assumes inv: "run_inv env k8s s0 evs plans d" and e: "run_state (handleEvent env k8s ms e) (state_of d) = (r, s')"
    and "d' = (case d of Idle _ \<Rightarrow> Idle s' | Syncing p c \<Rightarrow> Syncing p (c\<lparr>sync := s'\<rparr>))"
  shows "run_inv env k8s s0 (evs @ [e]) plans d'"
proof -
  from e obtain ks where ks: "trace s' = trace (state_of d) @ ks" "list_all (changesOnly (event_change env k8s e)) ks"
    and maps: "cnsDeletionMap s' = cnsDeletionMap (state_of d)" "cnsCreationMap s' = cnsCreationMap (state_of d)"
    by (rule handleEvent_effect)
  have "\<exists>ks. trace s' = trace s0 @ ks \<and> list_all (changesOnly (explained env k8s (evs @ [e]) plans)) ks"
    by (rule trace_explained [OF _ ks]) (use inv in \<open>auto simp: run_inv_def explained_def\<close>)
  with inv maps assms(3) show ?thesis
    by (cases d) (auto simp: run_inv_def recorded_def cycle_inv_def trace_inv_def)
qed

lemma run_inv_tick:
  assumes unique: "unique_volumes env" and inv: "run_inv env k8s s0 evs plans (Idle s)"
    and prep: "run_state (prepareFullSync env k8s ms) s = (Inr (Some p), s')"
  shows "run_inv env k8s s0 evs (plans @ [p]) (Syncing p (startCycle p s'))"
proof -
  obtain allPVs ids where plan: "planned (filter inDesiredState allPVs) ids s p s'" and "ans_ListPVs k8s (trace s) = Inr allPVs"
    using prepareFullSync_planned [OF prep unique] by metis
  then have "k8s_listed k8s (map pv_handle (filter inDesiredState allPVs))" unfolding k8s_listed_def by blast
  with inv have two: "two_cycles k8s (plans @ [p])" by (auto simp: run_inv_def intro: two_cycles_snoc [OF _ _ plan])
  from emits_prepareFullSync prep obtain ks where ks: "trace s' = trace s @ ks" "list_all (\<lambda>c. \<not> cns_mutation c) ks"
    by (rule emitsE)
  have "\<exists>ks. trace s' = trace s0 @ ks \<and> list_all (changesOnly (explained env k8s evs (plans @ [p]))) ks"
    by (rule trace_explained [OF _ ks(1), where does = "\<lambda>_. False"])
       (use inv ks(2) in \<open>auto simp: run_inv_def changesOnly_def list_all_iff\<close>)
  with two show ?thesis
    by (simp add: run_inv_def cycle_inv_start) (simp add: startCycle_def trace_inv_def)
qed

lemma run_inv_gave_up:
  assumes inv: "run_inv env k8s s0 evs plans (Idle s)" and prep: "run_state (prepareFullSync env k8s ms) s = (Inr None, s')"
  shows "run_inv env k8s s0 evs plans (Idle s')"
proof -
  from emits_prepareFullSync prep obtain ks where ks: "trace s' = trace s @ ks" "list_all (\<lambda>c. \<not> cns_mutation c) ks"
    by (rule emitsE)
  have "\<exists>ks. trace s' = trace s0 @ ks \<and> list_all (changesOnly (explained env k8s evs plans)) ks"
    by (rule trace_explained [OF _ ks(1), where does = "\<lambda>_. False"])
       (use inv ks(2) in \<open>auto simp: run_inv_def changesOnly_def list_all_iff\<close>)
  with inv prepareFullSync_None [OF prep] show ?thesis by (simp add: run_inv_def recorded_def sync_maps_def)
qed

lemma run_inv_goroutine:
  assumes inv: "run_inv env k8s s0 evs plans (Syncing p c)" and step: "sync_step env k8s ms c c'"
  shows "run_inv env k8s s0 evs plans (Syncing p c')"
proof -
  from inv have p: "p \<in> set plans" "cycle_inv p c" "trace_inv env k8s p (trace (sync c)) c"
    by (auto simp: run_inv_def)
  note trace = trace_inv_step [OF step p(2,3)]
  then obtain ks where ks: "trace (sync c') = trace (sync c) @ ks" "list_all (changesOnly (allowed env k8s p)) ks"
    by (auto simp: trace_inv_def)
  have "\<exists>ks. trace (sync c') = trace s0 @ ks \<and> list_all (changesOnly (explained env k8s evs plans)) ks"
    by (rule trace_explained [OF _ ks]) (use inv p(1) in \<open>auto simp: run_inv_def explained_def\<close>)
  with inv cycle_inv_step [OF step p(2)] trace_inv_now [OF trace] show ?thesis by (simp add: run_inv_def)
qed

lemma run_inv_run:
  assumes "syncer_run env k8s ms s0 evs plans d" and unique: "unique_volumes env"
    and "cnsDeletionMap s0 = Map.empty" "cnsCreationMap s0 = Map.empty"
  shows "run_inv env k8s s0 evs plans d"
  using assms(1)
proof (induction rule: syncer_run.induct)
  case start
  with assms(3,4) show ?case by (simp add: run_inv_def two_cycles_def recorded_def)
next
  case (event evs plans s e s')
  from run_inv_event [OF event.IH] event.hyps(2) show ?case by simp
next
  case (event_syncing evs plans p c e s')
  from run_inv_event [OF event_syncing.IH] event_syncing.hyps(3) show ?case by simp
next
  case tick_gave_up then show ?case by (blast intro: run_inv_gave_up)
next
  case tick then show ?case by (blast intro: run_inv_tick [OF unique])
next
  case goroutine then show ?case by (blast intro: run_inv_goroutine)
next
  case (finish evs plans p c)
  then have "plans \<noteq> []" "p = last plans" by (simp_all add: run_inv_def)
  with finish.IH recorded_cleanup [of plans "sync c"] show ?case by (simp add: run_inv_def cleanupCnsMaps_def)
qed

lemma run_explained:
  assumes "syncer_run env k8s ms s0 evs plans d" and "unique_volumes env"
    and "cnsDeletionMap s0 = Map.empty" "cnsCreationMap s0 = Map.empty"
    and "c \<in> new_calls s0 (state_of d)" and "cns_mutation c"
  shows "explained env k8s evs plans c" and "two_cycles k8s plans"
  using run_inv_run [OF assms(1-4)] assms(5,6)
  by (auto simp: run_inv_def new_calls_def list_all_iff changesOnly_def)

text \<open>Only a deleted PV deletes, only an updated PV creates.\<close>

lemmas entry_changes_def = claim_update_def claim_removal_def pod_update_def pod_removal_def pod_entry_def

lemma event_deletes:
  assumes "event_change env k8s e (CallCnsDelete cl ids deleteDisk)"
  obtains p where "e = PvDeleted (Some p)" "isVsphereVolume p" "ids = [pv_handle p]"
    "deleteDisk = (pv_ClaimRef p \<noteq> None \<and> pv_ReclaimPolicy p = PersistentVolumeReclaimDelete)"
  using assms by (cases e) (auto simp: entry_changes_def pv_change_def pv_deletion_def split: if_splits)

lemma event_creates:
  assumes "event_change env k8s e (CallCnsCreate cl specs)"
  obtains oldPv newPv spec where "e = PvUpdated (Some oldPv) (Some newPv)" "isVsphereVolume newPv"
    "pv_StorageClassName newPv = []" "specs = [spec]" "create_Backing spec = BlockBackingDetails (pv_handle oldPv)"
  using assms by (cases e) (auto simp: entry_changes_def pv_change_def pv_deletion_def split: if_splits)

section \<open>Properties\<close>



section \<open>Witnesses\<close>

text \<open>A complete full sync is a part of a run.\<close>

lemma full_sync_run:
  assumes run: "syncer_run env k8s ms s0 evs plans (Idle s)" and "triggerFullSync env k8s ms s s'"
  shows "\<exists>ps. syncer_run env k8s ms s0 evs (plans @ ps) (Idle s')"
  using assms(2)
proof (cases rule: triggerFullSync.cases)
  case gave_up
  from syncer_run.tick_gave_up [OF run this] show ?thesis by (intro exI [of _ "[]"]) simp
next
  case (complete p s1 c)
  have "syncer_run env k8s ms s0 evs (plans @ [p]) (Syncing p c)"
    using complete(3) by (induction rule: rtranclp_induct) (auto intro: syncer_run.tick [OF run complete(2)] syncer_run.goroutine)
  from syncer_run.finish [OF this complete(4,5)] complete(1) show ?thesis by blast
qed

text \<open>An orphan of CNS is recorded by the first full sync and deleted by the second.\<close>

lemma orphan_cycles:
  "\<exists>s1 s2. run_state (sequentialFullSync sample_orphan_env sample_k8s sample_ms) sample_syncer = (Inr True, s1) \<and>
     run_state (sequentialFullSync sample_orphan_env sample_k8s sample_ms) s1 = (Inr True, s2) \<and>
     (\<exists>cl. CallCnsDelete cl [''vol-9''] False \<in> new_calls sample_syncer s2)"
  by (simp add: sync_program_defs sample_sync_simps vc_program_defs new_calls_def)


text \<open>A PV unknown to CNS is recorded by the first full sync and created by the second.\<close>

lemma uncreated_cycles:
  "\<exists>s1 s2. run_state (sequentialFullSync sample_env sample_pv_k8s sample_ms) sample_syncer = (Inr True, s1) \<and>
     run_state (sequentialFullSync sample_env sample_pv_k8s sample_ms) s1 = (Inr True, s2) \<and>
     (\<exists>cl spec. CallCnsCreate cl [spec] \<in> new_calls sample_syncer s2)"
  by (simp add: sync_program_defs sample_sync_simps vc_program_defs new_calls_def sample_pv_k8s_def
      sample_pv_def inDesiredState_def pv_handle_def classifyPV_def Let_def
      clusterOf_def vc_sample_config_def empty_config_def)


end
