(* ===== verification/Syncer_Safety.thy ===== *)
theory Syncer_Safety
  imports Connection_Safety Syncer_Run
begin

text \<open>
  When the syncer's process can crash. Once \<open>Init\<close> succeeded, the virtual center of the syncer is in the heap, its
  host has a section in the configuration, and every event handler and every step of a full sync keeps it so. The
  handlers swallow every error. Of the nil dereferences and type assertions of the code two can be reached: the session
  is dereferenced although vCenter may answer that there is none, and an entry of CNS is taken for Kubernetes metadata.

  The handlers and the steps of the goroutines are taken one at a time. A handler that another goroutine interrupts
  between its connection and its next read of the client is outside these runs; the last lemma shows that it can crash.
\<close>

section \<open>The invariant of the process\<close>

definition wired :: "MetadataSyncInformer \<Rightarrow> 'z csi_scheme \<Rightarrow> bool" where
  "wired ms s \<longleftrightarrow>
     (\<exists>vc. vcs s (vcenter ms) = Some vc \<and> map_of (VirtualCenter (cfg ms)) (conf_Host (vc_Config vc)) \<noteq> None) \<and>
     (\<forall>a. managerInstance s = Some (Some a) \<longrightarrow> vcs s a \<noteq> None)"

definition k8s_returns :: "k8s_env \<Rightarrow> bool" where
  "k8s_returns k8s \<longleftrightarrow> returns (ans_ListPVs k8s) \<and> (\<forall>ns n. returns (ans_GetPVC k8s ns n)) \<and>
     (\<forall>ns. returns (ans_ListPods k8s ns)) \<and> (\<forall>n. returns (ans_PVLister k8s n)) \<and>
     (\<forall>ns n. returns (ans_PVCLister k8s ns n))"

interpretation wired: live_vc "\<lambda>s. wired ms s \<and> vcs s a \<noteq> None" a for ms a
  by unfold_locales (auto simp: wired_def)

lemma wired_trace [simp]: "wired ms (s\<lparr>trace := tr\<rparr>) = wired ms s"
  by (simp add: wired_def)

lemma wired_maps [simp]:
  "wired ms (s\<lparr>cnsCreationMap := c\<rparr>) = wired ms s" "wired ms (s\<lparr>cnsDeletionMap := c\<rparr>) = wired ms s"
  "wired ms (s\<lparr>cnsVolumeToPodMap := p\<rparr>) = wired ms s" "wired ms (s\<lparr>cnsVolumeToPvcMap := p\<rparr>) = wired ms s"
  "wired ms (s\<lparr>cnsVolumeToEntityNamespaceMap := p\<rparr>) = wired ms s"
  by (simp_all add: wired_def)

lemma wired_call: "returns answer \<Longrightarrow> sound (wired ms) lost True (perform c answer)"
  by (rule sound_perform) simp_all

lemma manager_sound:
  assumes "\<And>a. sound (\<lambda>s. wired ms s \<and> vcs s a \<noteq> None) lost True (operation (Some a))"
    and "sound (wired ms) lost True (operation None)"
  shows "sound (wired ms) lost True (manager ms operation)"
  unfolding sound_def manager_def
proof (rule valid_bind [where R = "\<lambda>m s. wired ms s \<and> (\<forall>a. m = Some a \<longrightarrow> vcs s a \<noteq> None)"])
  fix m :: "nat option"
  show "valid (\<lambda>s. wired ms s \<and> (\<forall>a. m = Some a \<longrightarrow> vcs s a \<noteq> None)) (operation m) (\<lambda>_. wired ms) (fails (wired ms) lost True)"
  proof (cases m)
    case None with assms(2) show ?thesis by (simp add: sound_def)
  next
    case (Some a)
    from assms(1) [of a] show ?thesis unfolding Some sound_def
      by (rule valid_conseq) (auto simp: fails_def)
  qed
qed (auto simp: GetManager_def wired_def split: option.splits)

lemma withCNS_None: "sound I lost True (withCNS env None k)"
  unfolding withCNS_def validateManager_def by (auto intro!: sound_return)

lemma manager_operations:
  assumes "vsphere_returns env"
  shows "sound (wired ms) (session_lost env) True (manager ms (\<lambda>m. QueryVolume env m f))"
    and "sound (wired ms) (session_lost env) True (manager ms (\<lambda>m. QueryAllVolume env m f))"
    and "sound (wired ms) (session_lost env) True (manager ms (\<lambda>m. DeleteVolume env m vol del))"
    and "sound (wired ms) (session_lost env) True (manager ms (\<lambda>m. CreateVolume env m spec))"
    and "sound (wired ms) (session_lost env) True (manager ms (\<lambda>m. UpdateVolumeMetadata env m uspec))"
  by (rule manager_sound, rule wired.QueryVolume_sound [OF assms] wired.DeleteVolume_sound [OF assms]
        wired.CreateVolume_sound [OF assms] wired.UpdateVolumeMetadata_sound [OF assms],
      simp only: manager_defs withCNS_None)+

lemma clusterOf_sound: "sound (wired ms) lost plain (clusterOf ms)"
  by (rule soundI) (auto simp: clusterOf_def load_vc_def wired_def)

section \<open>The event handlers\<close>

lemma sendUpdate_sound:
  "vsphere_returns env \<Longrightarrow> sound (wired ms) (session_lost env) plain (sendUpdate env ms v m f x)"
  unfolding sendUpdate_def by (intro sound_rules clusterOf_sound manager_operations)

lemma updatePodVolumes_sound:
  assumes "vsphere_returns env" and "k8s_returns k8s"
  shows "sound (wired ms) (session_lost env) plain (updatePodVolumes env k8s ms p del vols)"
proof (induction vols)
  case (Cons volume vols)
  from assms(2) have calls: "returns (ans_PVCLister k8s ns n)" "returns (ans_PVLister k8s n)" for ns n
    by (auto simp: k8s_returns_def)
  have "sound (wired ms) (session_lost env) plain (updatePodVolume env k8s ms p del volume)"
    unfolding updatePodVolume_def by (intro sound_rules wired_call calls sendUpdate_sound assms(1))
  with Cons show ?case unfolding updatePodVolumes.simps by (intro sound_rules)
qed (simp add: sound_Inr_return)

lemma handleEvent_sound:
  assumes "vsphere_returns env" and "k8s_returns k8s"
  shows "sound (wired ms) (session_lost env) False (handleEvent env k8s ms e)"
proof -
  from assms(2) have calls: "returns (ans_PVLister k8s n)" for n by (auto simp: k8s_returns_def)
  note handlers = calls [THEN wired_call] sendUpdate_sound [OF assms(1)] updatePodVolumes_sound [OF assms]
    manager_operations [OF assms(1)] clusterOf_sound
  show ?thesis
    unfolding handleEvent_def handlers_defs Let_def
    by (cases e; simp only: event.case; intro sound_rules handlers)
qed

section \<open>The full sync\<close>

lemma getPVs_sound:
  "k8s_returns k8s \<Longrightarrow> sound (wired ms) lost True (getPVsInBoundAvailableOrReleased k8s)"
  unfolding getPVsInBoundAvailableOrReleased_def
  by (intro sound_rules wired_call) (simp add: k8s_returns_def)

lemma buildMaps_sound:
  assumes "k8s_returns k8s"
  shows "sound (wired ms) lost plain (buildMaps k8s pvs claims pods)"
proof (induction pvs arbitrary: claims pods)
  case (Cons p pvs)
  from assms have calls: "returns (ans_GetPVC k8s ns n)" "returns (ans_ListPods k8s ns)" for ns n
    by (auto simp: k8s_returns_def)
  show ?case unfolding buildMaps.simps Let_def by (intro sound_rules wired_call calls Cons)
qed (simp add: sound_Inr_return)

text \<open>
  CNS has just answered a query with a volume that has an entry which is not Kubernetes metadata.
\<close>

definition foreign_entry :: "env \<Rightarrow> 'z driver_scheme \<Rightarrow> bool" where
  "foreign_entry env s \<longleftrightarrow> (\<exists>tr cl f vol vols kind. trace s = tr @ [CallCnsQuery cl f] \<and>
     ans_CnsQuery env f tr = Inr (vol # vols) \<and> OtherEntity kind \<in> set (vol_EntityMetadata vol))"

definition crash_cause :: "env \<Rightarrow> 'z driver_scheme \<Rightarrow> bool" where
  "crash_cause env s \<longleftrightarrow> session_lost env s \<or> foreign_entry env s"

lemma wired_recordCnsEntity [simp]: "wired ms (recordCnsEntity n m s) = wired ms s"
  by (simp add: recordCnsEntity_def)

lemma getCnsUpdateOperationType_keeps:
  "keeps (\<lambda>s. wired ms s \<and> trace s = tr) (getCnsUpdateOperationType xs ys n)"
  unfolding getCnsUpdateOperationType_def asKubernetes_def
  by (intro keeps_if keeps_bindE keeps_bind keeps_forE keeps_mapE keeps_return keeps_assign) simp_all

text \<open>With Kubernetes metadata only, every assertion succeeds; hence a panic has an entry of another type to blame.\<close>

lemma asKubernetes_loops:
  assumes "\<And>kind. OtherEntity kind \<notin> set ys"
  shows "\<exists>s'. run_state (forE (\<lambda>y. bindE (asKubernetes y) (\<lambda>m. do { assign (g m); State_Monad.return (Inr ()) })) ys) s = (Inr (), s')"
    and "\<exists>ms. run_state (mapE asKubernetes ys) s = (Inr ms, s)"
proof -
  have "\<exists>s'. run_state (forE (\<lambda>y. bindE (asKubernetes y) (\<lambda>m. do { assign (g m); State_Monad.return (Inr ()) })) ys) s = (Inr (), s')"
    using assms
  proof (induction ys arbitrary: s)
    case (Cons y ys)
    then obtain m where "y = KubernetesEntity m" by (cases y) auto
    with Cons show ?case by (auto simp: asKubernetes_def)
  qed simp
  moreover have "\<exists>ms. run_state (mapE asKubernetes ys) s = (Inr ms, s)"
    using assms
  proof (induction ys)
    case (Cons y ys)
    then obtain m where "y = KubernetesEntity m" by (cases y) auto
    with Cons show ?case by (auto simp: asKubernetes_def)
  qed simp
  ultimately show "\<exists>s'. run_state (forE (\<lambda>y. bindE (asKubernetes y) (\<lambda>m. do { assign (g m); State_Monad.return (Inr ()) })) ys) s = (Inr (), s')"
    and "\<exists>ms. run_state (mapE asKubernetes ys) s = (Inr ms, s)" by blast+
qed

lemma getCnsUpdateOperationType_panics:
  assumes "run_state (getCnsUpdateOperationType xs ys n) s = (Inl e, s')"
  shows "panics e \<and> (\<exists>kind. OtherEntity kind \<in> set ys)"
proof -
  have "\<exists>kind. OtherEntity kind \<in> set ys"
  proof (rule ccontr)
    assume "\<nexists>kind. OtherEntity kind \<in> set ys"
    then have none: "OtherEntity kind \<notin> set ys" for kind by blast
    obtain s1 where "run_state (forE (\<lambda>y. bindE (asKubernetes y) (\<lambda>m. do {
        assign (recordCnsEntity n m); State_Monad.return (Inr ()) })) ys) s = (Inr (), s1)"
      using asKubernetes_loops(1) [OF none, of "recordCnsEntity n" s] by blast
    moreover obtain ms ms1 where "run_state (mapE asKubernetes ys) s = (Inr ms, s)"
      "run_state (mapE asKubernetes ys) s1 = (Inr ms1, s1)"
      using asKubernetes_loops(2) [OF none, of s] asKubernetes_loops(2) [OF none, of s1] by blast
    ultimately show False using assms by (auto simp: getCnsUpdateOperationType_def split: if_splits)
  qed
  moreover have "length xs \<le> length ys" using assms by (auto simp: getCnsUpdateOperationType_def split: if_splits)
  ultimately show ?thesis using foreign_entry_panics assms by (metis Pair_inject panics.simps(1) sum.inject(1))
qed

lemma queryVolume_last:
  assumes "run_state (manager ms (\<lambda>m. QueryVolume env m f)) s = (Inr vols, s')"
  shows "\<exists>tr cl. trace s' = tr @ [CallCnsQuery cl f] \<and> ans_CnsQuery env f tr = Inr vols"
  using assms
  by (auto simp: manager_def QueryVolume_def elim!: withCNS_Inr split: prod.splits sum.splits)

lemma classifyPV_sound:
  assumes "vsphere_returns env"
  shows "sound (wired ms) (crash_cause env) False (classifyPV env ms ids claims pods p)"
proof (cases "pv_handle p \<in> set ids")
  case False
  then show ?thesis unfolding classifyPV_def Let_def by (auto intro!: sound_rules keeps_rules)
next
  case True
  let ?q = "manager ms (\<lambda>m. QueryVolume env m \<lparr>filter_VolumeIds = [pv_handle p], filter_ContainerClusterIds = []\<rparr>)"
  let ?op = "\<lambda>vol. getCnsUpdateOperationType (buildCnsUpdateMetadataList p claims pods) (vol_EntityMetadata vol) (pv_Name p)"
  note q = manager_operations(1) [OF assms]
  have wired: "keeps (wired ms) (?op vol)" for vol
    by (rule keepsI) (use getCnsUpdateOperationType_keeps in \<open>blast dest: keepsD\<close>)
  have run: "run_state (classifyPV env ms ids claims pods p) s = (case run_state ?q s of
      (Inl e, s1) \<Rightarrow> if panics e then (Inl e, s1) else (Inr noOperation, s1)
    | (Inr [], s1) \<Rightarrow> (Inr noOperation, s1) | (Inr (vol # _), s1) \<Rightarrow> run_state (?op vol) s1)" for s
    using True by (auto simp: classifyPV_def Let_def handle_def split: prod.splits sum.splits list.splits error.splits)
  show ?thesis
  proof (rule soundI)
    fix s op s' assume I: "wired ms s" and r: "run_state (classifyPV env ms ids claims pods p) s = (Inr op, s')"
    obtain r1 s1 where q1: "run_state ?q s = (r1, s1)" by fastforce
    then have "wired ms s1" using sound_keeps [OF q I] by blast
    with r q1 run [of s] keepsD [OF wired] show "wired ms s'"
      by (auto split: sum.splits list.splits if_splits)
  next
    fix s e s' assume I: "wired ms s" and r: "run_state (classifyPV env ms ids claims pods p) s = (Inl e, s')"
    obtain r1 s1 where q1: "run_state ?q s = (r1, s1)" by fastforce
    then have s1: "wired ms s1" using sound_keeps [OF q I] by blast
    show "wired ms s' \<and> (if panics e then crash_cause env s' else False)"
    proof (cases r1)
      case (Inl e1)
      with r q1 run [of s] have "e1 = e" "s1 = s'" "panics e" by (auto split: if_splits)
      then have "run_state ?q s = (Inl e, s')" "panics e" using q1 Inl by simp_all
      from sound_Inl [OF q I this(1)] this(2) show ?thesis by (simp add: crash_cause_def)
    next
      case (Inr vols)
      with r q1 run [of s] obtain vol rest where vols: "vols = vol # rest" and op: "run_state (?op vol) s1 = (Inl e, s')"
        by (auto split: list.splits)
      from queryVolume_last q1 Inr vols obtain tr cl f where "trace s1 = tr @ [CallCnsQuery cl f]"
        "ans_CnsQuery env f tr = Inr (vol # rest)" by metis
      moreover have "wired ms s' \<and> trace s' = trace s1"
        using keepsD [OF getCnsUpdateOperationType_keeps op, of ms "trace s1"] s1 by simp
      ultimately show ?thesis
        using getCnsUpdateOperationType_panics [OF op] by (fastforce simp: crash_cause_def foreign_entry_def)
    qed
  qed
qed

lemma buildVolumeMapFrom_sound:
  "vsphere_returns env \<Longrightarrow> sound (wired ms) (crash_cause env) False (buildVolumeMapFrom env ms ids claims pods pvs m)"
  by (induction pvs arbitrary: m) (auto intro!: sound_rules classifyPV_sound)

lemma wired_initCnsMaps [simp]: "wired ms (initCnsMaps s) = wired ms s"
  by (simp add: initCnsMaps_def)

lemmas construct_defs =
  constructCnsCreateSpec_def constructCnsUpdateSpec_def constructCnsUpdateSpecWithPVCToBeDeleted_def
  constructCnsUpdateSpecWithPodToBeDeleted_def buildCnsMetadataSpecMarkedForDelete_def

lemma planFullSync_sound:
  "vsphere_returns env \<Longrightarrow> sound (wired ms) (crash_cause env) False (planFullSync env ms pvs claims pods vols)"
  unfolding planFullSync_def buildVolumeMap_def identifyVolumesToBeDeleted_def construct_defs
  by (intro sound_rules buildVolumeMapFrom_sound clusterOf_sound keeps_rules) simp_all

lemma prepareFullSync_sound:
  assumes "vsphere_returns env" and "k8s_returns k8s"
  shows "sound (wired ms) (crash_cause env) False (prepareFullSync env k8s ms)"
proof -
  have query: "sound (wired ms) (crash_cause env) True (manager ms (\<lambda>m. QueryAllVolume env m f))" for f
    by (rule sound_weaken [OF manager_operations(2) [OF assms(1)]]) (simp_all add: crash_cause_def)
  show ?thesis
    unfolding prepareFullSync_def buildPVCMapPodMap_def
    by (intro sound_rules getPVs_sound [OF assms(2)] buildMaps_sound [OF assms(2)] query planFullSync_sound [OF assms(1)])
qed

definition block_backed :: "create_spec \<Rightarrow> bool" where
  "block_backed spec = (case create_Backing spec of BlockBackingDetails _ \<Rightarrow> True | BackingObjectDetails _ \<Rightarrow> False)"

lemma constructCnsCreateSpec_block:
  assumes "run_state (constructCnsCreateSpec pvs claims pods ms) s = (Inr specs, s')"
  shows "list_all block_backed specs"
proof -
  have "s' = s \<and> list_all2 (\<lambda>_. block_backed) pvs specs"
    by (rule mapE_Inr [OF _ assms [unfolded constructCnsCreateSpec_def]])
       (auto simp: block_backed_def split: prod.splits sum.splits dest!: clusterOf_reads)
  then show ?thesis by (auto simp: list_all2_conv_all_nth list_all_length)
qed

lemma prepareFullSync_block:
  "run_state (prepareFullSync env k8s ms) s = (Inr (Some p), s') \<Longrightarrow> list_all block_backed (createSpecArray p)"
  by (auto simp: prepareFullSync_def planFullSync_def split: prod.splits sum.splits error.splits
      dest: constructCnsCreateSpec_block)

lemma fullSync_volumes_sound:
  assumes "vsphere_returns env"
  shows "block_backed spec \<Longrightarrow> sound (wired ms) (session_lost env) False (fullSyncCreateVolume env ms current spec)"
    and "sound (wired ms) (session_lost env) False (fullSyncDeleteVolume env ms current vol)"
    and "sound (wired ms) (session_lost env) False (fullSyncUpdateVolume env ms uspec)"
  unfolding fullSyncCreateVolume_def fullSyncDeleteVolume_def fullSyncUpdateVolume_def Let_def
  by (auto simp: block_backed_def split: backing_details.splits intro!: sound_rules manager_operations assms keeps_assign)

section \<open>Runs\<close>

fun daemon_ok :: "env \<Rightarrow> MetadataSyncInformer \<Rightarrow> 'z daemon \<Rightarrow> bool" where
  "daemon_ok env ms (Idle s) \<longleftrightarrow> wired ms s"
| "daemon_ok env ms (Syncing p c) \<longleftrightarrow> wired ms (sync c) \<and> list_all block_backed (createTodo c) \<and>
     (crashed c \<longrightarrow> session_lost env (sync c))"

lemma daemon_ok_step:
  assumes "sync_step env k8s ms c c'" and "daemon_ok env ms (Syncing p c)"
    and returns: "vsphere_returns env" "k8s_returns k8s"
  shows "daemon_ok env ms (Syncing p c')"
proof -
  note volumes = fullSync_volumes_sound [OF returns(1)]
  have crash: "wired ms s' \<and> ((\<exists>e. r = Inl e) \<longrightarrow> session_lost env s')"
    if "sound (wired ms) (session_lost env) False m" "wired ms s" "run_state m s = (r, s')"
    for m :: "('z syncer_scheme, error + unit) state" and s r s'
    using sound_keeps [OF that] sound_Inl [OF that(1,2)] that(3) by (cases r) (auto split: if_splits)
  note listed = sound_keeps [OF getPVs_sound [OF returns(2)]]
  from assms(1,2) show ?thesis
    by (cases rule: sync_step.cases)
       (auto dest: listed crash [OF volumes(1)] crash [OF volumes(2)] crash [OF volumes(3)])
qed

lemma daemon_ok_run:
  assumes "syncer_run env k8s ms s0 evs plans d" and wired: "wired ms s0"
    and returns: "vsphere_returns env" "k8s_returns k8s"
  shows "daemon_ok env ms d"
  using assms(1)
proof (induction rule: syncer_run.induct)
  case (event evs plans s e s')
  then show ?case by (auto dest: sound_keeps [OF handleEvent_sound [OF returns], rotated])
next
  case (event_syncing evs plans p c e s')
  then show ?case by (auto dest: sound_keeps [OF handleEvent_sound [OF returns], rotated])
next
  case (tick_gave_up evs plans s s')
  then show ?case using sound_keeps [OF prepareFullSync_sound [OF returns]] by simp
next
  case (tick evs plans s p s')
  then show ?case using sound_keeps [OF prepareFullSync_sound [OF returns]]
    by (simp add: startCycle_def prepareFullSync_block)
next
  case (goroutine evs plans p c c')
  then show ?case by (blast intro: daemon_ok_step [OF _ _ returns])
qed (simp_all add: wired cleanupCnsMaps_def)

lemma InitSyncer_wired:
  assumes "run_state (InitSyncer env newK8sClient) s = (Inr ms, s')" and "managerInstance s = None"
  shows "wired ms s'"
proof -
  obtain cluster where "run_state (clusterOf ms) s' = (Inr cluster, s')"
    using InitSyncer_cluster [OF assms(1)] by blast
  moreover have "managerInstance s' = None"
  proof -
    have connect: "managerInstance t' = None" if "managerInstance t = None" "run_state (Connect env a) t = (r, t')"
      for a r and t t' :: "'a syncer_scheme"
      using keepsD [OF steady_Connect that(2), of "\<lambda>t. managerInstance t = None"] that(1)
      by (simp add: steadyI)
    from assms show ?thesis
      by (auto simp: InitSyncer_def RegisterVirtualCenter_def split: sum.splits prod.splits if_splits dest: connect [rotated])
  qed
  ultimately show ?thesis by (auto simp: wired_def clusterOf_def load_vc_def split: option.splits)
qed

section \<open>Properties\<close>

text \<open>
  C3. When the process of the syncer can crash. After a successful \<open>Init\<close>, in every state a run can reach: planning a
  full sync returns, unless the last call was answered with no session or with a volume that has an entry which is
  not Kubernetes metadata; every event handler returns normally, and no goroutine of a full sync has crashed, unless
  the last call the process made asked vCenter for the session and vCenter reported none. The outside may fail in every
  way, as long as its calls return; handlers and steps of goroutines run one at a time.\<close>

theorem syncer_safe:
  assumes "run_state (InitSyncer env newK8sClient) s = (Inr ms, s0)" and "managerInstance s = None"
    and "vsphere_returns env" and "k8s_returns k8s" and "syncer_run env k8s ms s0 evs plans d"
  shows "(case d of
            Idle s1 \<Rightarrow> \<forall>r s2. run_state (prepareFullSync env k8s ms) s1 = (r, s2) \<longrightarrow>
              (\<exists>plan. r = Inr plan) \<or> session_lost env s2 \<or> foreign_entry env s2
          | Syncing p c \<Rightarrow> crashed c \<longrightarrow> session_lost env (sync c)) \<and>
         (\<forall>e r s2. run_state (handleEvent env k8s ms e) (state_of d) = (r, s2) \<longrightarrow> r = Inr () \<or> session_lost env s2)"
proof -
  have ok: "daemon_ok env ms d"
    by (rule daemon_ok_run [OF assms(5) InitSyncer_wired [OF assms(1,2)] assms(3,4)])
  then have wired: "wired ms (state_of d)" by (cases d) auto
  have "r = Inr () \<or> session_lost env s2" if "run_state (handleEvent env k8s ms e) (state_of d) = (r, s2)" for e r s2
    using that by (cases r) (auto split: if_splits dest!: sound_Inl [OF handleEvent_sound [OF assms(3,4)] wired])
  moreover have "(\<exists>plan. r = Inr plan) \<or> session_lost env s2 \<or> foreign_entry env s2"
    if "d = Idle s1" "run_state (prepareFullSync env k8s ms) s1 = (r, s2)" for s1 r s2
    using sound_Inl [OF prepareFullSync_sound [OF assms(3,4)], of ms s1] wired that
    by (cases r) (auto simp: crash_cause_def split: if_splits)
  ultimately show ?thesis using ok by (cases d) auto
qed

section \<open>Witnesses\<close>

lemma sample_returns: "vsphere_returns sample_file_env" "k8s_returns sample_k8s"
  by (simp_all add: vsphere_returns_def k8s_returns_def returns_def file_returns_def sample_file_env_def sample_env_def
      sample_k8s_def)

lemma sample_init: "\<exists>ms s'. run_state (InitSyncer sample_file_env (Inr ())) sample_syncer = (Inr ms, s')"
  by (simp add: InitSyncer_def handler_defs sample_file_env_def GetCnsconfig_def ReadConfig_def
      fromEnvOrError_def overrideGlobals_def ParseBool_def addGlobalVC_def validateConfig_def Let_def
      validateVC_def DefaultVCenterPort_def GetVirtualCenterConfig_def GetVcenterIPs_def Atoi_def)

theorem syncer_safe_witness:
  "\<exists>ms s0. run_state (InitSyncer sample_file_env (Inr ())) sample_syncer = (Inr ms, s0) \<and>
     syncer_run sample_file_env sample_k8s ms s0 [] [] (Idle s0) \<and>
     (\<exists>plan s2. run_state (prepareFullSync sample_file_env sample_k8s ms) s0 = (Inr plan, s2))"
proof -
  obtain ms s0 where init: "run_state (InitSyncer sample_file_env (Inr ())) sample_syncer = (Inr ms, s0)"
    using sample_init by blast
  have none: "managerInstance sample_syncer = None" by (simp add: sample_syncer_def)
  obtain r s2 where plan: "run_state (prepareFullSync sample_file_env sample_k8s ms) s0 = (r, s2)" by fastforce
  have "\<not> session_lost sample_file_env s2" "\<not> foreign_entry sample_file_env s2"
    by (simp_all add: session_lost_def foreign_entry_def sample_file_env_def sample_env_answers)
  with syncer_safe [OF init none sample_returns syncer_run.start] plan obtain p where "r = Inr p" by auto
  with init plan show ?thesis by (blast intro: syncer_run.start)
qed

text \<open>
  The exceptions are real: when the session ends between the connection and the question for its user, the update of a
  volume's metadata panics, and so does a first connection whose session vCenter does not show.\<close>

definition sample_expiring_env :: env where
  "sample_expiring_env = sample_env\<lparr>ans_UserSession := (\<lambda>h. if h = [] then Inr (Some ''u'') else Inr None)\<rparr>"

lemma UpdateVolumeMetadata_nil_session:
  "\<exists>p s'. run_state (UpdateVolumeMetadata sample_expiring_env (Some 0) spec)
     (sample_driver\<lparr>vcs := [0 \<mapsto> sample_vc\<lparr>vc_Client := Some 7, vc_CnsClient := Some 7\<rparr>]\<rparr>) = (Inl (Panic p), s') \<and>
     session_lost sample_expiring_env s'"
  by (simp add: UpdateVolumeMetadata_def withCNS_def validateManager_def sessionUser_def vc_program_defs
      sample_expiring_env_def sample_simps session_lost_def)

lemma Connect_nil_session:
  "\<exists>p s'. run_state (Connect sample_expiring_env 0) sample_driver = (Inl (Panic p), s') \<and> session_lost sample_expiring_env s'"
  by (simp add: vc_program_defs sample_expiring_env_def sample_simps session_lost_def IsInvalidCredentialsError_def)

text \<open>
  Why the handlers have to be taken one at a time: \<open>ConnectCNS\<close> releases \<open>clientMutex\<close> before the volume manager reads
  \<open>vc.Client\<close>. When the session has expired and another goroutine's reconnection fails in between, that
  reconnection leaves \<open>vc.Client\<close> nil, and the question for the user of the session, the next step of this one,
  dereferences it.\<close>

lemma failed_reconnection_race:
  assumes "vcs s a = Some vc" and "vc_Client vc = Some cl" and "ans_UserSession env (trace s) = Inr None"
    and "ans_NewVimClient env (trace s @ [CallUserSession cl]) = Inl (OutsideError e)"
  shows "\<exists>s'. run_state (Connect env a) s = (Inl (OutsideError e), s') \<and>
    run_state (sessionUser env a) s' = (Inl (Panic ''nil *govmomi.Client''), s')"
  using assms by (cases "conf_Scheme (vc_Config vc) = []")
    (simp_all add: vc_program_defs sessionUser_def IsInvalidCredentialsError_def)

definition sample_down_env :: env where
  "sample_down_env = sample_env\<lparr>ans_UserSession := (\<lambda>_. Inr None), ans_NewVimClient := (\<lambda>_. Inl (OutsideError ''connection refused''))\<rparr>"

lemma failed_reconnection_race_witness:
  "\<exists>s'. run_state (sessionUser sample_down_env 0) s' = (Inl (Panic ''nil *govmomi.Client''), s') \<and>
     run_state (Connect sample_down_env 0) (sample_driver\<lparr>vcs := [0 \<mapsto> sample_vc\<lparr>vc_Client := Some 7\<rparr>]\<rparr>) =
       (Inl (OutsideError ''connection refused''), s')"
  using failed_reconnection_race [of "sample_driver\<lparr>vcs := [0 \<mapsto> sample_vc\<lparr>vc_Client := Some 7\<rparr>]\<rparr>" 0
      "sample_vc\<lparr>vc_Client := Some 7\<rparr>" 7 sample_down_env "''connection refused''"]
  by (auto simp: sample_down_env_def)

end
