(* ===== verification/Informers.thy ===== *)
theory Informers
  imports External
begin

text \<open>
  \<open>pkg/kubernetes\<close>: the informer manager (\<open>informers.go\<close>, \<open>types.go\<close>) and the constructors of a Kubernetes client
  (\<open>kubernetes.go\<close>). The manager wraps client-go; what it asks of client-go is recorded in the trace, and the informers
  and channels client-go hands out are the numbers it answers with. A callback is a function of the objects client-go
  passes to it, with a result of any type; \<open>None\<close> is a nil function.
\<close>

section \<open>Clients\<close>

text \<open>The answers of \<open>InClusterConfig\<close>, \<open>BuildConfigFromFlags\<close> and \<open>NewForConfig\<close> are parameters.\<close>

definition NewClient :: "error + 'config \<Rightarrow> ('config \<Rightarrow> error + 'client) \<Rightarrow> error + 'client" where
  "NewClient inClusterConfig newForConfig =
     (case inClusterConfig of Inl err \<Rightarrow> Inl err | Inr config \<Rightarrow> newForConfig config)"

definition CreateKubernetesClientFromConfig ::
  "(string \<Rightarrow> string \<Rightarrow> error + 'config) \<Rightarrow> ('config \<Rightarrow> error + 'client) \<Rightarrow> string \<Rightarrow> error + 'client" where
  "CreateKubernetesClientFromConfig buildConfigFromFlags newForConfig kubeConfigPath =
     (case buildConfigFromFlags [] kubeConfigPath of
        Inl err \<Rightarrow> Inl err
      | Inr config \<Rightarrow> (case newForConfig config of Inl err \<Rightarrow> Inl err | Inr client \<Rightarrow> Inr client))"

section \<open>The manager\<close>

datatype resource = Nodes | PersistentVolumeClaims | PersistentVolumes | Pods

record ('o, 'p) ResourceEventHandlerFuncs =
  AddFunc :: "('o \<Rightarrow> 'p) option"
  UpdateFunc :: "('o \<Rightarrow> 'o \<Rightarrow> 'p) option"
  DeleteFunc :: "('o \<Rightarrow> 'p) option"

datatype ('o, 'p) kube_call =
    SetupSignalHandler
  | NewSharedInformerFactory nat int  \<comment> \<open>client and resync period\<close>
  | InformerFor resource
  | AddEventHandler nat "('o, 'p) ResourceEventHandlerFuncs"
  | ListerFor resource
  | Start nat  \<comment> \<open>in a goroutine of its own\<close>

record kube_env =
  ans_SetupSignalHandler :: nat
  ans_Informer :: "resource \<Rightarrow> nat"
  ans_Lister :: "resource \<Rightarrow> nat"

record ('o, 'p) InformerManager = "('o, 'p) kube_call proc" +
  im_client :: nat
  stopCh :: nat
  nodeInformer :: "nat option"
  pvInformer :: "nat option"
  pvcInformer :: "nat option"
  podInformer :: "nat option"

type_synonym ('o, 'p, 'a) kube = "(('o, 'p) InformerManager, 'a) state"

definition noResyncPeriodFunc :: int where
  "noResyncPeriodFunc = 0"

definition NewInformer :: "kube_env \<Rightarrow> nat \<Rightarrow> ('o, 'p, unit) kube" where
  "NewInformer kenv client = do {
     ch \<leftarrow> perform SetupSignalHandler (\<lambda>_. ans_SetupSignalHandler kenv);
     perform (NewSharedInformerFactory client noResyncPeriodFunc) (\<lambda>_. ());
     assign (\<lambda>im. im\<lparr>im_client := client, stopCh := ch, nodeInformer := None, pvInformer := None,
       pvcInformer := None, podInformer := None\<rparr>)
   }"

definition AddNodeListener ::
  "kube_env \<Rightarrow> ('o \<Rightarrow> 'p) option \<Rightarrow> ('o \<Rightarrow> 'o \<Rightarrow> 'p) option \<Rightarrow> ('o \<Rightarrow> 'p) option \<Rightarrow> ('o, 'p, unit) kube" where
  "AddNodeListener kenv add update remove = do {
     im \<leftarrow> State_Monad.get;
     i \<leftarrow> (case nodeInformer im of
            Some i \<Rightarrow> State_Monad.return i
          | None \<Rightarrow> do {
              i \<leftarrow> perform (InformerFor Nodes) (\<lambda>_. ans_Informer kenv Nodes);
              assign (nodeInformer_update (\<lambda>_. Some i));
              State_Monad.return i
            });
     perform (AddEventHandler i \<lparr>AddFunc = add, UpdateFunc = update, DeleteFunc = remove\<rparr>) (\<lambda>_. ())
   }"

definition AddPVCListener ::
  "kube_env \<Rightarrow> ('o \<Rightarrow> 'p) option \<Rightarrow> ('o \<Rightarrow> 'o \<Rightarrow> 'p) option \<Rightarrow> ('o \<Rightarrow> 'p) option \<Rightarrow> ('o, 'p, unit) kube" where
  "AddPVCListener kenv add update remove = do {
     im \<leftarrow> State_Monad.get;
     i \<leftarrow> (case pvcInformer im of
            Some i \<Rightarrow> State_Monad.return i
          | None \<Rightarrow> do {
              i \<leftarrow> perform (InformerFor PersistentVolumeClaims) (\<lambda>_. ans_Informer kenv PersistentVolumeClaims);
              assign (pvcInformer_update (\<lambda>_. Some i));
              State_Monad.return i
            });
     perform (AddEventHandler i \<lparr>AddFunc = add, UpdateFunc = update, DeleteFunc = remove\<rparr>) (\<lambda>_. ())
   }"

definition AddPVListener ::
  "kube_env \<Rightarrow> ('o \<Rightarrow> 'p) option \<Rightarrow> ('o \<Rightarrow> 'o \<Rightarrow> 'p) option \<Rightarrow> ('o \<Rightarrow> 'p) option \<Rightarrow> ('o, 'p, unit) kube" where
  "AddPVListener kenv add update remove = do {
     im \<leftarrow> State_Monad.get;
     i \<leftarrow> (case pvInformer im of
            Some i \<Rightarrow> State_Monad.return i
          | None \<Rightarrow> do {
              i \<leftarrow> perform (InformerFor PersistentVolumes) (\<lambda>_. ans_Informer kenv PersistentVolumes);
              assign (pvInformer_update (\<lambda>_. Some i));
              State_Monad.return i
            });
     perform (AddEventHandler i \<lparr>AddFunc = add, UpdateFunc = update, DeleteFunc = remove\<rparr>) (\<lambda>_. ())
   }"

definition AddPodListener ::
  "kube_env \<Rightarrow> ('o \<Rightarrow> 'p) option \<Rightarrow> ('o \<Rightarrow> 'o \<Rightarrow> 'p) option \<Rightarrow> ('o \<Rightarrow> 'p) option \<Rightarrow> ('o, 'p, unit) kube" where
  "AddPodListener kenv add update remove = do {
     im \<leftarrow> State_Monad.get;
     i \<leftarrow> (case podInformer im of
            Some i \<Rightarrow> State_Monad.return i
          | None \<Rightarrow> do {
              i \<leftarrow> perform (InformerFor Pods) (\<lambda>_. ans_Informer kenv Pods);
              assign (podInformer_update (\<lambda>_. Some i));
              State_Monad.return i
            });
     perform (AddEventHandler i \<lparr>AddFunc = add, UpdateFunc = update, DeleteFunc = remove\<rparr>) (\<lambda>_. ())
   }"

definition GetPVLister :: "kube_env \<Rightarrow> ('o, 'p, nat) kube" where
  "GetPVLister kenv = perform (ListerFor PersistentVolumes) (\<lambda>_. ans_Lister kenv PersistentVolumes)"

definition GetPVCLister :: "kube_env \<Rightarrow> ('o, 'p, nat) kube" where
  "GetPVCLister kenv = perform (ListerFor PersistentVolumeClaims) (\<lambda>_. ans_Lister kenv PersistentVolumeClaims)"

definition Listen :: "('o, 'p, nat) kube" where
  "Listen = do {
     im \<leftarrow> State_Monad.get;
     perform (Start (stopCh im)) (\<lambda>_. ());
     State_Monad.return (stopCh im)
   }"

lemmas informer_defs =
  NewInformer_def AddNodeListener_def AddPVCListener_def AddPVListener_def AddPodListener_def GetPVLister_def
  GetPVCLister_def Listen_def

section \<open>The interface: a registry of callbacks\<close>

locale callback_registry =
  fixes add :: "'r \<Rightarrow> 'h \<Rightarrow> ('s, unit) state" and callbacks :: "'s \<Rightarrow> 'r \<Rightarrow> 'h list" and inv :: "'s \<Rightarrow> bool"
  assumes add_inv: "inv s \<Longrightarrow> inv (snd (run_state (add r h) s))"
    and add_callbacks: "inv s \<Longrightarrow> callbacks (snd (run_state (add r h) s)) = (callbacks s)(r := callbacks s r @ [h])"
begin

lemma add_all:
  "inv s \<Longrightarrow> run_state (for_each (\<lambda>(r, h). add r h) ls) s = ((), s') \<Longrightarrow>
   inv s' \<and> (\<forall>r. callbacks s' r = callbacks s r @ map snd (filter (\<lambda>l. fst l = r) ls))"
proof (induction ls arbitrary: s)
  case (Cons l ls)
  obtain r h where l: "l = (r, h)" by (cases l)
  define s1 where "s1 = snd (run_state (add r h) s)"
  from Cons.prems(2) have "run_state (for_each (\<lambda>(r, h). add r h) ls) s1 = ((), s')"
    by (simp add: l s1_def split: prod.splits)
  from Cons.IH [OF _ this] add_inv [OF Cons.prems(1), of r h] add_callbacks [OF Cons.prems(1), of r h] show ?case
    by (auto simp: l s1_def)
qed simp

end

section \<open>The informer manager is a registry of callbacks\<close>

definition informerOf :: "('o, 'p) InformerManager \<Rightarrow> resource \<Rightarrow> nat option" where
  "informerOf im r = (case r of Nodes \<Rightarrow> nodeInformer im | PersistentVolumeClaims \<Rightarrow> pvcInformer im
     | PersistentVolumes \<Rightarrow> pvInformer im | Pods \<Rightarrow> podInformer im)"

definition addListener ::
  "kube_env \<Rightarrow> resource \<Rightarrow> ('o, 'p) ResourceEventHandlerFuncs \<Rightarrow> ('o, 'p, unit) kube" where
  "addListener kenv r h = (case r of
     Nodes \<Rightarrow> AddNodeListener kenv (AddFunc h) (UpdateFunc h) (DeleteFunc h)
   | PersistentVolumeClaims \<Rightarrow> AddPVCListener kenv (AddFunc h) (UpdateFunc h) (DeleteFunc h)
   | PersistentVolumes \<Rightarrow> AddPVListener kenv (AddFunc h) (UpdateFunc h) (DeleteFunc h)
   | Pods \<Rightarrow> AddPodListener kenv (AddFunc h) (UpdateFunc h) (DeleteFunc h))"

text \<open>The callbacks client-go was given for a resource: those added to the informer it handed out for the resource.\<close>

fun handler_on :: "nat \<Rightarrow> ('o, 'p) kube_call \<Rightarrow> ('o, 'p) ResourceEventHandlerFuncs list" where
  "handler_on i (AddEventHandler j h) = (if i = j then [h] else [])"
| "handler_on i _ = []"

definition registered ::
  "kube_env \<Rightarrow> ('o, 'p) InformerManager \<Rightarrow> resource \<Rightarrow> ('o, 'p) ResourceEventHandlerFuncs list" where
  "registered kenv im r = concat (map (handler_on (ans_Informer kenv r)) (trace im))"

text \<open>
  The informers kept are the ones client-go handed out, each asked for at most once, and the factory is not started before the
  last callback is in place.
\<close>

definition informers_ok :: "kube_env \<Rightarrow> ('o, 'p) InformerManager \<Rightarrow> bool" where
  "informers_ok kenv im \<longleftrightarrow>
     (\<forall>r. informerOf im r = (if InformerFor r \<in> set (trace im) then Some (ans_Informer kenv r) else None)) \<and>
     (\<forall>r. count_list (trace im) (InformerFor r) \<le> 1) \<and> (\<forall>ch. Start ch \<notin> set (trace im))"

lemma run_addListener:
  assumes "informers_ok kenv im"
  shows "\<exists>im'. run_state (addListener kenv r h) im = ((), im') \<and>
    trace im' = trace im @ (if InformerFor r \<in> set (trace im) then [] else [InformerFor r]) @ [AddEventHandler (ans_Informer kenv r) h] \<and>
    informerOf im' = (informerOf im)(r := Some (ans_Informer kenv r)) \<and> stopCh im' = stopCh im"
proof -
  have "informerOf im r = (if InformerFor r \<in> set (trace im) then Some (ans_Informer kenv r) else None)"
    using assms by (simp add: informers_ok_def)
  then show ?thesis
    by (cases r) (auto simp: addListener_def informer_defs informerOf_def fun_eq_iff split: resource.split)
qed

interpretation manager: callback_registry "addListener kenv" "registered kenv" "\<lambda>im. informers_ok kenv im \<and> inj (ans_Informer kenv)"
  for kenv
proof
  fix im :: "('o, 'p) InformerManager" and r h
  assume inv: "informers_ok kenv im \<and> inj (ans_Informer kenv)"
  then obtain im' where run: "run_state (addListener kenv r h) im = ((), im')"
    and tr: "trace im' = trace im @ (if InformerFor r \<in> set (trace im) then [] else [InformerFor r]) @
        [AddEventHandler (ans_Informer kenv r) h]"
    and inf: "informerOf im' = (informerOf im)(r := Some (ans_Informer kenv r))"
    using run_addListener by blast
  from inv have ok: "\<And>r. informerOf im r = (if InformerFor r \<in> set (trace im) then Some (ans_Informer kenv r) else None)"
    "\<And>r. count_list (trace im) (InformerFor r) \<le> 1" "\<And>ch. Start ch \<notin> set (trace im)" "inj (ans_Informer kenv)"
    by (auto simp: informers_ok_def)
  show "informers_ok kenv (snd (run_state (addListener kenv r h) im)) \<and> inj (ans_Informer kenv)"
    using ok by (auto simp: run informers_ok_def tr inf count_notin)
  show "registered kenv (snd (run_state (addListener kenv r h) im)) = (registered kenv im)(r := registered kenv im r @ [h])"
    using ok(4) by (auto simp: run registered_def tr fun_eq_iff inj_eq)
qed

lemma add_all_asks:
  assumes "inj (ans_Informer kenv)"
  shows "informers_ok kenv im \<Longrightarrow> run_state (for_each (\<lambda>(r, h). addListener kenv r h) ls) im = ((), im') \<Longrightarrow>
    stopCh im' = stopCh im \<and> (\<forall>r. InformerFor r \<in> set (trace im') \<longleftrightarrow> InformerFor r \<in> set (trace im) \<or> r \<in> fst ` set ls)"
proof (induction ls arbitrary: im)
  case (Cons l ls)
  obtain r h where l: "l = (r, h)" by (cases l)
  obtain im1 where one: "run_state (addListener kenv r h) im = ((), im1)"
    and im1: "trace im1 = trace im @ (if InformerFor r \<in> set (trace im) then [] else [InformerFor r]) @
        [AddEventHandler (ans_Informer kenv r) h]" "stopCh im1 = stopCh im"
    using run_addListener [OF Cons.prems(1), of r h] by blast
  have "informers_ok kenv im1" using manager.add_inv [of kenv im r h] Cons.prems(1) assms one by simp
  from Cons.IH [OF this] Cons.prems(2) one im1 show ?case by (auto simp: l)
qed simp

lemma count_list_1: "x \<in> set xs \<Longrightarrow> count_list xs x \<le> 1 \<Longrightarrow> count_list xs x = Suc 0"
  using count_list_0_iff [of xs x] by (cases "count_list xs x") auto

section \<open>Properties\<close>

text \<open>
  C26. The informer manager as a registry: whatever listeners are added to a new manager, in whatever order and number, when
  the factory is started client-go has for every resource exactly the callbacks added for it, in this order, on the one informer
  it was asked for, and the start is the last call.\<close>

theorem informers_refine:
  assumes "run_state (do { NewInformer kenv client; for_each (\<lambda>(r, h). addListener kenv r h) ls; Listen }) im = (ch, im')"
    and "trace im = []" and "inj (ans_Informer kenv)"
  shows "(\<forall>r. registered kenv im' r = map snd (filter (\<lambda>l. fst l = r) ls)) \<and>
    (\<forall>r. count_list (trace im') (InformerFor r) = (if r \<in> fst ` set ls then 1 else 0)) \<and>
    last (trace im') = Start ch \<and> (\<forall>ch'. Start ch' \<notin> set (butlast (trace im'))) \<and> ch = ans_SetupSignalHandler kenv"
proof -
  define im0 where "im0 = snd (run_state (NewInformer kenv client) im)"
  have im0: "informers_ok kenv im0" "\<And>r. registered kenv im0 r = []" "stopCh im0 = ans_SetupSignalHandler kenv"
    using assms(2) by (auto simp: im0_def NewInformer_def informers_ok_def registered_def informerOf_def split: resource.splits)
  obtain im1 where im1: "run_state (for_each (\<lambda>(r, h). addListener kenv r h) ls) im0 = ((), im1)"
    by (cases "run_state (for_each (\<lambda>(r, h). addListener kenv r h) ls) im0") simp
  from manager.add_all [OF _ im1] assms(3) im0
  have ok: "informers_ok kenv im1" and cb: "\<And>r. registered kenv im1 r = map snd (filter (\<lambda>l. fst l = r) ls)" by auto
  from add_all_asks [OF assms(3) im0(1) im1]
  have ch: "stopCh im1 = ans_SetupSignalHandler kenv" and asked: "\<And>r. InformerFor r \<in> set (trace im1) \<longleftrightarrow> r \<in> fst ` set ls"
    using im0(3) assms(2) by (auto simp: im0_def NewInformer_def)
  from assms(1) im1 have im': "im' = im1\<lparr>trace := trace im1 @ [Start (stopCh im1)]\<rparr>" "ch = stopCh im1"
    by (auto simp: im0_def Listen_def split: prod.splits)
  have "count_list (trace im1) (InformerFor r) = (if r \<in> fst ` set ls then 1 else 0)" for r
    using ok asked [of r] by (auto simp: informers_ok_def count_notin intro: count_list_1)
  with ok cb ch show ?thesis by (simp add: im' informers_ok_def registered_def)
qed

section \<open>Witnesses\<close>

definition sample_kube :: kube_env where
  "sample_kube = \<lparr>ans_SetupSignalHandler = 7, ans_Informer = (\<lambda>r. case r of Nodes \<Rightarrow> 0 | PersistentVolumeClaims \<Rightarrow> 1
     | PersistentVolumes \<Rightarrow> 2 | Pods \<Rightarrow> 3), ans_Lister = (\<lambda>_. 9)\<rparr>"

definition sample_im :: "(string, nat) InformerManager" where
  "sample_im = \<lparr>trace = [], im_client = 0, stopCh = 0, nodeInformer = None, pvInformer = None, pvcInformer = None,
     podInformer = None\<rparr>"

definition sample_listener :: "(string, nat) ResourceEventHandlerFuncs" where
  "sample_listener = \<lparr>AddFunc = None, UpdateFunc = None, DeleteFunc = Some length\<rparr>"

lemma sample_kube_inj: "inj (ans_Informer sample_kube)"
  by (rule injI) (auto simp: sample_kube_def split: resource.splits)

theorem informers_refine_witness:
  "\<exists>ch im'. run_state (do { NewInformer sample_kube 5;
       for_each (\<lambda>(r, h). addListener sample_kube r h) [(Pods, sample_listener), (Nodes, sample_listener), (Pods, sample_listener)];
       Listen }) sample_im = (ch, im') \<and>
     registered sample_kube im' Pods = [sample_listener, sample_listener] \<and> count_list (trace im') (InformerFor Pods) = 1"
proof -
  obtain ch im' where run: "run_state (do { NewInformer sample_kube 5;
       for_each (\<lambda>(r, h). addListener sample_kube r h) [(Pods, sample_listener), (Nodes, sample_listener), (Pods, sample_listener)];
       Listen }) sample_im = (ch, im')" by fastforce
  have "trace sample_im = []" by (simp add: sample_im_def)
  from informers_refine [OF run this sample_kube_inj] run show ?thesis by auto
qed

end
