(* ===== verification/Inventory.thy ===== *)
theory Inventory
  imports VCenter
begin

text \<open>
  \<open>pkg/common/cns-lib/vsphere\<close>: the inventory of a vCenter as the driver reads it, from \<open>datacenter.go\<close>,
  \<open>datastore.go\<close>, \<open>hostsystem.go\<close>, \<open>virtualmachine.go\<close> and the last part of \<open>virtualcenter.go\<close>. The search
  for a virtual machine over all datacenters is in \<open>VM_Search\<close>.

  A govmomi object is its managed object reference and the client it was made with. The driver
  renews the client of a virtual machine and of its datacenter in place (\<open>Renew\<close>); each virtual
  machine has a datacenter object of its own, so the objects are values and \<open>Renew\<close> returns the
  renewed one.
\<close>

section \<open>Objects\<close>

record datacenter =
  dc_ref :: moref
  dc_client :: client
  dc_VirtualCenterHost :: string

record virtual_machine =
  vm_VirtualCenterHost :: string
  vm_UUID :: string
  vm_ref :: moref
  vm_client :: client
  vm_Datacenter :: datacenter

record datastore =
  ds_ref :: moref
  ds_client :: client
  ds_Datacenter :: "datacenter option"

record datastore_info =
  di_Datastore :: datastore
  di_Url :: string

record host_system =
  host_ref :: moref
  host_client :: client

section \<open>Datacenters of a vCenter\<close>

text \<open>\<open>vc.Client.Client\<close>: a nil dereference without a session.\<close>

definition clientOf :: "nat \<Rightarrow> ('z, client \<times> vc_config) progE" where
  "clientOf a =
     bindE (load_vc a) (\<lambda>vc. State_Monad.return (case vc_Client vc of
       None \<Rightarrow> Inl (Panic ''nil *govmomi.Client'') | Some cl \<Rightarrow> Inr (cl, vc_Config vc)))"

definition listDatacenters :: "inventory_env \<Rightarrow> nat \<Rightarrow> ('z, datacenter list) progE" where
  "listDatacenters ienv a =
     bindE (clientOf a) (\<lambda>(cl, conf).
     bindE (perform (CallDatacenterList cl) (ans_DatacenterList ienv cl)) (\<lambda>dcList.
     State_Monad.return (Inr (map (\<lambda>dcObj.
       \<lparr>dc_ref = dcObj, dc_client = cl, dc_VirtualCenterHost = conf_Host conf\<rparr>) dcList))))"

definition getDatacenters :: "inventory_env \<Rightarrow> nat \<Rightarrow> string list \<Rightarrow> ('z, datacenter list) progE" where
  "getDatacenters ienv a dcPaths =
     bindE (clientOf a) (\<lambda>(cl, conf).
     mapE (\<lambda>dcPath.
       bindE (perform (CallDatacenter cl dcPath) (ans_Datacenter ienv cl dcPath)) (\<lambda>dcObj.
       State_Monad.return (Inr
         \<lparr>dc_ref = dcObj, dc_client = cl, dc_VirtualCenterHost = conf_Host conf\<rparr>))) dcPaths)"

definition GetDatacenters :: "inventory_env \<Rightarrow> nat \<Rightarrow> ('z, datacenter list) progE" where
  "GetDatacenters ienv a =
     bindE (load_vc a) (\<lambda>vc.
       if conf_DatacenterPaths (vc_Config vc) \<noteq> []
       then getDatacenters ienv a (conf_DatacenterPaths (vc_Config vc))
       else listDatacenters ienv a)"

definition GetHostsByCluster :: "inventory_env \<Rightarrow> nat \<Rightarrow> string \<Rightarrow> ('z, host_system list) progE" where
  "GetHostsByCluster ienv a clusterMorefValue =
     bindE (clientOf a) (\<lambda>(cl, conf).
     bindE (perform (CallRetrieve cl [clusterMorefValue] ''host'') (ans_ClusterHosts ienv cl clusterMorefValue))
       (\<lambda>hosts. State_Monad.return (Inr (map (\<lambda>hostMoref. \<lparr>host_ref = hostMoref, host_client = cl\<rparr>) hosts))))"

section \<open>Datastores\<close>

text \<open>The datastores of a datacenter with their URLs.\<close>

definition datastoreMos :: "inventory_env \<Rightarrow> datacenter \<Rightarrow> ('z, (moref \<times> string) list) progE" where
  "datastoreMos ienv dc =
     bindE (perform (CallDatastoreList (dc_client dc) (dc_ref dc)) (ans_DatastoreList ienv (dc_client dc) (dc_ref dc)))
       (\<lambda>dsList. perform (CallRetrieve (dc_client dc) dsList ''info'') (ans_DatastoreInfo ienv (dc_client dc) dsList))"

definition GetDatastoreByURL :: "inventory_env \<Rightarrow> datacenter \<Rightarrow> string \<Rightarrow> ('z, datastore) progE" where
  "GetDatastoreByURL ienv dc datastoreURL =
     bindE (datastoreMos ienv dc) (\<lambda>dsMoList.
     State_Monad.return (case find (\<lambda>(ref, url). url = datastoreURL) dsMoList of
       Some (ref, url) \<Rightarrow> Inr \<lparr>ds_ref = ref, ds_client = dc_client dc, ds_Datacenter = Some dc\<rparr>
     | None \<Rightarrow> Inl (Errorf ''Couldn't find Datastore given URL %q'')))"

definition GetAllDatastores :: "inventory_env \<Rightarrow> datacenter \<Rightarrow> ('z, string \<rightharpoonup> datastore_info) progE" where
  "GetAllDatastores ienv dc =
     bindE (datastoreMos ienv dc) (\<lambda>dsMoList.
     State_Monad.return (Inr (foldl (\<lambda>dsURLInfoMap (ref, url). dsURLInfoMap(url \<mapsto>
       \<lparr>di_Datastore = \<lparr>ds_ref = ref, ds_client = dc_client dc, ds_Datacenter = Some dc\<rparr>, di_Url = url\<rparr>))
       Map.empty dsMoList)))"

definition GetDatastoreURL :: "inventory_env \<Rightarrow> datastore \<Rightarrow> ('z, string) progE" where
  "GetDatastoreURL ienv ds =
     perform (CallRetrieve (ds_client ds) [ds_ref ds] ''summary'') (ans_DatastoreSummary ienv (ds_client ds) (ds_ref ds))"

definition hostAccessibleDatastores :: "inventory_env \<Rightarrow> host_system \<Rightarrow> ('z, datastore_info list) progE" where
  "hostAccessibleDatastores ienv host =
     bindE (perform (CallRetrieve (host_client host) [host_ref host] ''datastore'')
              (ans_HostDatastores ienv (host_client host) (host_ref host))) (\<lambda>dsRefList.
     bindE (perform (CallRetrieve (host_client host) dsRefList ''info'')
              (ans_DatastoreInfo ienv (host_client host) dsRefList)) (\<lambda>dsMoList.
     State_Monad.return (Inr (map (\<lambda>(ref, url).
       \<lparr>di_Datastore = \<lparr>ds_ref = ref, ds_client = host_client host, ds_Datacenter = None\<rparr>, di_Url = url\<rparr>) dsMoList))))"

section \<open>Virtual machines\<close>

definition dcGetVirtualMachineByUUID ::
  "inventory_env \<Rightarrow> datacenter \<Rightarrow> string \<Rightarrow> bool \<Rightarrow> ('z, virtual_machine) progE" where
  "dcGetVirtualMachineByUUID ienv dc uuid0 instanceUUID =
     (let uuid = ToLower (TrimSpace uuid0) in
      bindE (perform (CallFindByUuid (dc_client dc) (dc_ref dc) uuid instanceUUID)
               (ans_FindByUuid ienv (dc_client dc) (dc_ref dc) uuid instanceUUID)) (\<lambda>svm.
      State_Monad.return (case svm of
        None \<Rightarrow> Inl ErrVMNotFound
      | Some ref \<Rightarrow> Inr \<lparr>vm_VirtualCenterHost = dc_VirtualCenterHost dc, vm_UUID = uuid, vm_ref = ref,
                         vm_client = dc_client dc, vm_Datacenter = dc\<rparr>)))"

definition GetVMMoList :: "inventory_env \<Rightarrow> datacenter \<Rightarrow> virtual_machine list \<Rightarrow> ('z, string list) progE" where
  "GetVMMoList ienv dc vmObjList =
     (if vmObjList = [] then State_Monad.return (Inl (Errorf ''VirtualMachine Object list is empty''))
      else perform (CallRetrieve (dc_client dc) (map vm_ref vmObjList) ''summary'')
             (ans_VmSummary ienv (dc_client dc) (map vm_ref vmObjList)))"

definition IsActive :: "inventory_env \<Rightarrow> virtual_machine \<Rightarrow> ('z, bool) progE" where
  "IsActive ienv vm =
     bindE (GetVMMoList ienv (vm_Datacenter vm) [vm]) (\<lambda>vmMoList.
     State_Monad.return (case vmMoList of
       [] \<Rightarrow> Inl (Panic ''index out of range'')
     | powerState # _ \<Rightarrow> Inr (powerState = ''poweredOn'')))"

definition renew :: "virtual_machine \<Rightarrow> nat \<Rightarrow> ('z, virtual_machine) progE" where
  "renew vm a =
     bindE (clientOf a) (\<lambda>(cl, conf).
     State_Monad.return (Inr (vm\<lparr>vm_client := cl, vm_Datacenter := (vm_Datacenter vm)\<lparr>dc_client := cl\<rparr>\<rparr>)))"

definition GetAllAccessibleDatastores :: "inventory_env \<Rightarrow> virtual_machine \<Rightarrow> ('z, datastore_info list) progE" where
  "GetAllAccessibleDatastores ienv vm =
     bindE (perform (CallVmHost (vm_client vm) (vm_ref vm)) (ans_VmHost ienv (vm_client vm) (vm_ref vm))) (\<lambda>host.
     hostAccessibleDatastores ienv \<lparr>host_ref = host, host_client = vm_client vm\<rparr>)"

definition Renew :: "env \<Rightarrow> virtual_machine \<Rightarrow> bool \<Rightarrow> ('z, virtual_machine) progE" where
  "Renew env vm reconnect =
     bindE (GetVirtualCenter (vm_VirtualCenterHost vm)) (\<lambda>vc.
     bindE (if reconnect then Connect env vc else State_Monad.return (Inr ())) (\<lambda>_.
     renew vm vc))"

definition GetHostSystem :: "inventory_env \<Rightarrow> virtual_machine \<Rightarrow> ('z, host_system) progE" where
  "GetHostSystem ienv vm =
     bindE (perform (CallVmHost (vm_client vm) (vm_ref vm)) (ans_VmHost ienv (vm_client vm) (vm_ref vm))) (\<lambda>vmHost.
     bindE (perform (CallRetrieve (vm_client vm) [vmHost] ''summary'') (ans_HostSummary ienv (vm_client vm) vmHost))
       (\<lambda>_. State_Monad.return (Inr \<lparr>host_ref = vmHost, host_client = vm_client vm\<rparr>)))"

section \<open>Tags\<close>

text \<open>The SAML signer of a user that is a certificate; False is the nil signer of a plain user.\<close>

definition signer :: "env \<Rightarrow> client \<Rightarrow> string \<Rightarrow> string \<Rightarrow> ('z, bool) progE" where
  "signer env cl username password =
     (if \<not> ans_PemDecode env username then State_Monad.return (Inr False)
      else case ans_X509KeyPair env username password of
        Inl err \<Rightarrow> State_Monad.return (Inl (Errorf ''Failed to load X509 key pair. Error: %+v''))
      | Inr _ \<Rightarrow>
          handle (perform (CallStsNewClient cl) (ans_StsNewClient env))
            (\<lambda>err. State_Monad.return (Inl (Errorf ''Failed to create STS client. err: %+v'')))
            (\<lambda>_. handle (perform (CallStsIssue cl) (ans_StsIssue env))
              (\<lambda>err. State_Monad.return (Inl (Errorf ''Failed to issue SAML token. err: %+v'')))
              (\<lambda>_. State_Monad.return (Inr True))))"

text \<open>
  A tag manager is named by the client it was made from. A failed login is logged and ignored.
\<close>

definition GetTagManager :: "env \<Rightarrow> inventory_env \<Rightarrow> virtual_machine \<Rightarrow> ('z, client) progE" where
  "GetTagManager env ienv vm =
     bindE (GetVirtualCenter (vm_VirtualCenterHost vm)) (\<lambda>a.
     bindE (load_vc a) (\<lambda>virtualCenter.
     let username = conf_Username (vc_Config virtualCenter); password = conf_Password (vc_Config virtualCenter) in
     bindE (signer env (vm_client vm) username password) (\<lambda>signed. do {
       (if \<not> signed then perform (CallRestLogin (vm_client vm) username password) (ans_RestLogin ienv (vm_client vm))
        else perform (CallRestLoginByToken (vm_client vm)) (ans_RestLogin ienv (vm_client vm)));
       State_Monad.return (Inr (vm_client vm))
     })))"

definition GetAncestors :: "inventory_env \<Rightarrow> virtual_machine \<Rightarrow> ('z, moref list) progE" where
  "GetAncestors ienv vm =
     bindE (GetHostSystem ienv vm) (\<lambda>vmHost.
     perform (CallAncestors (dc_client (vm_Datacenter vm)) (host_ref vmHost))
       (ans_Ancestors ienv (dc_client (vm_Datacenter vm)) (host_ref vmHost)))"

text \<open>
  The two loops of \<open>GetZoneRegion\<close>: over the tags of an object, and over the objects. The flag tells
  that both values were found and the function returned from inside the loop.
\<close>

fun scanTags :: "inventory_env \<Rightarrow> client \<Rightarrow> string \<Rightarrow> string \<Rightarrow> string \<Rightarrow> string \<Rightarrow> string list \<Rightarrow>
    ('z, (string \<times> string) \<times> bool) progE" where
  "scanTags ienv tm zoneCat regionCat zone region [] = State_Monad.return (Inr ((zone, region), False))"
| "scanTags ienv tm zoneCat regionCat zone region (value # tags) =
     bindE (perform (CallGetTag tm value) (ans_GetTag ienv tm value)) (\<lambda>(tagName, categoryID).
     bindE (perform (CallGetCategory tm categoryID) (ans_GetCategory ienv tm categoryID)) (\<lambda>categoryName.
     let (zone', region') =
       (if categoryName = zoneCat \<and> zone = [] then (tagName, region)
        else if categoryName = regionCat \<and> region = [] then (zone, tagName)
        else (zone, region)) in
     if zone' \<noteq> [] \<and> region' \<noteq> [] then State_Monad.return (Inr ((zone', region'), True))
     else scanTags ienv tm zoneCat regionCat zone' region' tags))"

fun scanObjects :: "inventory_env \<Rightarrow> client \<Rightarrow> string \<Rightarrow> string \<Rightarrow> string \<Rightarrow> string \<Rightarrow> moref list \<Rightarrow>
    ('z, string \<times> string) progE" where
  "scanObjects ienv tm zoneCat regionCat zone region [] = State_Monad.return (Inr (zone, region))"
| "scanObjects ienv tm zoneCat regionCat zone region (obj # objs) =
     bindE (perform (CallListAttachedTags tm obj) (ans_ListAttachedTags ienv tm obj)) (\<lambda>tags.
     bindE (scanTags ienv tm zoneCat regionCat zone region tags) (\<lambda>((zone', region'), done).
     if done then State_Monad.return (Inr (zone', region'))
     else scanObjects ienv tm zoneCat regionCat zone' region' objs))"

text \<open>\<open>defer tagManager.Logout(ctx)\<close>: the logout follows the body, whatever its result.\<close>

definition withTagManager ::
  "env \<Rightarrow> inventory_env \<Rightarrow> virtual_machine \<Rightarrow> (client \<Rightarrow> ('z, 'a) progE) \<Rightarrow> ('z, 'a) progE" where
  "withTagManager env ienv vm body =
     bindE (GetTagManager env ienv vm) (\<lambda>tm. do {
       r \<leftarrow> body tm;
       perform (CallRestLogout tm) (\<lambda>_. ());
       State_Monad.return r
     })"

definition GetZoneRegion ::
  "env \<Rightarrow> inventory_env \<Rightarrow> virtual_machine \<Rightarrow> string \<Rightarrow> string \<Rightarrow> ('z, string \<times> string) progE" where
  "GetZoneRegion env ienv vm zoneCategoryName regionCategoryName =
     withTagManager env ienv vm (\<lambda>tm.
     bindE (GetAncestors ienv vm) (\<lambda>objects.
     scanObjects ienv tm zoneCategoryName regionCategoryName [] [] (rev objects)))"

definition IsInZoneRegion ::
  "env \<Rightarrow> inventory_env \<Rightarrow> virtual_machine \<Rightarrow> string \<Rightarrow> string \<Rightarrow> string \<Rightarrow> string \<Rightarrow> ('z, bool) progE" where
  "IsInZoneRegion env ienv vm zoneCategoryName regionCategoryName zoneValue regionValue =
     withTagManager env ienv vm (\<lambda>tm.
     bindE (GetZoneRegion env ienv vm zoneCategoryName regionCategoryName) (\<lambda>(vmZone, vmRegion).
     State_Monad.return (Inr
       (if regionValue = [] \<and> zoneValue \<noteq> [] \<and> vmZone = zoneValue then True
        else if zoneValue = [] \<and> regionValue \<noteq> [] \<and> vmRegion = regionValue then True
        else if vmZone \<noteq> [] \<and> vmRegion \<noteq> [] \<and> vmRegion = regionValue \<and> vmZone = zoneValue then True
        else False))))"

lemmas inventory_defs =
  clientOf_def listDatacenters_def getDatacenters_def GetDatacenters_def datastoreMos_def
  GetDatastoreByURL_def hostAccessibleDatastores_def dcGetVirtualMachineByUUID_def renew_def
  GetAllAccessibleDatastores_def Renew_def GetHostSystem_def signer_def GetTagManager_def
  GetAncestors_def withTagManager_def GetZoneRegion_def IsInZoneRegion_def

section \<open>Reading changes nothing\<close>

lemma emits_clientOf [emits_rules]: "emits P (clientOf a)"
  unfolding clientOf_def by (intro emits_rules)

lemma emits_GetVirtualCenter [emits_rules]: "emits P (GetVirtualCenter host)"
  unfolding GetVirtualCenter_def by (intro emits_rules)

lemma emits_GetDatacenters [emits_rules]:
  "(\<And>c. \<not> cns_mutation c \<Longrightarrow> P c) \<Longrightarrow> emits P (GetDatacenters ienv a)"
  unfolding GetDatacenters_def getDatacenters_def listDatacenters_def
  by (intro emits_rules | simp)+

lemma emits_GetDatastoreByURL [emits_rules]:
  "(\<And>c. \<not> cns_mutation c \<Longrightarrow> P c) \<Longrightarrow> emits P (GetDatastoreByURL ienv dc url)"
  unfolding GetDatastoreByURL_def datastoreMos_def by (intro emits_rules | simp)+

lemma emits_dcGetVirtualMachineByUUID [emits_rules]:
  "(\<And>c. \<not> cns_mutation c \<Longrightarrow> P c) \<Longrightarrow> emits P (dcGetVirtualMachineByUUID ienv dc uuid b)"
  unfolding dcGetVirtualMachineByUUID_def Let_def by (intro emits_rules | simp)+

lemma emits_GetAllAccessibleDatastores [emits_rules]:
  "(\<And>c. \<not> cns_mutation c \<Longrightarrow> P c) \<Longrightarrow> emits P (GetAllAccessibleDatastores ienv vm)"
  unfolding GetAllAccessibleDatastores_def hostAccessibleDatastores_def by (intro emits_rules | simp)+

lemma emits_Renew [emits_rules]:
  "(\<And>c. \<not> cns_mutation c \<Longrightarrow> P c) \<Longrightarrow> emits P (Renew env vm b)"
  unfolding Renew_def renew_def by (intro emits_rules | simp)+

lemma emits_scanTags [emits_rules]:
  "(\<And>c. \<not> cns_mutation c \<Longrightarrow> P c) \<Longrightarrow> emits P (scanTags ienv tm zc rc zone region tags)"
  by (induction tags arbitrary: zone region) (auto intro!: emits_rules split: prod.splits)

lemma emits_scanObjects [emits_rules]:
  "(\<And>c. \<not> cns_mutation c \<Longrightarrow> P c) \<Longrightarrow> emits P (scanObjects ienv tm zc rc zone region objs)"
  by (induction objs arbitrary: zone region) (auto intro!: emits_rules)

lemma emits_GetTagManager [emits_rules]:
  "(\<And>c. \<not> cns_mutation c \<Longrightarrow> P c) \<Longrightarrow> emits P (GetTagManager env ienv vm)"
  unfolding GetTagManager_def signer_def Let_def by (intro emits_rules | simp)+

lemma emits_GetZoneRegion [emits_rules]:
  "(\<And>c. \<not> cns_mutation c \<Longrightarrow> P c) \<Longrightarrow> emits P (GetZoneRegion env ienv vm zc rc)"
  unfolding GetZoneRegion_def withTagManager_def GetAncestors_def GetHostSystem_def
  by (intro emits_rules | simp)+

lemma emits_IsInZoneRegion [emits_rules]:
  "(\<And>c. \<not> cns_mutation c \<Longrightarrow> P c) \<Longrightarrow> emits P (IsInZoneRegion env ienv vm zc rc z r)"
  unfolding IsInZoneRegion_def withTagManager_def by (intro emits_rules | simp)+

section \<open>Reading leaves the registry alone\<close>

lemma steady_scan:
  assumes "steady I"
  shows "keeps I (scanTags ienv tm zc rc zone region tags)" and "keeps I (scanObjects ienv tm zc rc zone region objs)"
proof -
  show tags: "keeps I (scanTags ienv tm zc rc zone region tags)" for zone region tags
    by (induction tags arbitrary: zone region)
       (auto intro!: keeps_bindE keeps_return keeps_if steady_perform assms split: prod.splits)
  show "keeps I (scanObjects ienv tm zc rc zone region objs)"
    by (induction objs arbitrary: zone region)
       (auto intro!: keeps_bindE keeps_return keeps_if steady_perform tags assms split: prod.splits)
qed

lemma steady_withTagManager:
  "steady I \<Longrightarrow> (\<And>tm. keeps I (body tm)) \<Longrightarrow> keeps I (withTagManager env ienv vm body)"
  unfolding withTagManager_def GetTagManager_def signer_def GetVirtualCenter_def Let_def
  by (intro keeps_bindE keeps_bind keeps_return keeps_get keeps_load_vc keeps_if keeps_case_sum keeps_handle steady_perform)

lemma steady_IsInZoneRegion: "steady I \<Longrightarrow> keeps I (IsInZoneRegion env ienv vm zc rc z r)"
  unfolding IsInZoneRegion_def GetZoneRegion_def GetAncestors_def GetHostSystem_def
  by (intro keeps_bindE keeps_return keeps_case_prod steady_withTagManager steady_scan steady_perform)

lemma steady_GetAllAccessibleDatastores: "steady I \<Longrightarrow> keeps I (GetAllAccessibleDatastores ienv vm)"
  unfolding GetAllAccessibleDatastores_def hostAccessibleDatastores_def
  by (intro keeps_bindE keeps_return steady_perform)

section \<open>Renewal\<close>

lemma clientOf_Inr:
  "run_state (clientOf a) s = (Inr (cl, conf), s') \<Longrightarrow>
   s' = s \<and> (\<exists>vc. vcs s a = Some vc \<and> vc_Client vc = Some cl \<and> vc_Config vc = conf)"
  by (auto simp: clientOf_def load_vc_def split: option.splits)

text \<open>A virtual machine object is current when it and its datacenter use the session of its vCenter.\<close>

definition current_vm :: "'z driver_scheme \<Rightarrow> virtual_machine \<Rightarrow> bool" where
  "current_vm s vm \<longleftrightarrow> (\<exists>a vc. map_of (virtualCenters s) (vm_VirtualCenterHost vm) = Some a \<and> vcs s a = Some vc \<and>
     vc_Client vc = Some (vm_client vm) \<and> dc_client (vm_Datacenter vm) = vm_client vm)"

definition same_vm :: "virtual_machine \<Rightarrow> virtual_machine \<Rightarrow> bool" where
  "same_vm vm vm' \<longleftrightarrow> vm_ref vm' = vm_ref vm \<and> vm_UUID vm' = vm_UUID vm \<and>
     vm_VirtualCenterHost vm' = vm_VirtualCenterHost vm \<and>
     dc_ref (vm_Datacenter vm') = dc_ref (vm_Datacenter vm)"

lemma Renew_current:
  assumes "run_state (Renew env vm reconnect) s = (Inr vm', s')"
  shows "current_vm s' vm' \<and> same_vm vm vm' \<and> virtualCenters s' = virtualCenters s"
proof -
  from assms obtain a s1 where reg: "map_of (virtualCenters s) (vm_VirtualCenterHost vm) = Some a"
    and con: "virtualCenters s1 = virtualCenters s" and ren: "run_state (renew vm a) s1 = (Inr vm', s')"
    by (auto simp: Renew_def GetVirtualCenter_def dest: Connect_registry
        split: option.splits prod.splits sum.splits if_splits)
  from ren obtain cl conf where "run_state (clientOf a) s1 = (Inr (cl, conf), s')"
    and "vm' = vm\<lparr>vm_client := cl, vm_Datacenter := (vm_Datacenter vm)\<lparr>dc_client := cl\<rparr>\<rparr>"
    by (auto simp: renew_def split: prod.splits sum.splits)
  with reg con show ?thesis
    by (auto simp: current_vm_def same_vm_def dest: clientOf_Inr)
qed

text \<open>After a reconnection the renewal cannot fail for want of a session.\<close>

lemma Renew_reconnects:
  assumes "map_of (virtualCenters s) (vm_VirtualCenterHost vm) = Some a"
    and "run_state (Connect env a) s = (Inr (), s1)"
  shows "\<exists>vm'. run_state (Renew env vm True) s = (Inr vm', s1)"
  using assms Connect_client [OF assms(2)]
  by (auto simp: Renew_def GetVirtualCenter_def renew_def clientOf_def load_vc_def)

section \<open>Zones and regions\<close>

text \<open>
  The specification: of a list of (category, name) pairs, the first non-empty name in a category.
\<close>

definition first_tag :: "(string \<times> string) list \<Rightarrow> string \<Rightarrow> string" where
  "first_tag ts cat = (case find (\<lambda>(c, n). c = cat \<and> n \<noteq> []) ts of None \<Rightarrow> [] | Some (c, n) \<Rightarrow> n)"

lemma first_tag_simps [simp]:
  "first_tag [] cat = []"
  "first_tag ((c, n) # ts) cat = (if c = cat \<and> n \<noteq> [] then n else first_tag ts cat)"
  by (auto simp: first_tag_def)

lemma first_tag_append [simp]:
  "first_tag (ts @ us) cat = (if first_tag ts cat \<noteq> [] then first_tag ts cat else first_tag us cat)"
  by (induction ts) auto

text \<open>
  A vCenter whose tags do not change during the search: \<open>tags obj\<close> are the (category, name) pairs of
  an object, in the order the tag service lists them.
\<close>

definition tags_are :: "inventory_env \<Rightarrow> client \<Rightarrow> (moref \<Rightarrow> (string \<times> string) list) \<Rightarrow> bool" where
  "tags_are ienv tm tags \<longleftrightarrow>
     (\<exists>ids name cat catName.
        (\<forall>obj h. ans_ListAttachedTags ienv tm obj h = Inr (ids obj)) \<and>
        (\<forall>t h. ans_GetTag ienv tm t h = Inr (name t, cat t)) \<and>
        (\<forall>c h. ans_GetCategory ienv tm c h = Inr (catName c)) \<and>
        (\<forall>obj. tags obj = map (\<lambda>t. (catName (cat t), name t)) (ids obj)))"

lemma scanTags_spec:
  assumes "\<And>t h. ans_GetTag ienv tm t h = Inr (name t, cat t)"
    and "\<And>c h. ans_GetCategory ienv tm c h = Inr (catName c)" and "zc \<noteq> rc"
  shows "zone = [] \<or> region = [] \<Longrightarrow>
    \<exists>s'. run_state (scanTags ienv tm zc rc zone region ids) s =
      (let ts = map (\<lambda>t. (catName (cat t), name t)) ids;
           z = (if zone \<noteq> [] then zone else first_tag ts zc);
           r = (if region \<noteq> [] then region else first_tag ts rc)
       in (Inr ((z, r), z \<noteq> [] \<and> r \<noteq> []), s'))"
proof (induction ids arbitrary: zone region s)
  case (Cons t ids)
  let ?c = "catName (cat t)" and ?s = "s\<lparr>trace := trace s @ [CallGetTag tm t, CallGetCategory tm (cat t)]\<rparr>"
  define z where "z = (if ?c = zc \<and> zone = [] then name t else zone)"
  define r where "r = (if ?c = rc \<and> region = [] then name t else region)"
  have step: "run_state (scanTags ienv tm zc rc zone region (t # ids)) s =
      (if z \<noteq> [] \<and> r \<noteq> [] then (Inr ((z, r), True), ?s) else run_state (scanTags ienv tm zc rc z r ids) ?s)"
    using assms(3) by (simp add: assms(1,2) z_def r_def)
  have z: "(if z \<noteq> [] then z else first_tag ts zc) = (if zone \<noteq> [] then zone else first_tag ((?c, name t) # ts) zc)"
    and r: "(if r \<noteq> [] then r else first_tag ts rc) = (if region \<noteq> [] then region else first_tag ((?c, name t) # ts) rc)"
    for ts by (auto simp: z_def r_def)
  show ?case
  proof (cases "z \<noteq> [] \<and> r \<noteq> []")
    case True then show ?thesis unfolding step list.map Let_def z [symmetric] r [symmetric] by simp
  next
    case False
    with Cons.IH [of z r ?s] show ?thesis
      unfolding step list.map Let_def z [symmetric] r [symmetric] by auto
  qed
qed (auto simp: Let_def)

lemma scanObjects_spec:
  assumes tags: "tags_are ienv tm tags" and "zc \<noteq> rc"
  shows "zone = [] \<or> region = [] \<Longrightarrow>
    \<exists>s'. run_state (scanObjects ienv tm zc rc zone region objs) s =
      (Inr (if zone \<noteq> [] then zone else first_tag (concat (map tags objs)) zc,
            if region \<noteq> [] then region else first_tag (concat (map tags objs)) rc), s')"
proof (induction objs arbitrary: zone region s)
  case (Cons obj objs)
  from tags obtain ids name cat catName where
    ids: "\<And>obj h. ans_ListAttachedTags ienv tm obj h = Inr (ids obj)"
    and name: "\<And>t h. ans_GetTag ienv tm t h = Inr (name t, cat t)"
    and catName: "\<And>c h. ans_GetCategory ienv tm c h = Inr (catName c)"
    and tags': "tags obj = map (\<lambda>t. (catName (cat t), name t)) (ids obj)"
    unfolding tags_are_def by blast
  let ?s = "s\<lparr>trace := trace s @ [CallListAttachedTags tm obj]\<rparr>"
  define z where "z = (if zone \<noteq> [] then zone else first_tag (tags obj) zc)"
  define r where "r = (if region \<noteq> [] then region else first_tag (tags obj) rc)"
  from scanTags_spec [OF name catName assms(2) Cons.prems, of "ids obj" ?s] obtain s1 where
    scan: "run_state (scanTags ienv tm zc rc zone region (ids obj)) ?s = (Inr ((z, r), z \<noteq> [] \<and> r \<noteq> []), s1)"
    by (auto simp: Let_def tags' z_def r_def)
  show ?case
  proof (cases "z \<noteq> [] \<and> r \<noteq> []")
    case True
    with scan show ?thesis by (auto simp: ids z_def r_def)
  next
    case False
    with Cons.IH [of z r s1] obtain s2 where
      "run_state (scanObjects ienv tm zc rc z r objs) s1 =
        (Inr (if z \<noteq> [] then z else first_tag (concat (map tags objs)) zc,
              if r \<noteq> [] then r else first_tag (concat (map tags objs)) rc), s2)" by blast
    with False scan show ?thesis by (auto simp: ids z_def r_def)
  qed
qed auto

section \<open>Properties\<close>

lemma GetTagManager_client:
  "run_state (GetTagManager env ienv vm) s = (Inr tm, s') \<Longrightarrow> tm = vm_client vm"
  by (auto simp: GetTagManager_def GetVirtualCenter_def load_vc_def Let_def
      split: option.splits prod.splits sum.splits if_splits)

lemma withTagManager_Inr:
  assumes "run_state (withTagManager env ienv vm body) s = (Inr x, s')"
  obtains s1 s2 where "run_state (body (vm_client vm)) s1 = (Inr x, s2)"
  using assms
  by (auto simp: withTagManager_def dest: GetTagManager_client split: prod.splits sum.splits)

lemma GetAncestors_Inr:
  assumes "run_state (GetAncestors ienv vm) s = (Inr objects, s')"
  obtains host h h' where "ans_VmHost ienv (vm_client vm) (vm_ref vm) h = Inr host"
    and "ans_Ancestors ienv (dc_client (vm_Datacenter vm)) host h' = Inr objects"
  using assms by (auto simp: GetAncestors_def GetHostSystem_def split: sum.splits)

lemma GetZoneRegion_tags:
  assumes run: "run_state (GetZoneRegion env ienv vm zoneCategoryName regionCategoryName) (s :: 'z driver_scheme) =
      (Inr (zone, region), s')"
    and tags: "tags_are ienv (vm_client vm) tags" and "zoneCategoryName \<noteq> regionCategoryName"
  shows "\<exists>host ancestors h h'. ans_VmHost ienv (vm_client vm) (vm_ref vm) h = Inr host \<and>
     ans_Ancestors ienv (dc_client (vm_Datacenter vm)) host h' = Inr ancestors \<and>
     zone = first_tag (concat (map tags (rev ancestors))) zoneCategoryName \<and>
     region = first_tag (concat (map tags (rev ancestors))) regionCategoryName"
proof -
  from run obtain s1 s2 :: "'z driver_scheme" where
    "run_state (bindE (GetAncestors ienv vm) (\<lambda>objects. scanObjects ienv (vm_client vm) zoneCategoryName
       regionCategoryName [] [] (rev objects))) s1 = (Inr (zone, region), s2)"
    unfolding GetZoneRegion_def by (rule withTagManager_Inr)
  then obtain objects s3 where anc: "run_state (GetAncestors ienv vm) s1 = (Inr objects, s3)"
    and scan: "run_state (scanObjects ienv (vm_client vm) zoneCategoryName regionCategoryName [] []
      (rev objects)) s3 = (Inr (zone, region), s2)"
    by (rule bindE_Inr)
  from anc obtain host h h' where "ans_VmHost ienv (vm_client vm) (vm_ref vm) h = Inr host"
    and "ans_Ancestors ienv (dc_client (vm_Datacenter vm)) host h' = Inr objects"
    by (rule GetAncestors_Inr)
  moreover have "zone = first_tag (concat (map tags (rev objects))) zoneCategoryName \<and>
     region = first_tag (concat (map tags (rev objects))) regionCategoryName"
    using scan scanObjects_spec [OF tags assms(3), of "[]" "[]" "rev objects" s3] by auto
  ultimately show ?thesis by blast
qed

text \<open>
  C24. The zone and the region of a node are the names of the nearest tags: on the way from the host of
  the virtual machine up to the root folder, the first tag with a non-empty name in the zone
  category and in the region category, and empty where there is none.\<close>

theorem GetZoneRegion_nearest:
  assumes run: "run_state (GetZoneRegion env ienv vm zoneCategoryName regionCategoryName) (s :: 'z driver_scheme) =
      (Inr (zone, region), s')"
    and tags: "tags_are ienv (vm_client vm) tags" and "zoneCategoryName \<noteq> regionCategoryName"
  shows "\<exists>host ancestors h h'. ans_VmHost ienv (vm_client vm) (vm_ref vm) h = Inr host \<and>
     ans_Ancestors ienv (dc_client (vm_Datacenter vm)) host h' = Inr ancestors \<and>
     zone = first_tag (concat (map tags (rev ancestors))) zoneCategoryName \<and>
     region = first_tag (concat (map tags (rev ancestors))) regionCategoryName"
  using assms by (rule GetZoneRegion_tags)

section \<open>A sample inventory\<close>

text \<open>One datacenter, one host in a cluster, two datastores; the cluster and the datacenter are tagged.\<close>

definition sample_ienv :: inventory_env where
  "sample_ienv = \<lparr>ans_DatacenterList = (\<lambda>_ _. Inr [''dc1'']), ans_Datacenter = (\<lambda>_ p _. Inr p),
     ans_DatastoreList = (\<lambda>_ _ _. Inr [''ds1'', ''ds2'']),
     ans_DatastoreInfo = (\<lambda>_ refs _. Inr (map (\<lambda>r. (r, ''url-'' @ r)) refs)),
     ans_DatastoreSummary = (\<lambda>_ r _. Inr (''url-'' @ r)),
     ans_FindByUuid = (\<lambda>_ _ _ _ _. Inr (Some ''vm1'')),
     ans_VmSummary = (\<lambda>_ vms _. Inr (map (\<lambda>_. ''poweredOn'') vms)),
     ans_VmHost = (\<lambda>_ _ _. Inr ''host1''), ans_HostSummary = (\<lambda>_ _ _. Inr ()),
     ans_HostDatastores = (\<lambda>_ _ _. Inr [''ds1'', ''ds2'']),
     ans_ClusterHosts = (\<lambda>_ _ _. Inr [''host1'']),
     ans_Ancestors = (\<lambda>_ _ _. Inr [''folder1'', ''dc1'', ''cluster1'']),
     ans_RestLogin = (\<lambda>_ _. Inr ()),
     ans_ListAttachedTags = (\<lambda>_ obj _. Inr (if obj = ''cluster1'' then [''t-east''] else if obj = ''dc1'' then [''t-west'', ''t-us''] else [])),
     ans_GetTag = (\<lambda>_ t _. Inr (t, if t = ''t-us'' then ''c-region'' else ''c-zone'')),
     ans_GetCategory = (\<lambda>_ c _. Inr c), ans_ApiVersion = (\<lambda>_. ''6.7.3''), schedule = (\<lambda>_ _. 0)\<rparr>"

definition sample_vm :: virtual_machine where
  "sample_vm = \<lparr>vm_VirtualCenterHost = ''vc1'', vm_UUID = ''4a'', vm_ref = ''vm1'', vm_client = 0,
     vm_Datacenter = \<lparr>dc_ref = ''dc1'', dc_client = 0, dc_VirtualCenterHost = ''vc1''\<rparr>\<rparr>"

lemma sample_ienv_answers:
  "ans_DatacenterList sample_ienv = (\<lambda>_ _. Inr [''dc1''])" "ans_Datacenter sample_ienv = (\<lambda>_ p _. Inr p)"
  "ans_DatastoreList sample_ienv = (\<lambda>_ _ _. Inr [''ds1'', ''ds2''])"
  "ans_DatastoreInfo sample_ienv = (\<lambda>_ refs _. Inr (map (\<lambda>r. (r, ''url-'' @ r)) refs))"
  "ans_FindByUuid sample_ienv = (\<lambda>_ _ _ _ _. Inr (Some ''vm1''))"
  "ans_VmHost sample_ienv = (\<lambda>_ _ _. Inr ''host1'')" "ans_HostSummary sample_ienv = (\<lambda>_ _ _. Inr ())"
  "ans_HostDatastores sample_ienv = (\<lambda>_ _ _. Inr [''ds1'', ''ds2''])"
  "ans_Ancestors sample_ienv = (\<lambda>_ _ _. Inr [''folder1'', ''dc1'', ''cluster1''])"
  "ans_RestLogin sample_ienv = (\<lambda>_ _. Inr ())"
  "ans_ListAttachedTags sample_ienv = (\<lambda>_ obj _. Inr (if obj = ''cluster1'' then [''t-east'']
     else if obj = ''dc1'' then [''t-west'', ''t-us''] else []))"
  "ans_GetTag sample_ienv = (\<lambda>_ t _. Inr (t, if t = ''t-us'' then ''c-region'' else ''c-zone''))"
  "ans_GetCategory sample_ienv = (\<lambda>_ c _. Inr c)" "ans_ApiVersion sample_ienv = (\<lambda>_. ''6.7.3'')"
  "schedule sample_ienv = (\<lambda>_ _. 0)"
  by (simp_all add: sample_ienv_def)

lemma sample_vm_sel:
  "vm_VirtualCenterHost sample_vm = ''vc1''" "vm_UUID sample_vm = ''4a''" "vm_ref sample_vm = ''vm1''"
  "vm_client sample_vm = 0"
  "vm_Datacenter sample_vm = \<lparr>dc_ref = ''dc1'', dc_client = 0, dc_VirtualCenterHost = ''vc1''\<rparr>"
  by (simp_all add: sample_vm_def)

lemma sample_driver_sel:
  "virtualCenters sample_driver = [(''vc1'', 0)]" "vcs sample_driver = [0 \<mapsto> sample_vc]"
  "trace sample_driver = []" "next_vc sample_driver = 1"
  by (simp_all add: sample_driver_def)

theorem GetZoneRegion_nearest_witness:
  "\<exists>s' tags h'. tags_are sample_ienv 0 tags \<and>
     run_state (GetZoneRegion sample_env sample_ienv sample_vm ''c-zone'' ''c-region'') sample_driver =
       (Inr (''t-east'', ''t-us''), s') \<and>
     (\<exists>ancestors. ans_Ancestors sample_ienv 0 ''host1'' h' = Inr ancestors \<and>
       ''t-east'' = first_tag (concat (map tags (rev ancestors))) ''c-zone'')"
proof -
  define tags where "tags obj = map (\<lambda>t. (if t = ''t-us'' then ''c-region'' else ''c-zone'', t))
    (if obj = ''cluster1'' then [''t-east''] else if obj = ''dc1'' then [''t-west'', ''t-us''] else [])" for obj
  have tags: "tags_are sample_ienv (vm_client sample_vm) tags"
    unfolding tags_are_def tags_def
    by (rule exI [of _ "\<lambda>obj. if obj = ''cluster1'' then [''t-east''] else if obj = ''dc1'' then [''t-west'', ''t-us''] else []"],
        rule exI [of _ "\<lambda>t. t"], rule exI [of _ "\<lambda>t. if t = ''t-us'' then ''c-region'' else ''c-zone''"],
        rule exI [of _ "\<lambda>c. c"]) (simp add: sample_ienv_def)
  obtain s' where run: "run_state (GetZoneRegion sample_env sample_ienv sample_vm ''c-zone'' ''c-region'') sample_driver =
       (Inr (''t-east'', ''t-us''), s')"
    by (simp add: GetZoneRegion_def withTagManager_def GetTagManager_def signer_def GetAncestors_def GetHostSystem_def
        GetVirtualCenter_def load_vc_def sample_ienv_answers sample_env_answers sample_vm_sel sample_driver_sel)
  from GetZoneRegion_nearest [OF run tags] run tags show ?thesis
    by (auto simp: sample_vm_sel sample_ienv_answers)
qed

end
