(* ===== verification/VM_Search.thy ===== *)
theory VM_Search
  imports Inventory Program_Logic
begin

text \<open>
  \<open>GetVirtualMachineByUUID\<close> of \<open>virtualmachine.go\<close> with \<open>AsyncGetAllDatacenters\<close> of \<open>datacenter.go\<close>: one
  goroutine lists the datacenters of all registered vCenters and sends them over a buffered channel,
  eight goroutines receive them and search each for the virtual machine. The goroutines share the
  two channels, the cancelled context, and the variables \<open>nodeVM\<close> and \<open>poolErr\<close>.

  A step of the model is one step of one goroutine between two channel operations or calls to
  vCenter. Which goroutine moves, and which ready branch a \<open>select\<close> takes, is chosen by \<open>schedule\<close>, an
  arbitrary function: a theorem about every \<open>schedule\<close> holds for every interleaving. The pool ends
  when its eight goroutines have ended (\<open>wg.Wait\<close>); a lister that is still blocked then stays blocked
  or ends at its next look at the cancelled context.
\<close>

section \<open>The goroutines\<close>

definition poolSize :: nat where "poolSize = 8"
definition dcBufferSize :: nat where "dcBufferSize = poolSize * 10"

text \<open>
  The program points of \<open>asyncGetAllDatacenters\<close>: the loop over vCenters, between \<open>Connect\<close> and
  \<open>GetDatacenters\<close>, the loop over datacenters, the blocking send of a datacenter, the send of an error,
  and the two deferred \<open>close\<close> calls, which run last in, first out: \<open>errChan\<close> is closed first. A panic in
  \<open>Connect\<close> or \<open>GetDatacenters\<close> is not recovered: it ends the process, hence all goroutines of the pool.
\<close>

datatype lister =
    NextVC "nat list"
  | Fetch nat "nat list"
  | Publish "datacenter list" "nat list"
  | Sending datacenter "datacenter list" "nat list"
  | SendError error
  | CloseErr
  | CloseDcs
  | Returned
  | Panicked error

datatype worker = Selecting | Searching datacenter | Done

record search =
  lister :: lister
  dcsChan :: "datacenter list"
  dcsClosed :: bool
  errChan :: "error list"
  errClosed :: bool
  cancelled :: bool
  pool :: "worker list"
  nodeVM :: "virtual_machine option"
  poolErr :: "error option"

text \<open>A choice of the scheduler; a waiting worker has the two branches of its \<open>select\<close>.\<close>

datatype choice = List | RecvErr nat | RecvDc nat | Search nat

definition start :: "nat list \<Rightarrow> search" where
  "start as = \<lparr>lister = NextVC as, dcsChan = [], dcsClosed = False, errChan = [], errClosed = False,
     cancelled = False, pool = replicate poolSize Selecting, nodeVM = None, poolErr = None\<rparr>"

definition listerReady :: "search \<Rightarrow> bool" where
  "listerReady st = (case lister st of
     Returned \<Rightarrow> False
   | Panicked _ \<Rightarrow> False
   | Sending _ _ _ \<Rightarrow> length (dcsChan st) < dcBufferSize
   | _ \<Rightarrow> True)"

definition workerChoices :: "search \<Rightarrow> nat \<Rightarrow> choice list" where
  "workerChoices st i = (case pool st ! i of
     Done \<Rightarrow> []
   | Searching _ \<Rightarrow> [Search i]
   | Selecting \<Rightarrow> (if errChan st \<noteq> [] \<or> errClosed st then [RecvErr i] else []) @
                 (if dcsChan st \<noteq> [] \<or> dcsClosed st then [RecvDc i] else []))"

definition enabled :: "search \<Rightarrow> choice list" where
  "enabled st = (if listerReady st then [List] else []) @
     concat (map (workerChoices st) [0..<length (pool st)])"

text \<open>
  What a failed call of the lister leads to: an error is sent over \<open>errChan\<close>, a panic ends every goroutine.
\<close>

definition listerFails :: "error \<Rightarrow> search \<Rightarrow> search" where
  "listerFails err st =
     (if panics err then st\<lparr>lister := Panicked err, pool := map (\<lambda>_. Done) (pool st)\<rparr>
      else st\<lparr>lister := SendError err\<rparr>)"

text \<open>One step of \<open>asyncGetAllDatacenters\<close>.\<close>

definition listStep :: "env \<Rightarrow> inventory_env \<Rightarrow> search \<Rightarrow> ('z, search) prog" where
  "listStep env ienv st = (case lister st of
     NextVC [] \<Rightarrow> State_Monad.return (st\<lparr>lister := CloseErr\<rparr>)
   | NextVC (a # as) \<Rightarrow>
       if cancelled st then State_Monad.return (st\<lparr>lister := SendError ContextCanceled\<rparr>)
       else do {
         r \<leftarrow> Connect env a;
         State_Monad.return (case r of
           Inl err \<Rightarrow> listerFails err st | Inr _ \<Rightarrow> st\<lparr>lister := Fetch a as\<rparr>)
       }
   | Fetch a as \<Rightarrow> do {
       r \<leftarrow> GetDatacenters ienv a;
       State_Monad.return (case r of
         Inl err \<Rightarrow> listerFails err st | Inr dcs \<Rightarrow> st\<lparr>lister := Publish dcs as\<rparr>)
     }
   | Publish [] as \<Rightarrow> State_Monad.return (st\<lparr>lister := NextVC as\<rparr>)
   | Publish (dc # dcs) as \<Rightarrow> State_Monad.return
       (st\<lparr>lister := if cancelled st then SendError ContextCanceled else Sending dc dcs as\<rparr>)
   | Sending dc dcs as \<Rightarrow> State_Monad.return (st\<lparr>dcsChan := dcsChan st @ [dc], lister := Publish dcs as\<rparr>)
   | SendError err \<Rightarrow> State_Monad.return (st\<lparr>errChan := errChan st @ [err], lister := CloseErr\<rparr>)
   | CloseErr \<Rightarrow> State_Monad.return (st\<lparr>errClosed := True, lister := CloseDcs\<rparr>)
   | CloseDcs \<Rightarrow> State_Monad.return (st\<lparr>dcsClosed := True, lister := Returned\<rparr>)
   | Returned \<Rightarrow> State_Monad.return st
   | Panicked _ \<Rightarrow> State_Monad.return st)"

text \<open>The branches of the \<open>select\<close>, and the search in a received datacenter.\<close>

definition recvErr :: "nat \<Rightarrow> search \<Rightarrow> search" where
  "recvErr i st = (case errChan st of
     [] \<Rightarrow> st\<lparr>pool := (pool st)[i := Done]\<rparr>
   | err # errs \<Rightarrow>
       if err = ContextCanceled then st\<lparr>errChan := errs, pool := (pool st)[i := Done]\<rparr>
       else st\<lparr>errChan := errs, poolErr := Some err, pool := (pool st)[i := Done]\<rparr>)"

definition recvDc :: "nat \<Rightarrow> search \<Rightarrow> search" where
  "recvDc i st = (case dcsChan st of
     [] \<Rightarrow> st\<lparr>pool := (pool st)[i := Done]\<rparr>
   | dc # dcs \<Rightarrow> st\<lparr>dcsChan := dcs, pool := (pool st)[i := Searching dc]\<rparr>)"

definition searchStep :: "inventory_env \<Rightarrow> string \<Rightarrow> bool \<Rightarrow> nat \<Rightarrow> search \<Rightarrow> ('z, search) prog" where
  "searchStep ienv uuid instanceUUID i st = (case pool st ! i of
     Searching dc \<Rightarrow> do {
       r \<leftarrow> dcGetVirtualMachineByUUID ienv dc uuid instanceUUID;
       State_Monad.return (case r of
         Inr vm \<Rightarrow> st\<lparr>nodeVM := Some vm, cancelled := True, pool := (pool st)[i := Done]\<rparr>
       | Inl err \<Rightarrow>
           if err = ErrVMNotFound then st\<lparr>pool := (pool st)[i := Selecting]\<rparr>
           else st\<lparr>cancelled := True, poolErr := Some err, pool := (pool st)[i := Done]\<rparr>)
     }
   | _ \<Rightarrow> State_Monad.return st)"

definition poolStep ::
  "env \<Rightarrow> inventory_env \<Rightarrow> string \<Rightarrow> bool \<Rightarrow> choice \<Rightarrow> search \<Rightarrow> ('z, search) prog" where
  "poolStep env ienv uuid instanceUUID c st = (case c of
     List \<Rightarrow> listStep env ienv st
   | RecvErr i \<Rightarrow> State_Monad.return (recvErr i st)
   | RecvDc i \<Rightarrow> State_Monad.return (recvDc i st)
   | Search i \<Rightarrow> searchStep ienv uuid instanceUUID i st)"

section \<open>Every step makes progress\<close>

fun vcsLeft :: "lister \<Rightarrow> nat" where
  "vcsLeft (NextVC as) = length as"
| "vcsLeft (Fetch a as) = Suc (length as)"
| "vcsLeft (Publish dcs as) = length as"
| "vcsLeft (Sending dc dcs as) = length as"
| "vcsLeft _ = 0"

fun listerWeight :: "lister \<Rightarrow> nat" where
  "listerWeight (NextVC as) = 6"
| "listerWeight (Fetch a as) = 5"
| "listerWeight (Publish dcs as) = 7 + 6 * length dcs"
| "listerWeight (Sending dc dcs as) = 12 + 6 * length dcs"
| "listerWeight (SendError err) = 4"
| "listerWeight CloseErr = 3"
| "listerWeight CloseDcs = 2"
| "listerWeight Returned = 0"
| "listerWeight (Panicked err) = 0"

fun workerWeight :: "worker \<Rightarrow> nat" where
  "workerWeight Selecting = 1"
| "workerWeight (Searching dc) = 2"
| "workerWeight Done = 0"

text \<open>
  What is left to do: first the vCenters not yet listed, then a weighted count of the remaining
  datacenters, channel contents and goroutines.
\<close>

definition leftOver :: "search \<Rightarrow> nat \<times> nat" where
  "leftOver st = (vcsLeft (lister st),
     listerWeight (lister st) + 3 * length (dcsChan st) + sum_list (map workerWeight (pool st)))"

lemma set_workerChoices:
  "List \<notin> set (workerChoices st j)"
  "RecvErr i \<in> set (workerChoices st j) \<longleftrightarrow> j = i \<and> pool st ! j = Selecting \<and> (errChan st \<noteq> [] \<or> errClosed st)"
  "RecvDc i \<in> set (workerChoices st j) \<longleftrightarrow> j = i \<and> pool st ! j = Selecting \<and> (dcsChan st \<noteq> [] \<or> dcsClosed st)"
  "Search i \<in> set (workerChoices st j) \<longleftrightarrow> j = i \<and> (\<exists>dc. pool st ! j = Searching dc)"
  by (cases "pool st ! j"; auto simp: workerChoices_def)+

lemma enabled_iff:
  "List \<in> set (enabled st) \<longleftrightarrow> listerReady st"
  "RecvErr i \<in> set (enabled st) \<longleftrightarrow>
     i < length (pool st) \<and> pool st ! i = Selecting \<and> (errChan st \<noteq> [] \<or> errClosed st)"
  "RecvDc i \<in> set (enabled st) \<longleftrightarrow>
     i < length (pool st) \<and> pool st ! i = Selecting \<and> (dcsChan st \<noteq> [] \<or> dcsClosed st)"
  "Search i \<in> set (enabled st) \<longleftrightarrow> i < length (pool st) \<and> (\<exists>dc. pool st ! i = Searching dc)"
  by (auto simp: enabled_def set_workerChoices)

lemma sum_pool_update:
  "i < length ws \<Longrightarrow>
   sum_list (map workerWeight (ws[i := w])) + workerWeight (ws ! i) = sum_list (map workerWeight ws) + workerWeight w"
  by (induction ws arbitrary: i) (auto split: nat.splits)

lemma listerFails_sel [simp]:
  "lister (listerFails err st) = (if panics err then Panicked err else SendError err)"
  "pool (listerFails err st) = (if panics err then map (\<lambda>_. Done) (pool st) else pool st)"
  "dcsChan (listerFails err st) = dcsChan st" "dcsClosed (listerFails err st) = dcsClosed st"
  "errChan (listerFails err st) = errChan st" "errClosed (listerFails err st) = errClosed st"
  "cancelled (listerFails err st) = cancelled st" "nodeVM (listerFails err st) = nodeVM st"
  "poolErr (listerFails err st) = poolErr st"
  by (simp_all add: listerFails_def)

lemma workerWeight_Done [simp]: "sum_list (map workerWeight (map (\<lambda>_. Done) ws)) = 0"
  by (induction ws) simp_all

lemma listStep_progress:
  assumes "run_state (listStep env ienv st) s = (st', s')" and "listerReady st"
  shows "(leftOver st', leftOver st) \<in> less_than <*lex*> less_than"
  using assms
  by (auto simp: listStep_def listerReady_def leftOver_def
      split: lister.splits list.splits if_splits sum.splits prod.splits)

lemma poolStep_progress:
  assumes run: "run_state (poolStep env ienv uuid b c st) s = (st', s')" and c: "c \<in> set (enabled st)"
  shows "(leftOver st', leftOver st) \<in> less_than <*lex*> less_than"
proof (cases c)
  case List
  with run c show ?thesis by (auto simp: poolStep_def enabled_iff intro: listStep_progress)
next
  case (RecvErr i)
  with c have "i < length (pool st)" "pool st ! i = Selecting" by (auto simp: enabled_iff)
  with run RecvErr sum_pool_update [of i "pool st" Done] show ?thesis
    by (auto simp: poolStep_def recvErr_def leftOver_def split: list.splits)
next
  case (RecvDc i)
  with c have "i < length (pool st)" "pool st ! i = Selecting" by (auto simp: enabled_iff)
  with run RecvDc sum_pool_update [of i "pool st" Done] sum_pool_update [of i "pool st" "Searching (hd (dcsChan st))"]
  show ?thesis by (auto simp: poolStep_def recvDc_def leftOver_def split: list.splits)
next
  case (Search i)
  with c obtain dc where "i < length (pool st)" "pool st ! i = Searching dc" by (auto simp: enabled_iff)
  with run Search sum_pool_update [of i "pool st" Done] sum_pool_update [of i "pool st" Selecting]
  show ?thesis
    by (auto simp: poolStep_def searchStep_def leftOver_def split: prod.splits sum.splits if_splits)
qed

section \<open>The search\<close>

definition allDone :: "search \<Rightarrow> bool" where
  "allDone st = list_all ((=) Done) (pool st)"

text \<open>The choice the scheduler makes in step \<open>n\<close>.\<close>

definition pick :: "(nat \<Rightarrow> nat) \<Rightarrow> nat \<Rightarrow> choice list \<Rightarrow> choice" where
  "pick sched n cs = cs ! (sched n mod length cs)"

lemma pick_in: "cs \<noteq> [] \<Longrightarrow> pick sched n cs \<in> set cs"
  by (simp add: pick_def)

function runPool ::
  "env \<Rightarrow> inventory_env \<Rightarrow> string \<Rightarrow> bool \<Rightarrow> (nat \<Rightarrow> nat) \<Rightarrow> nat \<Rightarrow> search \<Rightarrow> 'z driver_scheme \<Rightarrow>
   search \<times> 'z driver_scheme" where
  "runPool env ienv uuid b sched n st s =
     (if allDone st \<or> enabled st = [] then (st, s)
      else let (st', s') = run_state (poolStep env ienv uuid b (pick sched n (enabled st)) st) s
           in runPool env ienv uuid b sched (Suc n) st' s')"
  by pat_completeness auto

termination
proof (relation "inv_image (less_than <*lex*> less_than) (\<lambda>(env, ienv, uuid, b, sched, n, st, s). leftOver st)",
    goal_cases)
  case 1 show ?case by auto
next
  case (2 env ienv uuid b sched n st s x st' s')
  then have "run_state (poolStep env ienv uuid b (pick sched n (enabled st)) st) s = (st', s')" by simp
  from poolStep_progress [OF this] 2(1) show ?case by (auto simp: pick_in)
qed

declare runPool.simps [simp del]

text \<open>What the function returns once the pool has ended.\<close>

definition searchResult :: "search \<Rightarrow> error + virtual_machine" where
  "searchResult st = (case lister st of Panicked err \<Rightarrow> Inl err | _ \<Rightarrow>
     (case nodeVM st of
        Some vm \<Rightarrow> Inr vm
      | None \<Rightarrow> (case poolErr st of Some err \<Rightarrow> Inl err | None \<Rightarrow> Inl ErrVMNotFound)))"

lemma searchResult_Inr: "searchResult st = Inr vm \<Longrightarrow> nodeVM st = Some vm"
  by (cases "lister st") (auto simp: searchResult_def split: option.splits)

definition GetVirtualMachineByUUID ::
  "env \<Rightarrow> inventory_env \<Rightarrow> string \<Rightarrow> bool \<Rightarrow> ('z, virtual_machine) progE" where
  "GetVirtualMachineByUUID env ienv uuid instanceUUID = do {
     s \<leftarrow> State_Monad.get;
     st \<leftarrow> State (runPool env ienv uuid instanceUUID (schedule ienv (trace s)) 0
                  (start (map snd (virtualCenters s))));
     State_Monad.return (searchResult st)
   }"

lemma runPool_done: "allDone st \<or> enabled st = [] \<Longrightarrow> runPool env ienv uuid b sched n st s = (st, s)"
  by (simp add: runPool.simps)

lemma runPool_next:
  "\<not> allDone st \<Longrightarrow> enabled st \<noteq> [] \<Longrightarrow>
   runPool env ienv uuid b sched n st s =
     runPool env ienv uuid b sched (Suc n)
       (fst (run_state (poolStep env ienv uuid b (pick sched n (enabled st)) st) s))
       (snd (run_state (poolStep env ienv uuid b (pick sched n (enabled st)) st) s))"
  by (subst runPool.simps) (simp add: Let_def split_beta)

lemma runPool_invariant:
  assumes step: "\<And>st s c st' s'. I st s \<Longrightarrow> c \<in> set (enabled st) \<Longrightarrow>
      run_state (poolStep env ienv uuid b c st) s = (st', s') \<Longrightarrow> I st' s'"
  shows "I st s \<Longrightarrow> runPool env ienv uuid b sched n st s = (st', s') \<Longrightarrow>
    I st' s' \<and> (allDone st' \<or> enabled st' = [])"
proof (induction "leftOver st" arbitrary: n st s
    rule: wf_induct_rule [OF wf_lex_prod [OF wf_less_than wf_less_than]])
  case 1
  show ?case
  proof (cases "allDone st \<or> enabled st = []")
    case True with 1 show ?thesis by (auto simp: runPool_done)
  next
    case False
    obtain st1 s1 where one: "run_state (poolStep env ienv uuid b (pick sched n (enabled st)) st) s = (st1, s1)"
      by fastforce
    have c: "pick sched n (enabled st) \<in> set (enabled st)" using False by (simp add: pick_in)
    from 1(3) False one have rest: "runPool env ienv uuid b sched (Suc n) st1 s1 = (st', s')"
      by (simp add: runPool_next)
    from poolStep_progress [OF one c] step [OF 1(2) c one] rest show ?thesis by (rule 1(1))
  qed
qed

section \<open>The channels\<close>

text \<open>
  The discipline of the two channels: neither holds more than its buffer, the error channel holds an
  error only after the lister has ended its loop, and a channel is closed exactly when the lister
  has passed the corresponding \<open>close\<close>.
\<close>

definition channels_ok :: "search \<Rightarrow> bool" where
  "channels_ok st \<longleftrightarrow>
     length (pool st) = poolSize \<and> length (dcsChan st) \<le> dcBufferSize \<and> length (errChan st) \<le> 1 \<and>
     (errChan st \<noteq> [] \<longrightarrow> lister st \<in> {CloseErr, CloseDcs, Returned}) \<and>
     (errClosed st \<longleftrightarrow> lister st \<in> {CloseDcs, Returned}) \<and> (dcsClosed st \<longleftrightarrow> lister st = Returned)"

lemma channels_ok_start: "channels_ok (start as)"
  by (simp add: channels_ok_def start_def)

lemma channels_ok_listStep:
  assumes "run_state (listStep env ienv st) s = (st', s')" and "listerReady st" and "channels_ok st"
  shows "channels_ok st'"
proof (cases "lister st")
  case (NextVC as)
  with assms show ?thesis
    by (cases as) (auto simp: channels_ok_def listStep_def split: if_splits sum.splits prod.splits)
next
  case (Publish dcs as)
  with assms show ?thesis by (cases dcs) (auto simp: channels_ok_def listStep_def split: if_splits)
qed (use assms in \<open>auto simp: channels_ok_def listStep_def listerReady_def split: sum.splits prod.splits if_splits\<close>)

lemma channels_ok_update [simp]:
  "channels_ok (st\<lparr>pool := (pool st)[i := w]\<rparr>) = channels_ok st"
  "channels_ok (st\<lparr>poolErr := e\<rparr>) = channels_ok st"
  "channels_ok (st\<lparr>nodeVM := v\<rparr>) = channels_ok st"
  "channels_ok (st\<lparr>cancelled := True\<rparr>) = channels_ok st"
  by (simp_all add: channels_ok_def)

lemma channels_ok_recv:
  "channels_ok st \<Longrightarrow> errChan st = e # errs \<Longrightarrow> channels_ok (st\<lparr>errChan := errs\<rparr>)"
  "channels_ok st \<Longrightarrow> dcsChan st = dc # dcs \<Longrightarrow> channels_ok (st\<lparr>dcsChan := dcs\<rparr>)"
  by (auto simp: channels_ok_def)

lemma channels_ok_recvErr: "channels_ok st \<Longrightarrow> channels_ok (recvErr i st)"
proof (cases "errChan st")
  case (Cons e errs)
  assume "channels_ok st"
  then have "channels_ok (st\<lparr>errChan := errs\<rparr>)" using Cons by (rule channels_ok_recv)
  then show ?thesis by (simp add: recvErr_def Cons channels_ok_def)
qed (simp add: recvErr_def)

lemma channels_ok_recvDc: "channels_ok st \<Longrightarrow> channels_ok (recvDc i st)"
proof (cases "dcsChan st")
  case (Cons dc dcs)
  assume "channels_ok st"
  then have "channels_ok (st\<lparr>dcsChan := dcs\<rparr>)" using Cons by (rule channels_ok_recv)
  then show ?thesis by (simp add: recvDc_def Cons channels_ok_def)
qed (simp add: recvDc_def)

lemma channels_ok_searchStep:
  assumes "channels_ok st" and "run_state (searchStep ienv uuid b i st) s = (st', s')"
  shows "channels_ok st'"
proof -
  have "channels_ok (st\<lparr>nodeVM := v, cancelled := True, pool := (pool st)[i := Done]\<rparr>)"
    "channels_ok (st\<lparr>cancelled := True, poolErr := e, pool := (pool st)[i := Done]\<rparr>)" for v e
    using assms(1) by (simp_all add: channels_ok_def)
  then show ?thesis
    using assms by (auto simp: searchStep_def split: prod.splits sum.splits if_splits worker.splits)
qed

lemma channels_ok_poolStep:
  assumes "channels_ok st" and "c \<in> set (enabled st)" and "run_state (poolStep env ienv uuid b c st) s = (st', s')"
  shows "channels_ok st'"
proof (cases c)
  case List with assms show ?thesis by (auto simp: poolStep_def enabled_iff intro: channels_ok_listStep)
qed (use assms in \<open>auto simp: poolStep_def intro: channels_ok_recvErr channels_ok_recvDc channels_ok_searchStep\<close>)

text \<open>No goroutine survives a panic of the lister.\<close>

definition no_survivor :: "search \<Rightarrow> bool" where
  "no_survivor st \<longleftrightarrow> (\<forall>err. lister st = Panicked err \<longrightarrow> allDone st)"

lemma allDone_none_enabled: "allDone st \<Longrightarrow> \<not> listerReady st \<Longrightarrow> c \<notin> set (enabled st)"
  by (cases c) (auto simp: enabled_iff allDone_def list_all_length)

lemma no_survivor_listStep:
  assumes "run_state (listStep env ienv st) s = (st', s')" and "no_survivor st"
  shows "no_survivor st'"
  using assms
  by (auto simp: listStep_def no_survivor_def listerFails_def allDone_def list_all_iff
      split: lister.splits list.splits if_splits sum.splits prod.splits)

lemma no_survivor_poolStep:
  assumes "no_survivor st" and c: "c \<in> set (enabled st)" and step: "run_state (poolStep env ienv uuid b c st) s = (st', s')"
  shows "no_survivor st'"
proof (cases "c = List")
  case True with assms show ?thesis by (auto simp: poolStep_def intro: no_survivor_listStep)
next
  case False
  have "lister st \<noteq> Panicked err" for err
    using assms(1) c allDone_none_enabled [of st c] by (auto simp: no_survivor_def listerReady_def)
  moreover have "lister st' = lister st"
    using step False
    by (auto simp: poolStep_def recvErr_def recvDc_def searchStep_def
        split: choice.splits list.splits worker.splits prod.splits sum.splits if_splits)
  ultimately show ?thesis by (simp add: no_survivor_def)
qed

lemma not_stuck:
  assumes ok: "channels_ok st" "no_survivor st" and "\<not> allDone st"
  shows "enabled st \<noteq> []"
proof -
  from assms(3) obtain i where i: "i < length (pool st)" "pool st ! i \<noteq> Done"
    by (auto simp: allDone_def list_all_length)
  show ?thesis
  proof (cases "listerReady st")
    case True then show ?thesis by (simp add: enabled_def)
  next
    case blocked: False
    show ?thesis
    proof (cases "pool st ! i")
      case Selecting
      from blocked ok have "dcsChan st \<noteq> [] \<or> dcsClosed st"
        using assms(3)
        by (auto simp: listerReady_def channels_ok_def no_survivor_def dcBufferSize_def poolSize_def split: lister.splits)
      with i Selecting have "RecvDc i \<in> set (enabled st)" by (simp add: enabled_iff)
      then show ?thesis by auto
    next
      case (Searching dc)
      with i have "Search i \<in> set (enabled st)" by (simp add: enabled_iff)
      then show ?thesis by auto
    next
      case Done with i show ?thesis by simp
    qed
  qed
qed

section \<open>Where a result comes from\<close>

text \<open>
  A datacenter of one of the listed vCenters, a vCenter object whose session the datacenter uses, and
  a virtual machine vCenter reported in its datacenter.
\<close>

definition serves :: "nat \<Rightarrow> 'z driver_scheme \<Rightarrow> datacenter \<Rightarrow> bool" where
  "serves a s dc \<longleftrightarrow> (\<exists>vc. vcs s a = Some vc \<and> vc_Client vc = Some (dc_client dc) \<and>
     conf_Host (vc_Config vc) = dc_VirtualCenterHost dc)"

lemma serves_host: "serves a s dc \<Longrightarrow> host_is a (dc_VirtualCenterHost dc) s"
  by (auto simp: serves_def host_is_def)

definition listed_dc :: "nat list \<Rightarrow> 'z driver_scheme \<Rightarrow> datacenter \<Rightarrow> bool" where
  "listed_dc as s dc \<longleftrightarrow> (\<exists>a \<in> set as. host_is a (dc_VirtualCenterHost dc) s)"

definition reported :: "inventory_env \<Rightarrow> string \<Rightarrow> bool \<Rightarrow> virtual_machine \<Rightarrow> bool" where
  "reported ienv uuid b vm \<longleftrightarrow>
     vm_UUID vm = ToLower (TrimSpace uuid) \<and> vm_client vm = dc_client (vm_Datacenter vm) \<and>
     vm_VirtualCenterHost vm = dc_VirtualCenterHost (vm_Datacenter vm) \<and>
     (\<exists>h. ans_FindByUuid ienv (dc_client (vm_Datacenter vm)) (dc_ref (vm_Datacenter vm)) (vm_UUID vm) b h =
          Inr (Some (vm_ref vm)))"

fun listerVCs :: "lister \<Rightarrow> nat list" where
  "listerVCs (NextVC as) = as"
| "listerVCs (Fetch a as) = a # as"
| "listerVCs (Publish dcs as) = as"
| "listerVCs (Sending dc dcs as) = as"
| "listerVCs _ = []"

fun listerDcs :: "lister \<Rightarrow> datacenter list" where
  "listerDcs (Publish dcs as) = dcs"
| "listerDcs (Sending dc dcs as) = dc # dcs"
| "listerDcs _ = []"

fun workerDcs :: "worker \<Rightarrow> datacenter set" where
  "workerDcs (Searching dc) = {dc}"
| "workerDcs _ = {}"

definition dcs_in :: "search \<Rightarrow> datacenter set" where
  "dcs_in st = set (listerDcs (lister st)) \<union> set (dcsChan st) \<union> (\<Union>w \<in> set (pool st). workerDcs w)"

text \<open>All datacenters in flight are listed ones, and a found virtual machine was reported in one.\<close>

definition sound_search ::
  "inventory_env \<Rightarrow> string \<Rightarrow> bool \<Rightarrow> nat list \<Rightarrow> search \<Rightarrow> 'z driver_scheme \<Rightarrow> bool" where
  "sound_search ienv uuid b as st s \<longleftrightarrow>
     set (listerVCs (lister st)) \<subseteq> set as \<and> (\<forall>dc \<in> dcs_in st. listed_dc as s dc) \<and>
     (\<forall>vm. nodeVM st = Some vm \<longrightarrow> reported ienv uuid b vm \<and> listed_dc as s (vm_Datacenter vm))"

lemma listed_dc_keeps: "(\<And>a h. keeps (host_is a h) m) \<Longrightarrow> keeps (\<lambda>s. listed_dc as s dc) m"
  unfolding listed_dc_def by (rule keepsI) (blast dest: keepsD)

lemma listed_dc_run:
  assumes "run_state m s = (r, s')" and "\<And>a h. keeps (host_is a h) m" and "listed_dc as s dc"
  shows "listed_dc as s' dc"
  using keepsD [OF listed_dc_keeps assms(1)] assms(2,3) by blast

lemma host_is_clientOf: "keeps (host_is a h) (clientOf b)"
  unfolding clientOf_def by (intro keeps_bindE keeps_load_vc keeps_return)

lemma host_is_GetDatacenters: "keeps (host_is a h) (GetDatacenters ienv b)"
  unfolding GetDatacenters_def getDatacenters_def listDatacenters_def
  by (intro keeps_bindE keeps_load_vc keeps_if keeps_return keeps_case_prod keeps_mapE host_is_clientOf host_is_perform)

lemma host_is_dcGet: "keeps (host_is a h) (dcGetVirtualMachineByUUID ienv dc uuid b)"
  unfolding dcGetVirtualMachineByUUID_def Let_def by (intro keeps_bindE keeps_return host_is_perform)

text \<open>The datacenters of a vCenter carry its host and its session.\<close>

lemma mapE_run_all:
  assumes "\<And>x y s s'. run_state (f x) s = (Inr y, s') \<Longrightarrow> Q y"
  shows "run_state (mapE f xs) s = (Inr ys, s') \<Longrightarrow> \<forall>y \<in> set ys. Q y"
  by (induction xs arbitrary: s ys) (auto split: prod.splits sum.splits dest: assms)

lemma vcs_perform: "keeps (\<lambda>s. vcs s = x) (perform c answer)"
  by (rule keepsI) auto

lemma vcs_GetDatacenters: "keeps (\<lambda>s. vcs s = x) (GetDatacenters ienv a)"
  unfolding GetDatacenters_def getDatacenters_def listDatacenters_def clientOf_def
  by (intro keeps_bindE keeps_load_vc keeps_if keeps_return keeps_case_prod keeps_mapE vcs_perform)

lemma vcs_dcGet: "keeps (\<lambda>s. vcs s = x) (dcGetVirtualMachineByUUID ienv dc uuid b)"
  unfolding dcGetVirtualMachineByUUID_def Let_def by (intro keeps_bindE keeps_return vcs_perform)

lemma GetDatacenters_serves:
  assumes "run_state (GetDatacenters ienv a) s = (Inr dcs, s')" and "dc \<in> set dcs"
  shows "serves a s' dc"
proof -
  from assms(1) obtain vc where vc: "vcs s a = Some vc"
    by (auto simp: GetDatacenters_def load_vc_def split: option.splits)
  have same: "vcs s' = vcs s" using keepsD [OF vcs_GetDatacenters assms(1)] by simp
  have "\<forall>dc \<in> set dcs. dc_VirtualCenterHost dc = conf_Host (vc_Config vc) \<and> vc_Client vc = Some (dc_client dc)"
  proof (cases "conf_DatacenterPaths (vc_Config vc) = []")
    case True
    with assms(1) vc show ?thesis
      by (auto simp: GetDatacenters_def load_vc_def listDatacenters_def clientOf_def
          split: option.splits sum.splits)
  next
    case False
    with assms(1) vc obtain cl where cl: "vc_Client vc = Some cl" and run: "run_state (mapE (\<lambda>dcPath.
       bindE (perform (CallDatacenter cl dcPath) (ans_Datacenter ienv cl dcPath)) (\<lambda>dcObj.
       State_Monad.return (Inr
         \<lparr>dc_ref = dcObj, dc_client = cl, dc_VirtualCenterHost = conf_Host (vc_Config vc)\<rparr>)))
         (conf_DatacenterPaths (vc_Config vc))) s = (Inr dcs, s')"
      by (auto simp: GetDatacenters_def load_vc_def getDatacenters_def clientOf_def split: option.splits)
    show ?thesis
      by (rule mapE_run_all [OF _ run]) (auto simp: cl split: sum.splits)
  qed
  with same vc assms(2) show ?thesis by (auto simp: serves_def)
qed

lemma dcGet_reported:
  "run_state (dcGetVirtualMachineByUUID ienv dc uuid b) s = (Inr vm, s') \<Longrightarrow>
   reported ienv uuid b vm \<and> vm_Datacenter vm = dc"
  by (auto simp: dcGetVirtualMachineByUUID_def Let_def reported_def split: sum.splits option.splits)

lemma host_is_listStep: "keeps (host_is a h) (listStep env ienv st)"
  unfolding listStep_def
  by (auto split: lister.splits list.splits
      intro!: keeps_bind keeps_return keeps_if host_is_Connect host_is_GetDatacenters)

lemma host_is_poolStep: "keeps (host_is a h) (poolStep env ienv uuid b c st)"
  unfolding poolStep_def searchStep_def
  by (auto split: choice.splits worker.splits
      intro!: keeps_bind keeps_return host_is_listStep host_is_dcGet)

lemma sound_searchI:
  assumes old: "sound_search ienv uuid b as st s" and step: "run_state (poolStep env ienv uuid b c st) s = (st', s')"
    and vcs: "set (listerVCs (lister st')) \<subseteq> set (listerVCs (lister st))"
    and dcs: "\<And>dc. dc \<in> dcs_in st' \<Longrightarrow> dc \<in> dcs_in st \<or> listed_dc as s' dc"
    and vm: "\<And>vm. nodeVM st' = Some vm \<Longrightarrow> nodeVM st = Some vm \<or> reported ienv uuid b vm \<and> vm_Datacenter vm \<in> dcs_in st"
  shows "sound_search ienv uuid b as st' s'"
proof -
  have "listed_dc as s dc \<Longrightarrow> listed_dc as s' dc" for dc
    using step host_is_poolStep by (rule listed_dc_run)
  with old vcs dcs vm show ?thesis unfolding sound_search_def by blast
qed

lemma dcs_in_pool: "dcs_in (st\<lparr>pool := (pool st)[i := w]\<rparr>) \<subseteq> dcs_in st \<union> workerDcs w"
  using set_update_subset_insert [of "pool st" i w] by (fastforce simp: dcs_in_def)

lemma dcs_in_simps [simp]:
  "dcs_in (st\<lparr>poolErr := e\<rparr>) = dcs_in st" "dcs_in (st\<lparr>nodeVM := v\<rparr>) = dcs_in st"
  "dcs_in (st\<lparr>cancelled := x\<rparr>) = dcs_in st" "dcs_in (st\<lparr>errChan := es\<rparr>) = dcs_in st"
  "dcs_in (st\<lparr>errClosed := x\<rparr>) = dcs_in st" "dcs_in (st\<lparr>dcsClosed := x\<rparr>) = dcs_in st"
  by (simp_all add: dcs_in_def)

text \<open>
  What a step of the pool does to the datacenters in flight, the vCenters left and the result: new
  datacenters come only from the vCenter whose datacenters the lister has just fetched, and a virtual
  machine is found only in a datacenter in flight.
\<close>

lemma listStep_dcs:
  assumes "run_state (listStep env ienv st) s = (st', s')" and "dc \<in> dcs_in st'"
  shows "dc \<in> dcs_in st \<or> (\<exists>a. lister st = Fetch a (listerVCs (lister st')) \<and> serves a s' dc)"
proof (cases "lister st")
  case (Fetch a as')
  with assms show ?thesis
    by (auto simp: listStep_def dcs_in_def dest: GetDatacenters_serves split: prod.splits sum.splits if_splits)
next
  case (NextVC as')
  with assms show ?thesis
    by (cases as') (auto simp: listStep_def dcs_in_def split: prod.splits sum.splits if_splits)
next
  case (Publish dcs as')
  with assms show ?thesis by (cases dcs) (auto simp: listStep_def dcs_in_def split: if_splits)
qed (use assms in \<open>auto simp: listStep_def dcs_in_def\<close>)

lemma listStep_rest:
  assumes "run_state (listStep env ienv st) s = (st', s')"
  shows "set (listerVCs (lister st')) \<subseteq> set (listerVCs (lister st)) \<and>
    (distinct (listerVCs (lister st)) \<longrightarrow> distinct (listerVCs (lister st'))) \<and> nodeVM st' = nodeVM st"
proof (cases "lister st")
  case (NextVC as)
  with assms show ?thesis by (cases as) (auto simp: listStep_def split: prod.splits sum.splits if_splits)
next
  case (Publish dcs as')
  with assms show ?thesis by (cases dcs) (auto simp: listStep_def split: if_splits)
qed (use assms in \<open>auto simp: listStep_def split: prod.splits sum.splits if_splits\<close>)

lemma workerStep_dcs:
  assumes c: "c \<in> set (enabled st)" "c \<noteq> List" and step: "run_state (poolStep env ienv uuid b c st) s = (st', s')"
  shows "dcs_in st' \<subseteq> dcs_in st" and "lister st' = lister st" and "vcs s' = vcs s"
    and "nodeVM st' = Some vm \<Longrightarrow> nodeVM st = Some vm \<or> reported ienv uuid b vm \<and> vm_Datacenter vm \<in> dcs_in st"
proof -
  have search: "dcs_in st' \<subseteq> dcs_in st \<and> lister st' = lister st \<and> vcs s' = vcs s \<and>
    (nodeVM st' = Some vm \<longrightarrow> nodeVM st = Some vm \<or> reported ienv uuid b vm \<and> vm_Datacenter vm \<in> dcs_in st)"
  proof (cases c)
    case List with c show ?thesis by simp
  next
    case (RecvErr i)
    with step have "st' = recvErr i st" and "s' = s" by (simp_all add: poolStep_def)
    with dcs_in_pool [of "st\<lparr>errChan := tl (errChan st)\<rparr>" i Done]
      dcs_in_pool [of "st\<lparr>errChan := tl (errChan st), poolErr := Some (hd (errChan st))\<rparr>" i Done]
      dcs_in_pool [of st i Done]
    show ?thesis by (auto simp: recvErr_def split: list.splits if_splits)
  next
    case (RecvDc i)
    with step have st': "st' = recvDc i st" and s': "s' = s" by (simp_all add: poolStep_def)
    have "dcs_in st' \<subseteq> dcs_in st"
    proof (cases "dcsChan st")
      case Nil with st' dcs_in_pool [of st i Done] show ?thesis by (auto simp: recvDc_def)
    next
      case (Cons dc dcs)
      then have "insert dc (dcs_in (st\<lparr>dcsChan := dcs\<rparr>)) \<subseteq> dcs_in st" by (auto simp: dcs_in_def)
      with Cons st' dcs_in_pool [of "st\<lparr>dcsChan := dcs\<rparr>" i "Searching dc"] show ?thesis
        by (auto simp: recvDc_def)
    qed
    then show ?thesis by (auto simp: st' s' recvDc_def split: list.splits)
  next
    case (Search i)
    with c obtain dc where i: "i < length (pool st)" "pool st ! i = Searching dc" by (auto simp: enabled_iff)
    then have dc: "dc \<in> dcs_in st" using nth_mem [OF i(1)] by (force simp: dcs_in_def)
    obtain r t where get: "run_state (dcGetVirtualMachineByUUID ienv dc uuid b) s = (r, t)" by fastforce
    have "vcs t = vcs s" using keepsD [OF vcs_dcGet get] by simp
    with Search i get step dc dcs_in_pool [of "st\<lparr>cancelled := True, poolErr := _\<rparr>" i Done]
      dcs_in_pool [of "st\<lparr>nodeVM := _, cancelled := True\<rparr>" i Done] dcs_in_pool [of st i Selecting]
    show ?thesis
      by (auto simp: poolStep_def searchStep_def dest!: dcGet_reported split: sum.splits if_splits)
  qed
  show "dcs_in st' \<subseteq> dcs_in st" "lister st' = lister st" "vcs s' = vcs s" using search by auto
  show "nodeVM st' = Some vm \<Longrightarrow> nodeVM st = Some vm \<or> reported ienv uuid b vm \<and> vm_Datacenter vm \<in> dcs_in st"
    using search by auto
qed

lemma sound_search_step:
  assumes old: "sound_search ienv uuid b as st s" and c: "c \<in> set (enabled st)"
    and step: "run_state (poolStep env ienv uuid b c st) s = (st', s')"
  shows "sound_search ienv uuid b as st' s'"
proof (cases "c = List")
  case True
  with step have l: "run_state (listStep env ienv st) s = (st', s')" by (simp add: poolStep_def)
  from old have "set (listerVCs (lister st)) \<subseteq> set as" by (simp add: sound_search_def)
  then have "dc \<in> dcs_in st \<or> listed_dc as s' dc" if "dc \<in> dcs_in st'" for dc
    using listStep_dcs [OF l that] by (auto simp: listed_dc_def dest: serves_host)
  with listStep_rest [OF l] show ?thesis by (intro sound_searchI [OF old step]) auto
next
  case False
  from workerStep_dcs [OF c this step] show ?thesis by (intro sound_searchI [OF old step]) auto
qed

text \<open>
  Moreover, when no vCenter is listed twice, the session a datacenter in flight uses is the one its
  vCenter has now: the lister reconnects only to vCenters it has not listed yet.
\<close>

definition served :: "nat list \<Rightarrow> search \<Rightarrow> 'z driver_scheme \<Rightarrow> datacenter \<Rightarrow> bool" where
  "served as st s dc \<longleftrightarrow> (\<exists>a \<in> set as - set (listerVCs (lister st)). serves a s dc)"

definition fresh_search :: "nat list \<Rightarrow> search \<Rightarrow> 'z driver_scheme \<Rightarrow> bool" where
  "fresh_search as st s \<longleftrightarrow> distinct (listerVCs (lister st)) \<and> set (listerVCs (lister st)) \<subseteq> set as \<and>
     (\<forall>dc \<in> dcs_in st. served as st s dc) \<and> (\<forall>vm. nodeVM st = Some vm \<longrightarrow> served as st s (vm_Datacenter vm))"

lemma listStep_vcs:
  assumes "run_state (listStep env ienv st) s = (st', s')" and "a \<notin> set (listerVCs (lister st))"
  shows "vcs s' a = vcs s a"
proof (cases "lister st")
  case (NextVC as)
  with assms show ?thesis
    by (cases as) (auto simp: listStep_def dest: Connect_other split: prod.splits if_splits)
next
  case (Fetch c as)
  obtain r t where get: "run_state (GetDatacenters ienv c) s = (r, t)" by fastforce
  then have "vcs t = vcs s" using keepsD [OF vcs_GetDatacenters get] by simp
  with Fetch get assms show ?thesis by (auto simp: listStep_def)
next
  case (Publish dcs as)
  with assms show ?thesis by (cases dcs) (auto simp: listStep_def)
qed (use assms in \<open>auto simp: listStep_def\<close>)

lemma fresh_search_list:
  assumes old: "fresh_search as st s" and l: "run_state (listStep env ienv st) s = (st', s')"
  shows "fresh_search as st' s'"
proof -
  note rest = listStep_rest [OF l]
  have keep: "served as st' s' dc" if "served as st s dc" for dc
    using that rest listStep_vcs [OF l] by (force simp: served_def serves_def)
  have new: "served as st' s' dc" if "lister st = Fetch a (listerVCs (lister st'))" and "serves a s' dc" for a dc
    using that old by (auto simp: served_def fresh_search_def)
  from old keep new listStep_dcs [OF l] rest show ?thesis unfolding fresh_search_def by (metis subset_trans)
qed

lemma fresh_search_step:
  assumes old: "fresh_search as st s" and c: "c \<in> set (enabled st)"
    and step: "run_state (poolStep env ienv uuid b c st) s = (st', s')"
  shows "fresh_search as st' s'"
proof (cases "c = List")
  case True with step old show ?thesis by (auto simp: poolStep_def intro: fresh_search_list)
next
  case False
  note w = workerStep_dcs [OF c False step]
  have "served as st' s' = served as st s" using w(2,3) by (simp add: served_def serves_def fun_eq_iff)
  with old w(1,2,4) show ?thesis by (auto simp: fresh_search_def)
qed

section \<open>What a search keeps and calls\<close>

lemma keeps_search:
  assumes "\<And>c st. keeps I (poolStep env ienv uuid b c st)"
  shows "keeps I (GetVirtualMachineByUUID env ienv uuid b)"
proof (rule keepsI)
  fix s r s'
  assume "run_state (GetVirtualMachineByUUID env ienv uuid b) s = (r, s')" and I: "I s"
  then obtain st where run: "runPool env ienv uuid b (schedule ienv (trace s)) 0
      (start (map snd (virtualCenters s))) s = (st, s')"
    by (auto simp: GetVirtualMachineByUUID_def split: prod.splits)
  have "I s' \<and> (allDone st \<or> enabled st = [])"
    by (rule runPool_invariant [where I = "\<lambda>st s. I s", OF _ I run]) (rule keepsD [OF assms])
  then show "I s'" ..
qed

lemma keeps_poolStep:
  assumes "\<And>a. keeps I (Connect env a)" and "\<And>a. keeps I (GetDatacenters ienv a)"
    and "\<And>dc. keeps I (dcGetVirtualMachineByUUID ienv dc uuid b)"
  shows "keeps I (poolStep env ienv uuid b c st)"
  unfolding poolStep_def searchStep_def listStep_def
  by (auto split: choice.splits worker.splits lister.splits list.splits
      intro!: keeps_bind keeps_return keeps_if assms)

lemma steady_GetDatacenters: "steady I \<Longrightarrow> keeps I (GetDatacenters ienv a)"
  unfolding GetDatacenters_def getDatacenters_def listDatacenters_def clientOf_def
  by (intro keeps_bindE keeps_load_vc keeps_if keeps_return keeps_case_prod keeps_mapE steady_perform)

lemma steady_search: "steady I \<Longrightarrow> keeps I (GetVirtualMachineByUUID env ienv uuid b)"
  by (intro keeps_search keeps_poolStep steady_Connect steady_GetDatacenters)
     (auto simp: dcGetVirtualMachineByUUID_def Let_def intro!: keeps_bindE keeps_return steady_perform)

lemma emits_poolStep:
  "(\<And>c. \<not> cns_mutation c \<Longrightarrow> P c) \<Longrightarrow> emits P (poolStep env ienv uuid b c st)"
  unfolding poolStep_def searchStep_def listStep_def
  by (auto split: choice.splits worker.splits lister.splits list.splits intro!: emits_rules)

lemma emits_search [emits_rules]:
  assumes P: "\<And>c. \<not> cns_mutation c \<Longrightarrow> P c"
  shows "emits P (GetVirtualMachineByUUID env ienv uuid b)"
proof (rule emitsI)
  fix s r s'
  assume run: "run_state (GetVirtualMachineByUUID env ienv uuid b) s = (r, s')"
  have "keeps (\<lambda>t. \<exists>ks. trace t = trace s @ ks \<and> list_all P ks) (poolStep env ienv uuid b c st)" for c st
  proof (rule keepsI)
    fix t x t'
    assume step: "run_state (poolStep env ienv uuid b c st) t = (x, t')"
      and "\<exists>ks. trace t = trace s @ ks \<and> list_all P ks"
    moreover obtain ks' where "trace t' = trace t @ ks'" and "list_all P ks'"
      using emits_poolStep [OF P] step by (rule emitsE)
    ultimately show "\<exists>ks. trace t' = trace s @ ks \<and> list_all P ks" by auto
  qed
  from keepsD [OF keeps_search [OF this] run] show "\<exists>ks. trace s' = trace s @ ks \<and> list_all P ks" by simp
qed

lemma registry_ok_search: "keeps registry_ok (GetVirtualMachineByUUID env ienv uuid b)"
proof (rule registry_okI)
  show "keeps registry_wf (GetVirtualMachineByUUID env ienv uuid b)"
    by (rule keeps_search, rule keeps_poolStep)
       (auto simp: GetDatacenters_def getDatacenters_def listDatacenters_def clientOf_def dcGetVirtualMachineByUUID_def
         Let_def intro!: keeps_rules)
qed (rule steady_search [OF steady_registry], rule keeps_search, rule host_is_poolStep)

lemma search_reported:
  assumes "run_state (GetVirtualMachineByUUID env ienv uuid b) s = (Inr vm, s')"
  shows "reported ienv uuid b vm \<and>
    (\<exists>host a. (host, a) \<in> set (virtualCenters s) \<and> host_is a (vm_VirtualCenterHost vm) s')"
proof -
  let ?as = "map snd (virtualCenters s)"
  obtain st where run: "runPool env ienv uuid b (schedule ienv (trace s)) 0 (start ?as) s = (st, s')"
    and vm: "nodeVM st = Some vm"
    using assms by (auto simp: GetVirtualMachineByUUID_def dest: searchResult_Inr split: prod.splits)
  have init: "sound_search ienv uuid b ?as (start ?as) s"
    by (auto simp: sound_search_def start_def dcs_in_def)
  have "sound_search ienv uuid b ?as st s' \<and> (allDone st \<or> enabled st = [])"
    by (rule runPool_invariant [where I = "sound_search ienv uuid b ?as", OF _ init run]) (rule sound_search_step)
  with vm have "reported ienv uuid b vm" "listed_dc ?as s' (vm_Datacenter vm)"
    by (auto simp: sound_search_def)
  then show ?thesis by (force simp: listed_dc_def reported_def)
qed

text \<open>A virtual machine that is found uses the session its vCenter has when the search returns.\<close>

lemma search_current:
  assumes run: "run_state (GetVirtualMachineByUUID env ienv uuid b) s = (Inr vm, s')" and ok: "registry_ok s"
  shows "current_vm s' vm"
proof -
  let ?as = "map snd (virtualCenters s)"
  obtain st where pool: "runPool env ienv uuid b (schedule ienv (trace s)) 0 (start ?as) s = (st, s')"
    and vm: "nodeVM st = Some vm"
    using run by (auto simp: GetVirtualMachineByUUID_def dest: searchResult_Inr split: prod.splits)
  have init: "fresh_search ?as (start ?as) s"
    using ok by (auto simp: fresh_search_def start_def dcs_in_def registry_ok_def registry_wf_def)
  have "fresh_search ?as st s' \<and> (allDone st \<or> enabled st = [])"
    by (rule runPool_invariant [where I = "fresh_search ?as", OF _ init pool]) (rule fresh_search_step)
  with vm obtain h a where ha: "(h, a) \<in> set (virtualCenters s)" and a: "serves a s' (vm_Datacenter vm)"
    by (force simp: fresh_search_def served_def)
  have reg: "virtualCenters s' = virtualCenters s"
    using keepsD [OF steady_search [OF steady_registry] run] by simp
  have ok': "registry_ok s'" using keepsD [OF registry_ok_search run ok] .
  with ha reg have "host_is a h s'" by (auto simp: registry_ok_def)
  with a have h: "h = dc_VirtualCenterHost (vm_Datacenter vm)" by (auto simp: serves_def host_is_def)
  have "map_of (virtualCenters s') h = Some a"
    using ha ok' reg by (auto simp: registry_ok_def registry_wf_def)
  with a h search_reported [OF run] show ?thesis by (auto simp: current_vm_def serves_def reported_def)
qed

section \<open>Properties\<close>

text \<open>
  C15. The search for a virtual machine ends under every schedule of its nine goroutines, with all eight
  workers finished, so that \<open>wg.Wait\<close> returns (a panic of the lister ends the process and with it all
  workers); neither channel ever holds more than its buffer, and
  each is closed exactly once the lister has passed its \<open>close\<close>.\<close>

theorem search_ends:
  assumes "runPool env ienv uuid b sched 0 (start as) s = (st, s')"
  shows "allDone st \<and> channels_ok st"
proof -
  have init: "channels_ok (start as) \<and> no_survivor (start as)"
    using channels_ok_start [of as] by (simp add: no_survivor_def) (simp add: start_def)
  have "(channels_ok st \<and> no_survivor st) \<and> (allDone st \<or> enabled st = [])"
    by (rule runPool_invariant [where I = "\<lambda>st s. channels_ok st \<and> no_survivor st", OF _ init assms])
       (auto intro: channels_ok_poolStep no_survivor_poolStep)
  with not_stuck show ?thesis by blast
qed

text \<open>
  C27. A virtual machine the search returns is one that vCenter reported: it has the searched UUID in
  lower case without surrounding blanks, and some datacenter of a registered vCenter answered the
  UUID with its reference; the object carries that datacenter, its session and its host.\<close>

theorem search_sound:
  assumes "run_state (GetVirtualMachineByUUID env ienv uuid b) s = (Inr vm, s')"
  shows "reported ienv uuid b vm \<and>
    (\<exists>host a. (host, a) \<in> set (virtualCenters s) \<and> host_is a (vm_VirtualCenterHost vm) s')"
  using assms by (rule search_reported)

lemmas search_program_defs =
  start_def poolSize_def listerReady_def workerChoices_def enabled_def listStep_def recvErr_def
  recvDc_def searchStep_def poolStep_def allDone_def pick_def dcBufferSize_def searchResult_def

lemmas search_run = runPool_next runPool_done search_program_defs

lemma pool8: "replicate 8 x = [x, x, x, x, x, x, x, x]"
  by (simp add: eval_nat_numeral)

section \<open>A sample search\<close>

text \<open>The sample inventory under two schedules, and its datacenter.\<close>

definition sample_race :: "nat \<Rightarrow> inventory_env" where
  "sample_race k = sample_ienv\<lparr>schedule := \<lambda>_ _. k\<rparr>"

definition sample_dc :: "client \<Rightarrow> datacenter" where
  "sample_dc cl = \<lparr>dc_ref = ''dc1'', dc_client = cl, dc_VirtualCenterHost = ''vc1''\<rparr>"

lemma sample_race_answers:
  "ans_Datacenter (sample_race k) = (\<lambda>_ p _. Inr p)"
  "ans_FindByUuid (sample_race k) = (\<lambda>_ _ _ _ _. Inr (Some ''vm1''))"
  "schedule (sample_race k) = (\<lambda>_ _. k)"
  by (simp_all add: sample_race_def sample_ienv_answers)

lemma sample_Connect:
  assumes "vcs s 0 = Some sample_vc"
  shows "\<exists>s1 vc. run_state (Connect sample_env 0) s = (Inr (), s1) \<and> vcs s1 0 = Some vc \<and>
     vc_Client vc = Some (length (trace s)) \<and> conf_DatacenterPaths (vc_Config vc) = [''dc1''] \<and>
     conf_Host (vc_Config vc) = ''vc1''"
  using assms by (simp add: vc_program_defs sample_env_answers sample_vc_def sample_conf_def)

lemma sample_list:
  assumes "vcs s 0 = Some sample_vc"
  obtains s1 s2 where "run_state (Connect sample_env 0) s = (Inr (), s1)"
    and "run_state (GetDatacenters (sample_race k) 0) s1 = (Inr [sample_dc (length (trace s))], s2)"
  using sample_Connect [OF assms]
  by (force simp: GetDatacenters_def getDatacenters_def clientOf_def load_vc_def sample_race_answers sample_dc_def)

lemma sample_missed:
  assumes "vcs s 0 = Some sample_vc"
  shows "\<exists>st s'. runPool sample_env (sample_race 0) uuid False (\<lambda>_. 0) 0 (start [0]) s = (st, s') \<and>
     searchResult st = Inl ErrVMNotFound \<and> dcsChan st = [sample_dc (length (trace s))] \<and> allDone st"
proof -
  obtain s1 s2 where "run_state (Connect sample_env 0) s = (Inr (), s1)"
    and "run_state (GetDatacenters (sample_race 0) 0) s1 = (Inr [sample_dc (length (trace s))], s2)"
    using assms by (rule sample_list)
  then show ?thesis by (simp add: search_run pool8 upt_rec)
qed

lemma race_found:
  assumes "run_state (Connect env 0) s = (Inr (), s1)" and "run_state (GetDatacenters (sample_race 1) 0) s1 = (Inr [dc], s2)"
  shows "\<exists>st s' vm. runPool env (sample_race 1) uuid False (\<lambda>_. 1) 0 (start [0]) s = (st, s') \<and>
     searchResult st = Inr vm \<and> vm_ref vm = ''vm1'' \<and> vm_VirtualCenterHost vm = dc_VirtualCenterHost dc \<and> allDone st"
  using assms by (simp add: search_run pool8 upt_rec dcGetVirtualMachineByUUID_def sample_race_answers Let_def)

lemma sample_found:
  assumes "vcs s 0 = Some sample_vc"
  shows "\<exists>st s' vm. runPool sample_env (sample_race 1) uuid False (\<lambda>_. 1) 0 (start [0]) s = (st, s') \<and>
     searchResult st = Inr vm \<and> vm_ref vm = ''vm1'' \<and> allDone st"
  using sample_list [OF assms, of 1] race_found by metis

lemma sample_search:
  assumes "vcs s 0 = Some sample_vc" and "virtualCenters s = [(host, 0)]"
  shows "\<exists>vm s'. run_state (GetVirtualMachineByUUID sample_env (sample_race 1) uuid False) s = (Inr vm, s') \<and>
      vm_ref vm = ''vm1''"
    and "\<exists>s'. run_state (GetVirtualMachineByUUID sample_env (sample_race 0) uuid False) s = (Inl ErrVMNotFound, s')"
  using sample_found [OF assms(1), of uuid] sample_missed [OF assms(1), of uuid]
  by (auto simp: GetVirtualMachineByUUID_def sample_race_answers assms(2))

lemma sample_driver_vc: "vcs sample_driver 0 = Some sample_vc"
  by (simp add: sample_driver_sel)

text \<open>
  C39. The result of the search depends on the interleaving. Every datacenter answers the UUID with a
  virtual machine; under one schedule the search returns it, under another it returns
  \<open>ErrVMNotFound\<close>: the lister closes \<open>errChan\<close> while datacenters are still in the buffer of \<open>dcsChan\<close>,
  and each worker takes the closed error channel for the end of the search.\<close>

theorem search_misses:
  "(\<forall>k cl dc u b h. ans_FindByUuid (sample_race k) cl dc u b h = Inr (Some ''vm1'')) \<and>
   (\<exists>vm. fst (run_state (GetVirtualMachineByUUID sample_env (sample_race 1) ''4a'' False) sample_driver) = Inr vm \<and>
         vm_ref vm = ''vm1'') \<and>
   fst (run_state (GetVirtualMachineByUUID sample_env (sample_race 0) ''4a'' False) sample_driver) = Inl ErrVMNotFound"
  using sample_search [OF sample_driver_vc sample_driver_sel(1), of "''4a''"]
  by (auto simp: sample_race_answers)

theorem search_ends_witness:
  "\<exists>st s'. runPool sample_env (sample_race 0) ''4a'' False (\<lambda>_. 0) 0 (start [0]) sample_driver = (st, s') \<and>
     dcsChan st = [sample_dc 0] \<and> allDone st \<and> channels_ok st"
  using sample_missed [OF sample_driver_vc, of "''4a''"]
    search_ends [of sample_env "sample_race 0" "''4a''" False "\<lambda>_. 0" "[0]" sample_driver]
  by (auto simp: sample_driver_sel)

theorem search_sound_witness:
  "\<exists>vm s'. run_state (GetVirtualMachineByUUID sample_env (sample_race 1) ''4a'' False) sample_driver = (Inr vm, s') \<and>
     reported (sample_race 1) ''4a'' False vm"
proof -
  obtain vm s' where "run_state (GetVirtualMachineByUUID sample_env (sample_race 1) ''4a'' False) sample_driver = (Inr vm, s')"
    using sample_search(1) [OF sample_driver_vc sample_driver_sel(1), of "''4a''"] by blast
  with search_sound [OF this] show ?thesis by blast
qed

end
