(* ===== verification/Csi_Common.thy ===== *)
theory Csi_Common
  imports External "HOL-Library.Signed_Division"
begin

text \<open>
  \<open>pkg/csi/service/common\<close>: the CSI requests, their validation (\<open>common_controller_helper.go\<close>), and the
  pure helpers of \<open>util.go\<close> and \<open>constants.go\<close>; with \<open>controller_helper.go\<close> of \<open>pkg/csi/service/cns\<close>.

  A Go \<open>int64\<close> is an \<open>int\<close>; \<open>wrap64\<close> writes out the wrap-around of its arithmetic, and \<open>sdiv\<close> and \<open>smod\<close>
  truncate towards zero like Go's \<open>/\<close> and \<open>%\<close>. Request parameters are the list of the map's entries
  in iteration order.
\<close>

section \<open>Requests\<close>

datatype access_mode =
    UNKNOWN | SINGLE_NODE_WRITER | SINGLE_NODE_READER_ONLY | MULTI_NODE_READER_ONLY
  | MULTI_NODE_SINGLE_WRITER | MULTI_NODE_MULTI_WRITER

datatype access_type = BlockAccess | MountAccess (FsType: string) (MountFlags: "string list")

record volume_capability =
  AccessMode :: "access_mode option"
  AccessType :: "access_type option"

text \<open>The nil-safe getter \<open>GetMode\<close>.\<close>

definition GetMode :: "access_mode option \<Rightarrow> access_mode" where
  "GetMode m = (case m of None \<Rightarrow> UNKNOWN | Some mode \<Rightarrow> mode)"

type_synonym topology = "(string \<times> string) list"

text \<open>\<open>None\<close> is the nil slice.\<close>

record topology_requirement =
  Requisite :: "topology list option"
  Preferred :: "topology list option"

record create_volume_request =
  Name :: string
  RequiredBytes :: "int option"  \<comment> \<open>\<open>None\<close>: no capacity range\<close>
  VolumeCapabilities :: "volume_capability list"
  Parameters :: "(string \<times> string) list"
  AccessibilityRequirements :: "topology_requirement option"

record publish_volume_request =
  publish_VolumeId :: string
  publish_NodeId :: string
  publish_VolumeCapability :: "volume_capability option"

section \<open>Constants and helpers\<close>

definition MbInBytes :: int where "MbInBytes = 1024 * 1024"
definition GbInBytes :: int where "GbInBytes = 1024 * 1024 * 1024"
definition DefaultGbDiskSize :: int where "DefaultGbDiskSize = 10"
definition DiskTypeString :: string where "DiskTypeString = ''vSphere CNS Block Volume''"
definition AttributeDiskType :: string where "AttributeDiskType = ''type''"
definition AttributeDatastoreURL :: string where "AttributeDatastoreURL = ''datastoreurl''"
definition AttributeStoragePolicyName :: string where "AttributeStoragePolicyName = ''storagepolicyname''"
definition AttributeFsType :: string where "AttributeFsType = ''fstype''"
definition DefaultFsType :: string where "DefaultFsType = ''ext4''"
definition ProviderPrefix :: string where "ProviderPrefix = ''vsphere://''"
definition AttributeFirstClassDiskUUID :: string where "AttributeFirstClassDiskUUID = ''diskUUID''"
definition MinSupportedVCenterMajor :: int where "MinSupportedVCenterMajor = 6"
definition MinSupportedVCenterMinor :: int where "MinSupportedVCenterMinor = 7"
definition MinSupportedVCenterPatch :: int where "MinSupportedVCenterPatch = 3"

lemmas attribute_defs =
  AttributeDiskType_def AttributeDatastoreURL_def AttributeStoragePolicyName_def AttributeFsType_def
  AttributeFirstClassDiskUUID_def

text \<open>The value of a key in a Go \<open>map[string]string\<close>, empty when the key is missing.\<close>

definition segment :: "(string \<times> string) list \<Rightarrow> string \<Rightarrow> string" where
  "segment m k = (case map_of m k of None \<Rightarrow> [] | Some v \<Rightarrow> v)"

definition wrap64 :: "int \<Rightarrow> int" where
  "wrap64 x = (x + 2 ^ 63) mod 2 ^ 64 - 2 ^ 63"

definition GetUUIDFromProviderID :: "string \<Rightarrow> string" where
  "GetUUIDFromProviderID providerID = TrimPrefix providerID ProviderPrefix"

definition FormatDiskUUID :: "string \<Rightarrow> string" where
  "FormatDiskUUID uuid =
     (let uuidwithNoSpace = RemoveAll uuid (CHR '' '');
          uuidWithNoHypens = RemoveAll uuidwithNoSpace (CHR ''-'')
      in ToLower uuidWithNoHypens)"

definition RoundUpSize :: "int \<Rightarrow> int \<Rightarrow> error + int" where
  "RoundUpSize volumeSizeBytes allocationUnitBytes =
     (if allocationUnitBytes = 0 then Inl (Panic ''integer divide by zero'')
      else let roundedUp = wrap64 (volumeSizeBytes sdiv allocationUnitBytes)
           in Inr (if volumeSizeBytes smod allocationUnitBytes > 0 then wrap64 (roundedUp + 1) else roundedUp))"

definition VolumeCaps :: "access_mode list" where
  "VolumeCaps = [SINGLE_NODE_WRITER]"

definition IsValidVolumeCapabilities :: "volume_capability list \<Rightarrow> bool" where
  "IsValidVolumeCapabilities volCaps =
     list_all (\<lambda>cap. list_ex (\<lambda>c. c = GetMode (AccessMode cap)) VolumeCaps) volCaps"

section \<open>Validation\<close>

definition ValidateCreateVolumeRequest :: "create_volume_request \<Rightarrow> error + unit" where
  "ValidateCreateVolumeRequest req =
     (if Name req = [] then Inl (Status InvalidArgument ''Volume name is a required parameter.'')
      else if VolumeCapabilities req = [] then Inl (Status InvalidArgument ''Volume capabilities not provided'')
      else if \<not> IsValidVolumeCapabilities (VolumeCapabilities req)
      then Inl (Status InvalidArgument ''Volume capabilities not supported'')
      else Inr ())"

definition ValidateDeleteVolumeRequest :: "string \<Rightarrow> error + unit" where
  "ValidateDeleteVolumeRequest VolumeId =
     (if VolumeId = [] then Inl (Status InvalidArgument ''Volume ID is a required parameter.'') else Inr ())"

definition ValidateControllerPublishVolumeRequest :: "publish_volume_request \<Rightarrow> error + unit" where
  "ValidateControllerPublishVolumeRequest req =
     (if publish_VolumeId req = [] then Inl (Status InvalidArgument ''Volume ID is a required parameter.'')
      else if publish_NodeId req = [] then Inl (Status InvalidArgument ''Node ID is a required parameter.'')
      else case publish_VolumeCapability req of
        None \<Rightarrow> Inl (Status InvalidArgument ''Volume capability not provided'')
      | Some volCap \<Rightarrow>
          if \<not> IsValidVolumeCapabilities [volCap]
          then Inl (Status InvalidArgument ''Volume capability not supported'') else Inr ())"

definition ValidateControllerUnpublishVolumeRequest :: "string \<Rightarrow> string \<Rightarrow> error + unit" where
  "ValidateControllerUnpublishVolumeRequest VolumeId NodeId =
     (if VolumeId = [] then Inl (Status InvalidArgument ''Volume ID is a required parameter.'')
      else if NodeId = [] then Inl (Status InvalidArgument ''Node ID is a required parameter.'')
      else Inr ())"

definition CheckAPI :: "string \<Rightarrow> error + unit" where
  "CheckAPI version =
     (let items = Split version (CHR ''.'') in
      if length items < 2 \<or> length items > 3 then Inl (Errorf ''Invalid API Version format'')
      else case Atoi (items ! 0) of
        None \<Rightarrow> Inl (Errorf ''Invalid Major Version value'')
      | Some major \<Rightarrow>
          (case Atoi (items ! 1) of
             None \<Rightarrow> Inl (Errorf ''Invalid Minor Version value'')
           | Some minor \<Rightarrow>
               if major < MinSupportedVCenterMajor \<or>
                  major = MinSupportedVCenterMajor \<and> minor < MinSupportedVCenterMinor
               then Inl (Errorf ''The minimum supported vCenter is 6.7.3'')
               else if major = MinSupportedVCenterMajor \<and> minor = MinSupportedVCenterMinor \<and> length items = 3
               then (case Atoi (items ! 2) of
                       None \<Rightarrow> Inl (Errorf ''Invalid patch version value'')
                     | Some patch \<Rightarrow>
                         if patch < MinSupportedVCenterPatch then Inl (Errorf ''Invalid patch version value'')
                         else Inr ())
               else Inr ()))"

definition validateVanillaCreateVolumeRequest :: "create_volume_request \<Rightarrow> error + unit" where
  "validateVanillaCreateVolumeRequest req =
     (if list_ex (\<lambda>(paramName, _). ToLower paramName \<notin>
           {AttributeDatastoreURL, AttributeStoragePolicyName, AttributeFsType}) (Parameters req)
      then Inl (Status InvalidArgument ''Volume parameter %s is not a valid Vanilla CSI parameter.'')
      else ValidateCreateVolumeRequest req)"

definition validateVanillaDeleteVolumeRequest :: "string \<Rightarrow> error + unit" where
  "validateVanillaDeleteVolumeRequest VolumeId = ValidateDeleteVolumeRequest VolumeId"

definition validateVanillaControllerPublishVolumeRequest :: "publish_volume_request \<Rightarrow> error + unit" where
  "validateVanillaControllerPublishVolumeRequest req = ValidateControllerPublishVolumeRequest req"

definition validateVanillaControllerUnpublishVolumeRequest :: "string \<Rightarrow> string \<Rightarrow> error + unit" where
  "validateVanillaControllerUnpublishVolumeRequest VolumeId NodeId =
     ValidateControllerUnpublishVolumeRequest VolumeId NodeId"

section \<open>Lemmas on the helpers\<close>

lemma wrap64_id: "- (2 ^ 63) \<le> x \<Longrightarrow> x < 2 ^ 63 \<Longrightarrow> wrap64 x = x"
  by (simp add: wrap64_def)

lemma wrap64_range: "- (2 ^ 63) \<le> wrap64 x \<and> wrap64 x < 2 ^ 63"
  by (simp add: wrap64_def)

lemma set_RemoveAll: "set (RemoveAll s c) = set s - {c}"
  by (auto simp: RemoveAll_def)

lemma RemoveAll_idem: "c \<notin> set s \<Longrightarrow> RemoveAll s c = s"
  by (auto simp: RemoveAll_def filter_id_conv)

lemma ToLower_char_keeps: "ToLower_char c = CHR '' '' \<longleftrightarrow> c = CHR '' ''" "ToLower_char c = CHR ''-'' \<longleftrightarrow> c = CHR ''-''"
proof -
  have low: "of_char (ToLower_char c) = (n :: nat) \<longleftrightarrow> of_char c = n" if "n < 65" for n
    using that by (auto simp: of_char_ToLower_char Let_def)
  have chr: "d = e \<longleftrightarrow> (of_char d :: nat) = of_char e" for d e :: char by (simp add: of_char_eq_iff)
  show "ToLower_char c = CHR '' '' \<longleftrightarrow> c = CHR '' ''"
    unfolding chr [of _ "CHR '' ''"] by (rule low) simp
  show "ToLower_char c = CHR ''-'' \<longleftrightarrow> c = CHR ''-''"
    unfolding chr [of _ "CHR ''-''"] by (rule low) simp
qed

lemma ToLower_absent:
  assumes "\<And>d. ToLower_char d = c \<Longrightarrow> d = c" and "c \<notin> set s"
  shows "c \<notin> set (ToLower s)"
  unfolding ToLower_def set_map using assms by (metis imageE)

lemma FormatDiskUUID_chars: "CHR '' '' \<notin> set (FormatDiskUUID u)" "CHR ''-'' \<notin> set (FormatDiskUUID u)"
  unfolding FormatDiskUUID_def Let_def
  by (rule ToLower_absent, simp only: ToLower_char_keeps, simp only: set_RemoveAll, blast)+

lemma FormatDiskUUID_idem: "FormatDiskUUID (FormatDiskUUID u) = FormatDiskUUID u"
proof -
  have "RemoveAll (RemoveAll (FormatDiskUUID u) (CHR '' '')) (CHR ''-'') = FormatDiskUUID u"
    by (simp only: RemoveAll_idem FormatDiskUUID_chars not_False_eq_True)
  moreover have "ToLower (FormatDiskUUID u) = FormatDiskUUID u" by (simp add: FormatDiskUUID_def Let_def)
  ultimately show ?thesis by (subst FormatDiskUUID_def) (simp add: Let_def)
qed

lemma sdiv_smod_nonneg:
  "0 \<le> (x :: int) \<Longrightarrow> 0 < y \<Longrightarrow> x sdiv y = x div y" "0 \<le> (x :: int) \<Longrightarrow> 0 < y \<Longrightarrow> x smod y = x mod y"
proof -
  show q: "0 \<le> (x :: int) \<Longrightarrow> 0 < y \<Longrightarrow> x sdiv y = x div y"
    by (cases "x = 0") (auto simp: signed_divide_int_def)
  show "0 \<le> (x :: int) \<Longrightarrow> 0 < y \<Longrightarrow> x smod y = x mod y"
    by (cases "x = 0") (auto simp: signed_modulo_int_def signed_divide_int_def minus_div_mult_eq_mod)
qed

text \<open>A size of zero or more bytes is rounded up to whole mebibytes, by less than one.\<close>

lemma RoundUpSize_Mb:
  assumes "0 \<le> bytes" and "bytes < 2 ^ 63"
  obtains m where "RoundUpSize bytes MbInBytes = Inr m" and "0 \<le> m" and "m \<le> 2 ^ 43"
    and "bytes \<le> m * MbInBytes" and "m * MbInBytes < bytes + MbInBytes"
proof -
  define m where "m = (if bytes mod 1048576 > 0 then bytes div 1048576 + 1 else bytes div 1048576)"
  have d: "0 \<le> bytes div 1048576" "bytes div 1048576 < 2 ^ 43" using assms by auto
  have "RoundUpSize bytes MbInBytes = Inr m"
    using assms d by (simp add: RoundUpSize_def MbInBytes_def sdiv_smod_nonneg Let_def wrap64_id m_def)
  moreover have "0 \<le> m \<and> m \<le> 2 ^ 43 \<and> bytes \<le> m * MbInBytes \<and> m * MbInBytes < bytes + MbInBytes"
    using d unfolding m_def MbInBytes_def by (auto, presburger+)
  ultimately show ?thesis using that by blast
qed

section \<open>Properties\<close>

text \<open>
  Which vCenter versions \<open>CheckAPI\<close> accepts: a major and a minor number, with or without a third
  component, above 6.7, or 6.7 itself with no third component, or with a third component that is a
  number of at least 3. So "6.7" passes although the error text calls 6.7.3 the minimum.\<close>

lemma CheckAPI_accepts:
  "CheckAPI version = Inr () \<longleftrightarrow>
     (\<exists>major minor rest ma mi. Split version (CHR ''.'') = major # minor # rest \<and> length rest \<le> 1 \<and>
        Atoi major = Some ma \<and> Atoi minor = Some mi \<and>
        (6 < ma \<or> ma = 6 \<and> 7 < mi \<or>
         ma = 6 \<and> mi = 7 \<and> (rest = [] \<or> (\<exists>patch p. rest = [patch] \<and> Atoi patch = Some p \<and> 3 \<le> p))))"
    (is "_ \<longleftrightarrow> ?spec")
proof -
  consider (short) "length (Split version (CHR ''.'')) < 2"
    | (two) major minor where "Split version (CHR ''.'') = [major, minor]"
    | (three) major minor patch where "Split version (CHR ''.'') = [major, minor, patch]"
    | (long) "length (Split version (CHR ''.'')) > 3"
  proof (cases "Split version (CHR ''.'')" rule: remdups_adj.cases)
    case (3 x y xs)
    then show ?thesis using that by (cases xs rule: remdups_adj.cases) auto
  qed (use that in auto)
  then show ?thesis
  proof cases
    case short then show ?thesis by (auto simp: CheckAPI_def)
  next
    case two
    then show ?thesis
      by (auto simp: CheckAPI_def MinSupportedVCenterMajor_def MinSupportedVCenterMinor_def Let_def
          split: option.splits if_splits)
  next
    case three
    then show ?thesis
      by (auto simp: CheckAPI_def MinSupportedVCenterMajor_def MinSupportedVCenterMinor_def
          MinSupportedVCenterPatch_def Let_def split: option.splits if_splits)
  next
    case long then show ?thesis by (auto simp: CheckAPI_def)
  qed
qed

end
