(* ===== verification/Node_Manager.thy ===== *)
theory Node_Manager
  imports VM_Search Volume_Manager Csi_Common
begin

text \<open>
  \<open>pkg/common/cns-lib/node/manager.go\<close> and \<open>GetNodeVMUUID\<close> of \<open>pkg/kubernetes/kubernetes.go\<close>: the registry
  of Kubernetes nodes and their virtual machines. The two \<open>sync.Map\<close>s are lists of entries in iteration
  order; \<open>k8sClient\<close> tells whether a Kubernetes client has been set. A virtual machine is renewed in
  place: the renewed object replaces the entry.
\<close>

section \<open>Operations\<close>

record nodes = csi +
  nodeVMs :: "(string \<times> virtual_machine) list"
  nodeNameToUUID :: "(string \<times> string) list"
  k8sClient :: bool

type_synonym ('z, 'a) nodesE = "('z nodes_scheme, error + 'a) state"

definition SetKubernetesClient :: "bool \<Rightarrow> ('z nodes_scheme, unit) state" where
  "SetKubernetesClient client = assign (\<lambda>s. s\<lparr>k8sClient := client\<rparr>)"

definition GetNodeVMUUID :: "k8s_env \<Rightarrow> string \<Rightarrow> ('z, string) nodesE" where
  "GetNodeVMUUID kenv nodeName = do {
     s \<leftarrow> State_Monad.get;
     if \<not> k8sClient s then State_Monad.return (Inl (Panic ''nil clientset.Interface''))
     else bindE (perform (CallGetNode nodeName) (ans_GetNode kenv nodeName)) (\<lambda>providerID.
          State_Monad.return (Inr (GetUUIDFromProviderID providerID)))
   }"

text \<open>\<open>sync.Map.Store\<close> and \<open>sync.Map.Delete\<close> on the two maps.\<close>

definition storeVM :: "string \<Rightarrow> virtual_machine \<Rightarrow> ('z nodes_scheme, unit) state" where
  "storeVM nodeUUID vm = assign (\<lambda>s. s\<lparr>nodeVMs := AList.update nodeUUID vm (nodeVMs s)\<rparr>)"

definition storeName :: "string \<Rightarrow> string \<Rightarrow> ('z nodes_scheme, unit) state" where
  "storeName nodeName nodeUUID =
     assign (\<lambda>s. s\<lparr>nodeNameToUUID := AList.update nodeName nodeUUID (nodeNameToUUID s)\<rparr>)"

definition DiscoverNode :: "env \<Rightarrow> inventory_env \<Rightarrow> string \<Rightarrow> ('z, unit) nodesE" where
  "DiscoverNode env ienv nodeUUID =
     bindE (GetVirtualMachineByUUID env ienv nodeUUID False) (\<lambda>vm. do {
       storeVM nodeUUID vm;
       State_Monad.return (Inr ())
     })"

definition RegisterNode :: "env \<Rightarrow> inventory_env \<Rightarrow> string \<Rightarrow> string \<Rightarrow> ('z, unit) nodesE" where
  "RegisterNode env ienv nodeUUID nodeName = do {
     storeName nodeName nodeUUID;
     DiscoverNode env ienv nodeUUID
   }"

definition GetNode :: "env \<Rightarrow> inventory_env \<Rightarrow> string \<Rightarrow> ('z, virtual_machine) nodesE" where
  "GetNode env ienv nodeUUID = do {
     s \<leftarrow> State_Monad.get;
     case map_of (nodeVMs s) nodeUUID of
       None \<Rightarrow>
         bindE (DiscoverNode env ienv nodeUUID) (\<lambda>_. do {
           s \<leftarrow> State_Monad.get;
           State_Monad.return (case map_of (nodeVMs s) nodeUUID of
             None \<Rightarrow> Inl (Panic ''interface conversion: nil'') | Some vm \<Rightarrow> Inr vm)
         })
     | Some vm \<Rightarrow>
         bindE (Renew env vm True) (\<lambda>vm'. do {
           storeVM nodeUUID vm';
           State_Monad.return (Inr vm')
         })
   }"

definition GetNodeByName :: "env \<Rightarrow> inventory_env \<Rightarrow> k8s_env \<Rightarrow> string \<Rightarrow> ('z, virtual_machine) nodesE" where
  "GetNodeByName env ienv kenv nodeName = do {
     s \<leftarrow> State_Monad.get;
     case map_of (nodeNameToUUID s) nodeName of
       None \<Rightarrow> State_Monad.return (Inl ErrNodeNotFound)
     | Some nodeUUID \<Rightarrow>
         if nodeUUID \<noteq> [] then GetNode env ienv nodeUUID
         else bindE (GetNodeVMUUID kenv nodeName) (\<lambda>k8snodeUUID. do {
                storeName nodeName k8snodeUUID;
                GetNode env ienv k8snodeUUID
              })
   }"

text \<open>
  The two loops of \<open>GetAllNodes\<close>. The first asks Kubernetes for the UUID of nodes registered without
  one; an error is only logged, and the loop stops after the first node it could complete.
\<close>

fun completeNames :: "k8s_env \<Rightarrow> (string \<times> string) list \<Rightarrow> ('z, unit) nodesE" where
  "completeNames kenv [] = State_Monad.return (Inr ())"
| "completeNames kenv ((nodeName, nodeUUID) # entries) =
     (if nodeUUID = []
      then handle (GetNodeVMUUID kenv nodeName)
             (\<lambda>err. completeNames kenv entries)
             (\<lambda>k8snodeUUID.
               if k8snodeUUID = [] then completeNames kenv entries
               else do { storeName nodeName k8snodeUUID; State_Monad.return (Inr ()) })
      else completeNames kenv entries)"

fun renewNodes :: "env \<Rightarrow> string list \<Rightarrow> (string \<times> virtual_machine) list \<Rightarrow> ('z, virtual_machine list) nodesE" where
  "renewNodes env reconnectedHosts [] = State_Monad.return (Inr [])"
| "renewNodes env reconnectedHosts ((nodeUUID, vm) # entries) =
     bindE (Renew env vm (vm_VirtualCenterHost vm \<notin> set reconnectedHosts)) (\<lambda>vm'. do {
       storeVM nodeUUID vm';
       bindE (renewNodes env (vm_VirtualCenterHost vm # reconnectedHosts) entries) (\<lambda>vms.
         State_Monad.return (Inr (vm' # vms)))
     })"

definition GetAllNodes :: "env \<Rightarrow> k8s_env \<Rightarrow> ('z, virtual_machine list) nodesE" where
  "GetAllNodes env kenv = do {
     s \<leftarrow> State_Monad.get;
     bindE (completeNames kenv (nodeNameToUUID s)) (\<lambda>_. do {
       s \<leftarrow> State_Monad.get;
       renewNodes env [] (nodeVMs s)
     })
   }"

definition UnregisterNode :: "string \<Rightarrow> ('z, unit) nodesE" where
  "UnregisterNode nodeName = do {
     s \<leftarrow> State_Monad.get;
     case map_of (nodeNameToUUID s) nodeName of
       None \<Rightarrow> State_Monad.return (Inl ErrNodeNotFound)
     | Some nodeUUID \<Rightarrow> do {
         assign (\<lambda>s. s\<lparr>nodeNameToUUID := AList.delete nodeName (nodeNameToUUID s),
                       nodeVMs := AList.delete nodeUUID (nodeVMs s)\<rparr>);
         State_Monad.return (Inr ())
       }
   }"

lemmas node_manager_defs =
  GetNodeVMUUID_def storeVM_def storeName_def DiscoverNode_def RegisterNode_def GetNode_def
  GetNodeByName_def GetAllNodes_def UnregisterNode_def

section \<open>Calls\<close>

lemma emits_storeVM [emits_rules]: "emits P (storeVM u vm)"
  unfolding storeVM_def by (intro emits_rules) simp

lemma emits_storeName [emits_rules]: "emits P (storeName n u)"
  unfolding storeName_def by (intro emits_rules) simp

lemma emits_GetNodeVMUUID [emits_rules]:
  "(\<And>c. \<not> cns_mutation c \<Longrightarrow> P c) \<Longrightarrow> emits P (GetNodeVMUUID kenv n)"
  unfolding GetNodeVMUUID_def by (intro emits_rules | simp)+

lemma emits_DiscoverNode [emits_rules]:
  "(\<And>c. \<not> cns_mutation c \<Longrightarrow> P c) \<Longrightarrow> emits P (DiscoverNode env ienv u)"
  unfolding DiscoverNode_def by (intro emits_rules | simp)+

lemma emits_GetNode [emits_rules]:
  "(\<And>c. \<not> cns_mutation c \<Longrightarrow> P c) \<Longrightarrow> emits P (GetNode env ienv u)"
  unfolding GetNode_def by (intro emits_rules | simp)+

lemma emits_GetNodeByName [emits_rules]:
  "(\<And>c. \<not> cns_mutation c \<Longrightarrow> P c) \<Longrightarrow> emits P (GetNodeByName env ienv kenv n)"
  unfolding GetNodeByName_def by (intro emits_rules | simp)+

lemma emits_completeNames [emits_rules]:
  "(\<And>c. \<not> cns_mutation c \<Longrightarrow> P c) \<Longrightarrow> emits P (completeNames kenv entries)"
  by (induction entries) (auto intro!: emits_rules)

lemma emits_renewNodes [emits_rules]:
  "(\<And>c. \<not> cns_mutation c \<Longrightarrow> P c) \<Longrightarrow> emits P (renewNodes env hosts entries)"
  by (induction entries arbitrary: hosts) (auto intro!: emits_rules)

lemma emits_GetAllNodes [emits_rules]:
  "(\<And>c. \<not> cns_mutation c \<Longrightarrow> P c) \<Longrightarrow> emits P (GetAllNodes env kenv)"
  unfolding GetAllNodes_def by (intro emits_rules | simp)+

section \<open>The invariant\<close>

text \<open>
  Every entry holds the virtual machine its UUID was looked up with, and no key has two entries.
\<close>

definition nodes_inv :: "'z nodes_scheme \<Rightarrow> bool" where
  "nodes_inv s \<longleftrightarrow> distinct (map fst (nodeVMs s)) \<and> distinct (map fst (nodeNameToUUID s)) \<and>
     list_all (\<lambda>(nodeUUID, vm). vm_UUID vm = ToLower (TrimSpace nodeUUID)) (nodeVMs s)"

lemma steady_nodes:
  "(\<And>s :: 'z nodes_scheme. I s = J (nodeVMs s, nodeNameToUUID s, k8sClient s, managerInstance s)) \<Longrightarrow> steady I"
  by (rule steadyI) simp_all

lemma steady_nodes_inv: "steady nodes_inv"
  by (rule steadyI) (simp_all add: nodes_inv_def)

lemma map_of_nodes_inv:
  "nodes_inv s \<Longrightarrow> map_of (nodeVMs s) u = Some vm \<Longrightarrow> vm_UUID vm = ToLower (TrimSpace u)"
  by (auto simp: nodes_inv_def list_all_iff dest: map_of_SomeD)

lemma set_AList_update: "set (AList.update k v al) \<subseteq> insert (k, v) (set al)"
  by (induction al) auto

lemma storeVM_inv:
  "vm_UUID vm = ToLower (TrimSpace u) \<Longrightarrow> nodes_inv s \<Longrightarrow> nodes_inv (s\<lparr>nodeVMs := AList.update u vm (nodeVMs s)\<rparr>)"
  using set_AList_update [of u vm "nodeVMs s"]
  by (auto simp: nodes_inv_def list_all_iff distinct_update)

lemma keeps_storeName [keeps_rules]: "keeps nodes_inv (storeName n u)"
  unfolding storeName_def by (rule keeps_assign) (simp add: nodes_inv_def distinct_update)

lemma DiscoverNode_run:
  assumes "run_state (DiscoverNode env ienv u) s = (r, s')"
  shows "(\<exists>e. r = Inl e) \<and> nodeVMs s' = nodeVMs s \<or>
    r = Inr () \<and> (\<exists>vm. reported ienv u False vm \<and> nodeVMs s' = AList.update u vm (nodeVMs s))"
    and "nodeNameToUUID s' = nodeNameToUUID s"
proof -
  obtain r1 s1 where get: "run_state (GetVirtualMachineByUUID env ienv u False) s = (r1, s1)" by fastforce
  have same: "nodeVMs s1 = nodeVMs s \<and> nodeNameToUUID s1 = nodeNameToUUID s"
    by (rule keepsD [OF steady_search get]) (auto intro: steadyI)
  from assms get same search_reported [of env ienv u False s] show
    "(\<exists>e. r = Inl e) \<and> nodeVMs s' = nodeVMs s \<or>
     r = Inr () \<and> (\<exists>vm. reported ienv u False vm \<and> nodeVMs s' = AList.update u vm (nodeVMs s))"
    and "nodeNameToUUID s' = nodeNameToUUID s"
    by (cases r1; force simp: DiscoverNode_def storeVM_def)+
qed

lemma keeps_DiscoverNode [keeps_rules]: "keeps nodes_inv (DiscoverNode env ienv u)"
proof (rule keepsI)
  fix s r s'
  assume run: "run_state (DiscoverNode env ienv u) s = (r, s')" and inv: "nodes_inv s"
  have upd: "nodes_inv (s\<lparr>nodeVMs := AList.update u vm (nodeVMs s)\<rparr>)" if "reported ienv u False vm" for vm
    using that inv by (intro storeVM_inv) (simp_all add: reported_def)
  from DiscoverNode_run [OF run] show "nodes_inv s'" using inv upd by (auto simp: nodes_inv_def)
qed

lemma keeps_RegisterNode [keeps_rules]: "keeps nodes_inv (RegisterNode env ienv u n)"
  unfolding RegisterNode_def by (intro keeps_rules)

lemma Renew_UUID:
  "run_state (Renew env vm b) s = (Inr vm', s') \<Longrightarrow> vm_UUID vm' = vm_UUID vm"
  by (auto dest: Renew_current simp: same_vm_def)

lemma steady_Renew: "steady I \<Longrightarrow> keeps I (Renew env vm b)"
  unfolding Renew_def renew_def clientOf_def GetVirtualCenter_def
  by (intro keeps_bindE keeps_bind keeps_get keeps_return keeps_if keeps_case_prod keeps_load_vc steady_Connect)

lemma Renew_nodes:
  fixes s :: "'z nodes_scheme"
  assumes "run_state (Renew env vm b) s = (r, s')"
  shows "nodeVMs s' = nodeVMs s \<and> nodeNameToUUID s' = nodeNameToUUID s"
  by (rule keepsD [OF steady_Renew assms]) (auto intro: steadyI)

lemma keeps_GetNode [keeps_rules]: "keeps nodes_inv (GetNode env ienv u)"
proof (rule keepsI)
  fix s :: "'z nodes_scheme" and r s'
  assume run: "run_state (GetNode env ienv u) s = (r, s')" and inv: "nodes_inv s"
  show "nodes_inv s'"
  proof (cases "map_of (nodeVMs s) u")
    case None
    with run show ?thesis using keepsD [OF keeps_DiscoverNode _ inv]
      by (auto simp: GetNode_def split: prod.splits sum.splits)
  next
    case (Some vm)
    obtain r1 s1 where ren: "run_state (Renew env vm True) s = (r1, s1)" by fastforce
    have inv1: "nodes_inv s1" using Renew_nodes [OF ren] inv by (simp add: nodes_inv_def)
    show ?thesis
    proof (cases r1)
      case (Inr vm')
      with ren map_of_nodes_inv [OF inv Some] have "vm_UUID vm' = ToLower (TrimSpace u)"
        by (auto dest: Renew_UUID)
      with storeVM_inv [OF this inv1] run Some ren Inr show ?thesis by (auto simp: GetNode_def storeVM_def)
    qed (use run Some ren inv1 in \<open>auto simp: GetNode_def\<close>)
  qed
qed

lemma keeps_GetNodeVMUUID [keeps_rules]: "keeps nodes_inv (GetNodeVMUUID kenv n)"
  unfolding GetNodeVMUUID_def by (intro keeps_rules steady_perform steady_nodes_inv)

lemma keeps_GetNodeByName [keeps_rules]: "keeps nodes_inv (GetNodeByName env ienv kenv n)"
  unfolding GetNodeByName_def by (intro keeps_rules)

lemma keeps_UnregisterNode [keeps_rules]: "keeps nodes_inv (UnregisterNode n)"
  unfolding UnregisterNode_def
  by (intro keeps_rules) (auto simp: nodes_inv_def AList.delete_eq distinct_map_filter list_all_iff)

lemma current_vm_more [simp]: "current_vm (s\<lparr>nodeVMs := x\<rparr>) vm = current_vm s vm"
  by (simp add: current_vm_def)

lemma DiscoverNode_current:
  assumes "run_state (DiscoverNode env ienv u) s = (Inr (), s')" and "registry_ok s" and "map_of (nodeVMs s') u = Some vm"
  shows "current_vm s' vm"
  using assms search_current [of env ienv u False s]
  by (auto simp: DiscoverNode_def storeVM_def update_conv' split: prod.splits sum.splits)

lemma GetNode_result:
  assumes run: "run_state (GetNode env ienv u) s = (Inr vm, s')" and inv: "nodes_inv s"
  shows "map_of (nodeVMs s') u = Some vm \<and> nodeNameToUUID s' = nodeNameToUUID s \<and>
    (registry_ok s \<longrightarrow> current_vm s' vm) \<and>
    (case map_of (nodeVMs s) u of None \<Rightarrow> reported ienv u False vm
     | Some old \<Rightarrow> current_vm s' vm \<and> same_vm old vm)"
proof (cases "map_of (nodeVMs s) u")
  case None
  then obtain s1 where "run_state (DiscoverNode env ienv u) s = (Inr (), s1)" "s' = s1"
    "map_of (nodeVMs s1) u = Some vm"
    using run by (auto simp: GetNode_def split: prod.splits sum.splits option.splits)
  with None DiscoverNode_run [of env ienv u s "Inr ()" s1] DiscoverNode_current [of env ienv u s s1 vm]
  show ?thesis by (auto simp: update_conv')
next
  case (Some old)
  then obtain s1 where ren: "run_state (Renew env old True) s = (Inr vm, s1)"
    and s': "s' = s1\<lparr>nodeVMs := AList.update u vm (nodeVMs s1)\<rparr>"
    using run by (auto simp: GetNode_def storeVM_def split: prod.splits sum.splits)
  from Some Renew_current [OF ren] Renew_nodes [OF ren] show ?thesis
    by (simp add: s' update_conv')
qed

section \<open>Renewing all nodes\<close>

lemma registry_wf_more [simp]: "registry_wf (s\<lparr>nodeVMs := x\<rparr>) = registry_wf s"
  by (simp add: registry_wf_def)

lemma keeps_Renew_wf: "keeps registry_wf (Renew env vm b)"
  unfolding Renew_def renew_def clientOf_def GetVirtualCenter_def
  by (intro keeps_rules | simp)+

lemma map_of_distinct_snd:
  assumes "distinct (map snd al)" and "map_of al k = Some v" and "map_of al k' = Some v"
  shows "k = k'"
  using assms by (metis distinct_map fst_conv inj_onD map_of_SomeD snd_conv)

text \<open>Renewing one virtual machine leaves the sessions of the other vCenters alone.\<close>

lemma Renew_keeps_current:
  assumes run: "run_state (Renew env vm b) s = (r, s')" and wf: "registry_wf s" and cur: "current_vm s v"
    and other: "b \<Longrightarrow> vm_VirtualCenterHost vm \<noteq> vm_VirtualCenterHost v"
  shows "current_vm s' v"
proof -
  have eq: "vcs s' a = vcs s a \<and> virtualCenters s' = virtualCenters s"
    if a: "map_of (virtualCenters s) (vm_VirtualCenterHost v) = Some a" for a
  proof (cases "map_of (virtualCenters s) (vm_VirtualCenterHost vm)")
    case None with run show ?thesis by (auto simp: Renew_def GetVirtualCenter_def)
  next
    case (Some c)
    obtain r1 s1 where con: "run_state (if b then Connect env c else State_Monad.return (Inr ())) s = (r1, s1)"
      by fastforce
    have "s' = s1"
      using run Some con
      by (cases r1; auto simp: Renew_def GetVirtualCenter_def renew_def clientOf_def load_vc_def
          split: prod.splits sum.splits option.splits)
    moreover have "a \<noteq> c" if b
      using map_of_distinct_snd [OF _ Some, of "vm_VirtualCenterHost v"] a other [OF that] wf
      unfolding registry_wf_def by metis
    ultimately show ?thesis
      using con Connect_other Connect_registry by (cases b) (auto, blast+)
  qed
  from cur obtain a where "map_of (virtualCenters s) (vm_VirtualCenterHost v) = Some a"
    by (auto simp: current_vm_def)
  with cur eq show ?thesis by (simp add: current_vm_def)
qed

lemma renewNodes_current:
  "registry_wf s \<Longrightarrow> run_state (renewNodes env hosts entries) s = (Inr vms, s') \<Longrightarrow>
   list_all2 same_vm (map snd entries) vms \<and> list_all (current_vm s') vms \<and>
   (\<forall>v. current_vm s v \<and> vm_VirtualCenterHost v \<in> set hosts \<longrightarrow> current_vm s' v)"
proof (induction entries arbitrary: s hosts vms)
  case (Cons entry entries)
  obtain u vm where entry: "entry = (u, vm)" by (cases entry)
  let ?b = "vm_VirtualCenterHost vm \<notin> set hosts"
  from Cons.prems(2) obtain vm' s1 vms' where ren: "run_state (Renew env vm ?b) s = (Inr vm', s1)"
    and rest: "run_state (renewNodes env (vm_VirtualCenterHost vm # hosts) entries)
      (s1\<lparr>nodeVMs := AList.update u vm' (nodeVMs s1)\<rparr>) = (Inr vms', s')" and vms: "vms = vm' # vms'"
    by (auto simp: entry storeVM_def split: prod.splits sum.splits)
  have wf: "registry_wf s1" using keepsD [OF keeps_Renew_wf ren Cons.prems(1)] .
  note cur = Renew_current [OF ren]
  from Cons.IH [OF _ rest] wf have IH: "list_all2 same_vm (map snd entries) vms'" "list_all (current_vm s') vms'"
    and keep: "\<And>v. current_vm s1 v \<Longrightarrow> vm_VirtualCenterHost v \<in> set (vm_VirtualCenterHost vm # hosts) \<Longrightarrow> current_vm s' v"
    by auto
  have "current_vm s' vm'" using cur by (intro keep) (simp_all add: same_vm_def)
  moreover have "current_vm s' v" if "current_vm s v" and "vm_VirtualCenterHost v \<in> set hosts" for v
    using that by (intro keep Renew_keeps_current [OF ren Cons.prems(1)]) auto
  ultimately show ?case using IH cur by (auto simp: vms entry)
qed simp

lemma completeNames_nodes:
  "keeps (\<lambda>s. nodeVMs s = x \<and> vcs s = y \<and> virtualCenters s = z \<and> next_vc s = w) (completeNames kenv entries)"
  by (induction entries)
     (auto simp: GetNodeVMUUID_def storeName_def intro!: keeps_handle keeps_bind keeps_bindE keeps_get keeps_return
       keeps_if keeps_assign keeps_perform)

lemma renewNodes_same:
  "run_state (renewNodes env hosts entries) s = (Inr vms, s') \<Longrightarrow> list_all2 same_vm (map snd entries) vms"
  by (induction entries arbitrary: s hosts vms)
     (auto simp: storeVM_def dest: Renew_current split: prod.splits sum.splits)

lemma GetAllNodes_run:
  assumes "run_state (GetAllNodes env kenv) s = (Inr vms, s')"
  obtains s1 where "run_state (renewNodes env [] (nodeVMs s)) s1 = (Inr vms, s')"
    and "vcs s1 = vcs s" and "virtualCenters s1 = virtualCenters s" and "next_vc s1 = next_vc s"
proof -
  obtain r1 s1 where names: "run_state (completeNames kenv (nodeNameToUUID s)) s = (r1, s1)" by fastforce
  have "nodeVMs s1 = nodeVMs s \<and> vcs s1 = vcs s \<and> virtualCenters s1 = virtualCenters s \<and> next_vc s1 = next_vc s"
    by (rule keepsD [OF completeNames_nodes names]) simp
  with assms names that show ?thesis by (auto simp: GetAllNodes_def split: sum.splits)
qed

lemma RegisterNode_run:
  assumes "run_state (RegisterNode env ienv u n) s = (r, s')"
  shows "nodeNameToUUID s' = AList.update n u (nodeNameToUUID s)"
    and "(\<exists>e. r = Inl e) \<and> nodeVMs s' = nodeVMs s \<or>
      r = Inr () \<and> (\<exists>vm. reported ienv u False vm \<and> nodeVMs s' = AList.update u vm (nodeVMs s))"
  using DiscoverNode_run [of env ienv u "s\<lparr>nodeNameToUUID := AList.update n u (nodeNameToUUID s)\<rparr>" r s'] assms
  by (simp_all add: RegisterNode_def storeName_def)

text \<open>The UUID Kubernetes knows a node by is read off the provider id it answers.\<close>

lemma GetNodeVMUUID_result:
  assumes "run_state (GetNodeVMUUID kenv n) s = (Inr u, s')"
  shows "(\<exists>providerID h. ans_GetNode kenv n h = Inr providerID \<and> u = GetUUIDFromProviderID providerID) \<and>
    nodeVMs s' = nodeVMs s \<and> (registry_ok (s'\<lparr>nodeNameToUUID := x\<rparr>) \<longleftrightarrow> registry_ok s)"
  using assms
  by (auto simp: GetNodeVMUUID_def registry_ok_def registry_wf_def host_is_def split: if_splits sum.splits)

section \<open>Properties\<close>

text \<open>
  C25. Looking a node up by its name returns the virtual machine that belongs to the UUID of the name: the
  UUID that was registered or, for a node registered without one, the UUID in the provider id Kubernetes
  answers for the node, which is recorded. In a well-formed registry of vCenters the virtual machine
  uses the session its vCenter has when the lookup returns. It is the one found before, renewed, or
  one vCenter just reported for the UUID. The entries stay consistent.\<close>

theorem GetNodeByName_vm:
  assumes run: "run_state (GetNodeByName env ienv kenv nodeName) s = (Inr vm, s')" and inv: "nodes_inv s"
    and ok: "registry_ok s"
  shows "\<exists>nodeUUID registered. map_of (nodeNameToUUID s) nodeName = Some registered \<and>
     (if registered \<noteq> [] then nodeUUID = registered
      else \<exists>providerID h. ans_GetNode kenv nodeName h = Inr providerID \<and> nodeUUID = GetUUIDFromProviderID providerID) \<and>
     map_of (nodeNameToUUID s') nodeName = Some nodeUUID \<and>
     map_of (nodeVMs s') nodeUUID = Some vm \<and> vm_UUID vm = ToLower (TrimSpace nodeUUID) \<and> nodes_inv s' \<and>
     current_vm s' vm \<and>
     (case map_of (nodeVMs s) nodeUUID of None \<Rightarrow> reported ienv nodeUUID False vm | Some old \<Rightarrow> same_vm old vm)"
proof -
  have inv': "nodes_inv s'" using keepsD [OF keeps_GetNodeByName run inv] .
  obtain u where u: "map_of (nodeNameToUUID s) nodeName = Some u"
    using run by (auto simp: GetNodeByName_def split: option.splits)
  show ?thesis
  proof (cases "u = []")
    case False
    with run u have "run_state (GetNode env ienv u) s = (Inr vm, s')" by (simp add: GetNodeByName_def)
    from GetNode_result [OF this inv] u ok False map_of_nodes_inv [OF inv', of u vm] inv' show ?thesis
      by (auto split: option.splits)
  next
    case True
    with run u obtain k s1 where k: "run_state (GetNodeVMUUID kenv nodeName) s = (Inr k, s1)"
      and rest: "run_state (GetNode env ienv k) (s1\<lparr>nodeNameToUUID := AList.update nodeName k (nodeNameToUUID s1)\<rparr>)
        = (Inr vm, s')"
      by (auto simp: GetNodeByName_def storeName_def split: prod.splits sum.splits)
    note known = GetNodeVMUUID_result [OF k]
    have "nodes_inv (s1\<lparr>nodeNameToUUID := AList.update nodeName k (nodeNameToUUID s1)\<rparr>)"
      using keepsD [OF keeps_GetNodeVMUUID k inv] by (simp add: nodes_inv_def distinct_update)
    from GetNode_result [OF rest this] u True known ok map_of_nodes_inv [OF inv', of k vm] inv' show ?thesis
      by (auto simp: update_conv' split: option.splits)
  qed
qed

text \<open>
  The list of all nodes holds one virtual machine for every discovered node, in the order of the
  map, each renewed to the session its vCenter has when the operation returns: reconnecting for a
  later node never leaves an earlier one with an old session.\<close>

lemma GetAllNodes_current:
  assumes "run_state (GetAllNodes env kenv) s = (Inr vms, s')" and "registry_wf s"
  shows "list_all2 same_vm (map snd (nodeVMs s)) vms \<and> list_all (current_vm s') vms"
proof -
  from assms(1) obtain s1 where run: "run_state (renewNodes env [] (nodeVMs s)) s1 = (Inr vms, s')"
    and "vcs s1 = vcs s" "virtualCenters s1 = virtualCenters s" "next_vc s1 = next_vc s"
    by (rule GetAllNodes_run)
  with assms(2) have "registry_wf s1" by (simp add: registry_wf_def)
  from renewNodes_current [OF this run] show ?thesis by simp
qed

text \<open>
  A node whose virtual machine could not be discovered stays registered, and \<open>GetAllNodes\<close>, documented
  to cover all registered nodes, leaves it out without an error: it returns the virtual machines
  known before the registration.\<close>

lemma GetAllNodes_omits_undiscovered:
  assumes "run_state (RegisterNode env ienv nodeUUID nodeName) s = (Inl err, s1)"
    and "run_state (GetAllNodes env kenv) s1 = (Inr vms, s2)"
  shows "map_of (nodeNameToUUID s1) nodeName = Some nodeUUID \<and> list_all2 same_vm (map snd (nodeVMs s)) vms"
proof -
  from assms(2) obtain t where "run_state (renewNodes env [] (nodeVMs s1)) t = (Inr vms, s2)"
    by (rule GetAllNodes_run)
  with renewNodes_same RegisterNode_run [OF assms(1)] show ?thesis by (auto simp: update_conv')
qed

text \<open>
  A node registered again with another UUID and then unregistered leaves the virtual machine of its
  first UUID behind: no name refers to it, yet \<open>GetAllNodes\<close> goes on returning it.\<close>

lemma UnregisterNode_leaves_stale_vm:
  assumes "run_state (RegisterNode env ienv uuid1 nodeName) s = (Inr (), s1)"
    and "run_state (RegisterNode env ienv uuid2 nodeName) s1 = (r, s2)" and "uuid1 \<noteq> uuid2"
  shows "\<exists>s3. run_state (UnregisterNode nodeName) s2 = (Inr (), s3) \<and>
    map_of (nodeNameToUUID s3) nodeName = None \<and> map_of (nodeVMs s3) uuid1 \<noteq> None"
  using RegisterNode_run [OF assms(1)] RegisterNode_run [OF assms(2)] assms(3)
  by (auto simp: UnregisterNode_def update_conv' delete_conv')

section \<open>Witnesses\<close>

definition sample_nodes :: nodes where
  "sample_nodes = \<lparr>trace = [], vcs = [0 \<mapsto> sample_vc], next_vc = 1, virtualCenters = [(''vc1'', 0)],
     managerInstance = Some (Some 0), nodeVMs = [(''4a'', sample_vm)],
     nodeNameToUUID = [(''node1'', ''4a'')], k8sClient = True\<rparr>"

lemma sample_nodes_sel:
  "vcs sample_nodes 0 = Some sample_vc" "virtualCenters sample_nodes = [(''vc1'', 0)]" "trace sample_nodes = []"
  "nodeVMs sample_nodes = [(''4a'', sample_vm)]" "nodeNameToUUID sample_nodes = [(''node1'', ''4a'')]"
  "next_vc sample_nodes = 1" "managerInstance sample_nodes = Some (Some 0)" "k8sClient sample_nodes = True"
  by (simp_all add: sample_nodes_def)

lemma sample_nodes_inv: "nodes_inv sample_nodes" "registry_wf sample_nodes"
  by (simp_all add: nodes_inv_def sample_nodes_sel sample_vm_sel TrimSpace_def is_space_def ToLower_def ToLower_char_def
      registry_wf_def)

lemma sample_nodes_ok: "registry_ok sample_nodes"
  using sample_nodes_inv(2) by (simp add: registry_ok_def host_is_def sample_nodes_sel sample_vc_def sample_conf_def)

lemma sample_Renew:
  "\<exists>vm' s'. run_state (Renew sample_env sample_vm True) sample_nodes = (Inr vm', s')"
  using sample_Connect [OF sample_nodes_sel(1)] Renew_reconnects [of sample_nodes sample_vm 0 sample_env]
  by (fastforce simp: sample_nodes_sel sample_vm_sel)

lemma sample_GetAllNodes:
  "\<exists>vm s'. run_state (GetAllNodes sample_env kenv) sample_nodes = (Inr [vm], s')"
  using sample_Renew by (auto simp: GetAllNodes_def sample_nodes_sel storeVM_def)

lemma sample_GetNodeByName:
  "\<exists>vm s'. run_state (GetNodeByName sample_env ienv kenv ''node1'') sample_nodes = (Inr vm, s')"
  using sample_Renew by (auto simp: GetNodeByName_def GetNode_def sample_nodes_sel storeVM_def)

text \<open>A node that was registered without a UUID and that Kubernetes knows.\<close>

definition sample_k8s_node :: k8s_env where
  "sample_k8s_node = sample_k8s\<lparr>ans_GetNode := \<lambda>_ _. Inr ''vsphere://4a''\<rparr>"

definition sample_unknown :: nodes where
  "sample_unknown = sample_nodes\<lparr>nodeVMs := [], nodeNameToUUID := [(''node1'', [])]\<rparr>"

lemma sample_uuid: "GetUUIDFromProviderID ''vsphere://4a'' = ''4a''"
  by code_simp

lemma sample_unknown_found:
  obtains vm s' where "run_state (GetNodeByName sample_env (sample_race 1) sample_k8s_node ''node1'') sample_unknown = (Inr vm, s')"
proof -
  define t where "t = sample_unknown\<lparr>trace := [CallGetNode ''node1''], nodeNameToUUID := [(''node1'', ''4a'')]\<rparr>"
  have t: "vcs t 0 = Some sample_vc" "virtualCenters t = [(''vc1'', 0)]"
    by (simp_all add: t_def sample_unknown_def sample_nodes_sel)
  obtain vm s1 where "run_state (GetVirtualMachineByUUID sample_env (sample_race 1) ''4a'' False) t = (Inr vm, s1)"
    using sample_search(1) [OF t, of "''4a''"] by blast
  then have "run_state (GetNode sample_env (sample_race 1) ''4a'') t = (Inr vm, s1\<lparr>nodeVMs := AList.update ''4a'' vm (nodeVMs s1)\<rparr>)"
    by (simp add: GetNode_def DiscoverNode_def storeVM_def t_def sample_unknown_def update_conv')
  then have "run_state (GetNodeByName sample_env (sample_race 1) sample_k8s_node ''node1'') sample_unknown
    = (Inr vm, s1\<lparr>nodeVMs := AList.update ''4a'' vm (nodeVMs s1)\<rparr>)"
    by (simp add: GetNodeByName_def GetNodeVMUUID_def storeName_def t_def sample_unknown_def sample_k8s_node_def
        sample_nodes_sel sample_uuid)
  then show ?thesis by (rule that)
qed

theorem GetNodeByName_vm_witness:
  "\<exists>vm s'. run_state (GetNodeByName sample_env (sample_race 1) sample_k8s_node ''node1'') sample_unknown = (Inr vm, s') \<and>
     map_of (nodeVMs s') ''4a'' = Some vm \<and> current_vm s' vm \<and> reported (sample_race 1) ''4a'' False vm \<and> nodes_inv s'"
proof -
  obtain vm s' where run: "run_state (GetNodeByName sample_env (sample_race 1) sample_k8s_node ''node1'') sample_unknown = (Inr vm, s')"
    by (rule sample_unknown_found)
  have inv: "nodes_inv sample_unknown" by (simp add: nodes_inv_def sample_unknown_def)
  have ok: "registry_ok sample_unknown"
    using sample_nodes_ok by (simp add: sample_unknown_def registry_ok_def registry_wf_def host_is_def)
  have "ans_GetNode sample_k8s_node ''node1'' h = Inr ''vsphere://4a''" for h by (simp add: sample_k8s_node_def)
  with GetNodeByName_vm [OF run inv ok] run show ?thesis by (auto simp: sample_unknown_def sample_uuid)
qed

lemma GetAllNodes_current_witness:
  "\<exists>vm s'. run_state (GetAllNodes sample_env sample_k8s) sample_nodes = (Inr [vm], s') \<and> current_vm s' vm"
proof -
  obtain vm s' where run: "run_state (GetAllNodes sample_env sample_k8s) sample_nodes = (Inr [vm], s')"
    using sample_GetAllNodes by blast
  from GetAllNodes_current [OF run sample_nodes_inv(2)] run show ?thesis by auto
qed

lemma keeps_search_wf [keeps_rules]: "keeps registry_wf (GetVirtualMachineByUUID env ienv uuid b)"
  by (rule keeps_search, rule keeps_poolStep)
     (auto simp: GetDatacenters_def getDatacenters_def listDatacenters_def clientOf_def dcGetVirtualMachineByUUID_def
       Let_def intro!: keeps_rules)

lemma sample_Connect_again:
  assumes "vcs s 0 = Some vc"
  shows "\<exists>s1. run_state (Connect sample_env 0) s = (Inr (), s1)"
  using assms by (cases "vc_Client vc") (simp_all add: vc_program_defs sample_env_answers)

text \<open>The search of the sample inventory that misses its virtual machine.\<close>

lemma sample_RegisterNode_fails:
  obtains s1 where "run_state (RegisterNode sample_env (sample_race 0) ''5b'' ''node2'') sample_nodes = (Inl ErrVMNotFound, s1)"
    and "vcs s1 0 \<noteq> None" and "virtualCenters s1 = [(''vc1'', 0)]" and "nodeVMs s1 = [(''4a'', sample_vm)]"
    and "nodeNameToUUID s1 = [(''node1'', ''4a''), (''node2'', ''5b'')]"
proof -
  define t where "t = sample_nodes\<lparr>nodeNameToUUID := [(''node1'', ''4a''), (''node2'', ''5b'')]\<rparr>"
  have t: "vcs t 0 = Some sample_vc" "virtualCenters t = [(''vc1'', 0)]" "nodeVMs t = [(''4a'', sample_vm)]"
    "nodeNameToUUID t = [(''node1'', ''4a''), (''node2'', ''5b'')]" "registry_wf t"
    using sample_nodes_inv(2) by (simp_all add: t_def sample_nodes_sel registry_wf_def)
  obtain s1 where run: "run_state (GetVirtualMachineByUUID sample_env (sample_race 0) ''5b'' False) t = (Inl ErrVMNotFound, s1)"
    using sample_search(2) [OF t(1,2), of "''5b''"] by blast
  have same: "virtualCenters s1 = virtualCenters t \<and> nodeVMs s1 = nodeVMs t \<and> nodeNameToUUID s1 = nodeNameToUUID t"
    by (rule keepsD [OF steady_search run]) (auto intro: steadyI)
  have "registry_wf s1" using keepsD [OF keeps_search_wf run t(5)] .
  with same t have "vcs s1 0 \<noteq> None" by (simp add: registry_wf_def)
  moreover have "run_state (RegisterNode sample_env (sample_race 0) ''5b'' ''node2'') sample_nodes = (Inl ErrVMNotFound, s1)"
    using run by (simp add: RegisterNode_def DiscoverNode_def storeName_def sample_nodes_sel t_def)
  ultimately show ?thesis using that same t by simp
qed

lemma GetAllNodes_omits_undiscovered_witness:
  "\<exists>s1 s2 vm. run_state (RegisterNode sample_env (sample_race 0) ''5b'' ''node2'') sample_nodes = (Inl ErrVMNotFound, s1) \<and>
     run_state (GetAllNodes sample_env sample_k8s) s1 = (Inr [vm], s2) \<and>
     map_of (nodeNameToUUID s1) ''node2'' = Some ''5b'' \<and> same_vm sample_vm vm"
proof -
  obtain s1 where reg: "run_state (RegisterNode sample_env (sample_race 0) ''5b'' ''node2'') sample_nodes = (Inl ErrVMNotFound, s1)"
    and s1: "vcs s1 0 \<noteq> None" "virtualCenters s1 = [(''vc1'', 0)]" "nodeVMs s1 = [(''4a'', sample_vm)]"
      "nodeNameToUUID s1 = [(''node1'', ''4a''), (''node2'', ''5b'')]"
    by (rule sample_RegisterNode_fails)
  obtain t where "run_state (Connect sample_env 0) s1 = (Inr (), t)"
    using s1(1) sample_Connect_again by blast
  then obtain vm where "run_state (Renew sample_env sample_vm True) s1 = (Inr vm, t)"
    using Renew_reconnects [of s1 sample_vm 0] s1(2) by (auto simp: sample_vm_sel)
  then obtain s2 where all: "run_state (GetAllNodes sample_env sample_k8s) s1 = (Inr [vm], s2)"
    using s1 by (auto simp: GetAllNodes_def storeVM_def)
  from GetAllNodes_omits_undiscovered [OF reg all] reg all show ?thesis by (auto simp: sample_nodes_sel)
qed

lemma UnregisterNode_leaves_stale_vm_witness:
  "\<exists>s1 r s2 s3. run_state (RegisterNode sample_env (sample_race 1) ''4a'' ''node1'') sample_nodes = (Inr (), s1) \<and>
     run_state (RegisterNode sample_env (sample_race 1) ''5b'' ''node1'') s1 = (r, s2) \<and>
     run_state (UnregisterNode ''node1'') s2 = (Inr (), s3) \<and> map_of (nodeVMs s3) ''4a'' \<noteq> None"
proof -
  define t where "t = sample_nodes\<lparr>nodeNameToUUID := AList.update ''node1'' ''4a'' (nodeNameToUUID sample_nodes)\<rparr>"
  obtain vm s1 where "run_state (GetVirtualMachineByUUID sample_env (sample_race 1) ''4a'' False) t = (Inr vm, s1)"
    using sample_search(1) [of t "''vc1''" "''4a''"] by (auto simp: t_def sample_nodes_sel)
  then obtain s2 where reg: "run_state (RegisterNode sample_env (sample_race 1) ''4a'' ''node1'') sample_nodes = (Inr (), s2)"
    by (simp add: RegisterNode_def DiscoverNode_def storeName_def storeVM_def t_def)
  obtain r s3 where again: "run_state (RegisterNode sample_env (sample_race 1) ''5b'' ''node1'') s2 = (r, s3)" by fastforce
  from UnregisterNode_leaves_stale_vm [OF reg again] reg again show ?thesis by auto
qed

end
