(* ===== verification/Shared_Datastores.thy ===== *)
theory Shared_Datastores
  imports Node_Manager
begin

text \<open>
  \<open>pkg/csi/service/cns/nodes.go\<close>: the datastores that all nodes, or all nodes of a topology, can reach.
  The closures of \<open>GetSharedDatastoresInTopology\<close> are functions of their own here; the map from
  datastore URLs to topologies is a list of entries.
\<close>

section \<open>Operations\<close>

definition LabelRegionFailureDomain :: string where
  "LabelRegionFailureDomain = ''failure-domain.beta.kubernetes.io/region''"

definition LabelZoneFailureDomain :: string where
  "LabelZoneFailureDomain = ''failure-domain.beta.kubernetes.io/zone''"

text \<open>
  \<open>nodeAdd\<close> and \<open>nodeDelete\<close>: the informer's callbacks, with the provider id and the name of the node, or
  \<open>None\<close> for an object that is no node. Errors are only logged; a panic is not.
\<close>

definition nodeAdd :: "env \<Rightarrow> inventory_env \<Rightarrow> (string \<times> string) option \<Rightarrow> ('z, unit) nodesE" where
  "nodeAdd env ienv obj = (case obj of
     None \<Rightarrow> State_Monad.return (Inr ())
   | Some (providerID, nodeName) \<Rightarrow>
       handle (RegisterNode env ienv (GetUUIDFromProviderID providerID) nodeName)
         (\<lambda>err. State_Monad.return (Inr ())) (\<lambda>_. State_Monad.return (Inr ())))"

definition nodeDelete :: "(string \<times> string) option \<Rightarrow> ('z, unit) nodesE" where
  "nodeDelete obj = (case obj of
     None \<Rightarrow> State_Monad.return (Inr ())
   | Some (providerID, nodeName) \<Rightarrow>
       handle (UnregisterNode nodeName)
         (\<lambda>err. State_Monad.return (Inr ())) (\<lambda>_. State_Monad.return (Inr ())))"

text \<open>\<open>Initialize\<close>: the client comes first; the listener is started last.\<close>

definition Initialize :: "(error + unit) answer \<Rightarrow> ('z, unit) nodesE" where
  "Initialize newClientAnswer =
     bindE (perform CallNewKubernetesClient newClientAnswer) (\<lambda>_. do {
       SetKubernetesClient True;
       perform CallListenNodes (\<lambda>_. Inr ())
     })"

fun sharedDatastoresFrom ::
  "inventory_env \<Rightarrow> datastore_info list \<Rightarrow> virtual_machine list \<Rightarrow> ('z, datastore_info list) progE" where
  "sharedDatastoresFrom ienv sharedDatastores [] = State_Monad.return (Inr sharedDatastores)"
| "sharedDatastoresFrom ienv sharedDatastores (vm # vms) =
     bindE (GetAllAccessibleDatastores ienv vm) (\<lambda>accessibleDatastores.
     let shared = (if sharedDatastores = [] then accessibleDatastores
                   else filter (\<lambda>sharedDs. list_ex (\<lambda>accessibleDs. di_Url sharedDs = di_Url accessibleDs)
                          accessibleDatastores) sharedDatastores) in
     if shared = [] then State_Monad.return (Inl (Errorf ''No shared datastores found for nodeVm: %+v''))
     else sharedDatastoresFrom ienv shared vms)"

definition GetSharedDatastoresForVMs ::
  "inventory_env \<Rightarrow> virtual_machine list \<Rightarrow> ('z, datastore_info list) progE" where
  "GetSharedDatastoresForVMs ienv vms = sharedDatastoresFrom ienv [] vms"

definition GetSharedDatastoresInK8SCluster ::
  "env \<Rightarrow> inventory_env \<Rightarrow> k8s_env \<Rightarrow> ('z, datastore_info list) nodesE" where
  "GetSharedDatastoresInK8SCluster env ienv kenv =
     bindE (GetAllNodes env kenv) (\<lambda>vms.
       if vms = [] then State_Monad.return (Inl (Errorf ''Empty List of Node VMs returned from nodeManager''))
       else GetSharedDatastoresForVMs ienv vms)"

fun getNodesInZoneRegion ::
  "env \<Rightarrow> inventory_env \<Rightarrow> string \<Rightarrow> string \<Rightarrow> string \<Rightarrow> string \<Rightarrow> virtual_machine list \<Rightarrow>
   ('z, virtual_machine list) progE" where
  "getNodesInZoneRegion env ienv zoneCat regionCat zoneValue regionValue [] = State_Monad.return (Inr [])"
| "getNodesInZoneRegion env ienv zoneCat regionCat zoneValue regionValue (vm # allNodes) =
     bindE (IsInZoneRegion env ienv vm zoneCat regionCat zoneValue regionValue) (\<lambda>isNodeInZoneRegion.
     bindE (getNodesInZoneRegion env ienv zoneCat regionCat zoneValue regionValue allNodes) (\<lambda>rest.
     State_Monad.return (Inr (if isNodeInZoneRegion then vm # rest else rest))))"

type_synonym topology_map = "(string \<times> topology list) list"

definition accessibleTopology :: "string \<Rightarrow> string \<Rightarrow> topology" where
  "accessibleTopology zone region =
     (if zone \<noteq> [] then [(LabelZoneFailureDomain, zone)] else []) @
     (if region \<noteq> [] then [(LabelRegionFailureDomain, region)] else [])"

definition addTopology :: "topology \<Rightarrow> datastore_info \<Rightarrow> topology_map \<Rightarrow> topology_map" where
  "addTopology topo datastore tmap =
     AList.update (di_Url datastore)
       ((case map_of tmap (di_Url datastore) of None \<Rightarrow> [] | Some ts \<Rightarrow> ts) @ [topo]) tmap"

fun getSharedDatastoresInTopology ::
  "env \<Rightarrow> inventory_env \<Rightarrow> string \<Rightarrow> string \<Rightarrow> virtual_machine list \<Rightarrow> datastore_info list \<Rightarrow> topology_map \<Rightarrow>
   topology list \<Rightarrow> ('z, datastore_info list \<times> topology_map) progE" where
  "getSharedDatastoresInTopology env ienv zoneCat regionCat allNodes sharedDatastores tmap [] =
     State_Monad.return (Inr (sharedDatastores, tmap))"
| "getSharedDatastoresInTopology env ienv zoneCat regionCat allNodes sharedDatastores tmap (topo # topologyArr) =
     (let zone = segment topo LabelZoneFailureDomain; region = segment topo LabelRegionFailureDomain in
      bindE (getNodesInZoneRegion env ienv zoneCat regionCat zone region allNodes) (\<lambda>nodeVMsInZoneRegion.
      bindE (GetSharedDatastoresForVMs ienv nodeVMsInZoneRegion) (\<lambda>sharedInZoneRegion.
      getSharedDatastoresInTopology env ienv zoneCat regionCat allNodes (sharedDatastores @ sharedInZoneRegion)
        (fold (addTopology (accessibleTopology zone region)) sharedInZoneRegion tmap) topologyArr)))"

definition GetSharedDatastoresInTopology ::
  "env \<Rightarrow> inventory_env \<Rightarrow> k8s_env \<Rightarrow> topology_requirement option \<Rightarrow> string \<Rightarrow> string \<Rightarrow>
   ('z, datastore_info list \<times> topology_map) nodesE" where
  "GetSharedDatastoresInTopology env ienv kenv topologyRequirement zoneCat regionCat =
     bindE (GetAllNodes env kenv) (\<lambda>allNodes.
       if allNodes = [] then State_Monad.return (Inl (Errorf ''Empty List of Node VMs returned from nodeManager''))
       else
         bindE (case Option.bind topologyRequirement Preferred of
                  None \<Rightarrow> State_Monad.return (Inr ([], []))
                | Some preferred \<Rightarrow> getSharedDatastoresInTopology env ienv zoneCat regionCat allNodes [] [] preferred)
           (\<lambda>(sharedDatastores, tmap).
             if sharedDatastores \<noteq> [] then State_Monad.return (Inr (sharedDatastores, tmap))
             else case Option.bind topologyRequirement Requisite of
               None \<Rightarrow> State_Monad.return (Inr (sharedDatastores, tmap))
             | Some requisite \<Rightarrow>
                 getSharedDatastoresInTopology env ienv zoneCat regionCat allNodes [] [] requisite))"

section \<open>Reading changes nothing\<close>

lemma emits_sharedDatastoresFrom [emits_rules]:
  "(\<And>c. \<not> cns_mutation c \<Longrightarrow> P c) \<Longrightarrow> emits P (sharedDatastoresFrom ienv shared vms)"
  by (induction vms arbitrary: shared) (auto simp: Let_def intro!: emits_rules)

lemma emits_GetSharedDatastoresForVMs [emits_rules]:
  "(\<And>c. \<not> cns_mutation c \<Longrightarrow> P c) \<Longrightarrow> emits P (GetSharedDatastoresForVMs ienv vms)"
  unfolding GetSharedDatastoresForVMs_def by (rule emits_sharedDatastoresFrom)

lemma emits_GetSharedDatastoresInK8SCluster [emits_rules]:
  "(\<And>c. \<not> cns_mutation c \<Longrightarrow> P c) \<Longrightarrow> emits P (GetSharedDatastoresInK8SCluster env ienv kenv)"
  unfolding GetSharedDatastoresInK8SCluster_def by (intro emits_rules | simp)+

lemma emits_getNodesInZoneRegion [emits_rules]:
  "(\<And>c. \<not> cns_mutation c \<Longrightarrow> P c) \<Longrightarrow> emits P (getNodesInZoneRegion env ienv zc rc z r vms)"
  by (induction vms) (auto intro!: emits_rules)

lemma emits_getSharedDatastoresInTopology [emits_rules]:
  "(\<And>c. \<not> cns_mutation c \<Longrightarrow> P c) \<Longrightarrow> emits P (getSharedDatastoresInTopology env ienv zc rc vms shared tmap ts)"
  by (induction ts arbitrary: shared tmap) (auto simp: Let_def intro!: emits_rules)

lemma emits_GetSharedDatastoresInTopology [emits_rules]:
  "(\<And>c. \<not> cns_mutation c \<Longrightarrow> P c) \<Longrightarrow> emits P (GetSharedDatastoresInTopology env ienv kenv req zc rc)"
  unfolding GetSharedDatastoresInTopology_def by (intro emits_rules | simp)+

section \<open>Shared datastores are the intersection\<close>

text \<open>
  The specification: the datastores of the first list whose URL occurs in every other list.
\<close>

definition intersection :: "datastore_info list list \<Rightarrow> datastore_info list" where
  "intersection accs = (case accs of [] \<Rightarrow> []
     | acc # rest \<Rightarrow> filter (\<lambda>d. \<forall>acc' \<in> set rest. di_Url d \<in> di_Url ` set acc') acc)"

text \<open>What \<open>GetAllAccessibleDatastores\<close> may return for a virtual machine.\<close>

definition accessible :: "inventory_env \<Rightarrow> virtual_machine \<Rightarrow> datastore_info list \<Rightarrow> bool" where
  "accessible ienv vm acc \<longleftrightarrow> (\<exists>host refs infos h h' h''.
     ans_VmHost ienv (vm_client vm) (vm_ref vm) h = Inr host \<and>
     ans_HostDatastores ienv (vm_client vm) host h' = Inr refs \<and>
     ans_DatastoreInfo ienv (vm_client vm) refs h'' = Inr infos \<and>
     map (\<lambda>d. (ds_ref (di_Datastore d), di_Url d)) acc = infos)"

lemma GetAllAccessibleDatastores_accessible:
  "run_state (GetAllAccessibleDatastores ienv vm) s = (Inr acc, s') \<Longrightarrow> accessible ienv vm acc"
  by (fastforce simp: GetAllAccessibleDatastores_def hostAccessibleDatastores_def accessible_def o_def split_beta
      split: sum.splits)

lemma sharedDatastoresFrom_spec:
  "run_state (sharedDatastoresFrom ienv shared vms) s = (Inr ds, s') \<Longrightarrow> shared \<noteq> [] \<Longrightarrow>
   \<exists>accs. list_all2 (accessible ienv) vms accs \<and> ds = intersection (shared # accs) \<and> ds \<noteq> []"
proof (induction vms arbitrary: shared s)
  case (Cons vm vms)
  from Cons.prems obtain acc s1 where acc: "run_state (GetAllAccessibleDatastores ienv vm) s = (Inr acc, s1)"
    by (auto split: prod.splits sum.splits)
  let ?shared = "filter (\<lambda>d. list_ex (\<lambda>d'. di_Url d = di_Url d') acc) shared"
  from Cons.prems acc have "?shared \<noteq> []" and "run_state (sharedDatastoresFrom ienv ?shared vms) s1 = (Inr ds, s')"
    by (auto simp: Let_def split: if_splits)
  from Cons.IH [OF this(2,1)] obtain accs where "list_all2 (accessible ienv) vms accs"
    and "ds = intersection (?shared # accs)" and "ds \<noteq> []" by blast
  moreover from this have "ds = intersection (shared # acc # accs)"
    by (auto simp: intersection_def list_ex_iff image_iff intro!: filter_cong)
  ultimately show ?case
    using GetAllAccessibleDatastores_accessible [OF acc] by (intro exI [of _ "acc # accs"]) simp
qed (auto simp: intersection_def)

lemma GetSharedDatastoresForVMs_spec:
  assumes "run_state (GetSharedDatastoresForVMs ienv vms) s = (Inr ds, s')" and "vms \<noteq> []"
  shows "\<exists>accs. list_all2 (accessible ienv) vms accs \<and> ds = intersection accs \<and> ds \<noteq> []"
proof -
  obtain vm rest where vms: "vms = vm # rest" using assms(2) by (cases vms) auto
  with assms(1) obtain acc s1 where acc: "run_state (GetAllAccessibleDatastores ienv vm) s = (Inr acc, s1)"
    and "acc \<noteq> []" and "run_state (sharedDatastoresFrom ienv acc rest) s1 = (Inr ds, s')"
    by (auto simp: GetSharedDatastoresForVMs_def Let_def split: prod.splits sum.splits if_splits)
  from sharedDatastoresFrom_spec [OF this(3,2)] obtain accs where
    "list_all2 (accessible ienv) rest accs" "ds = intersection (acc # accs)" "ds \<noteq> []" by blast
  with GetAllAccessibleDatastores_accessible [OF acc] vms show ?thesis
    by (intro exI [of _ "acc # accs"]) simp
qed

lemma intersection_urls:
  assumes "d \<in> set (intersection accs)" and "acc \<in> set accs"
  shows "di_Url d \<in> di_Url ` set acc"
  using assms by (cases accs) (auto simp: intersection_def)

section \<open>Datastores of a topology\<close>

text \<open>
  What one topology contributes: every node was asked whether it lies in the topology, and the
  contribution is what the nodes that do have in common (nothing when there is no such node).
\<close>

definition topology_share ::
  "(virtual_machine \<Rightarrow> topology \<Rightarrow> bool \<Rightarrow> bool) \<Rightarrow> inventory_env \<Rightarrow> virtual_machine list \<Rightarrow> topology \<Rightarrow>
   datastore_info list \<Rightarrow> bool" where
  "topology_share answer ienv nodes topo shared \<longleftrightarrow> (\<exists>inside. list_all2 (\<lambda>vm. answer vm topo) nodes inside \<and>
     (let vms = map fst (filter snd (zip nodes inside)) in
      if vms = [] then shared = []
      else \<exists>accs. list_all2 (accessible ienv) vms accs \<and> shared = intersection accs))"

text \<open>The label set that stands for a requested topology in the answer.\<close>

definition labels_of :: "topology \<Rightarrow> topology" where
  "labels_of topo = accessibleTopology (segment topo LabelZoneFailureDomain) (segment topo LabelRegionFailureDomain)"

text \<open>The label sets of a datastore: one for each topology that contributes it, in the order of the request.\<close>

definition topologies_of :: "string \<Rightarrow> (topology \<times> datastore_info list) list \<Rightarrow> topology list" where
  "topologies_of url shares = concat (map (\<lambda>(topo, shared). map (\<lambda>_. labels_of topo) (filter (\<lambda>d. di_Url d = url) shared)) shares)"

definition nonempty :: "'a list \<Rightarrow> 'a list option" where
  "nonempty xs = (if xs = [] then None else Some xs)"

definition topology_ok ::
  "(virtual_machine \<Rightarrow> topology \<Rightarrow> bool \<Rightarrow> bool) \<Rightarrow> inventory_env \<Rightarrow> virtual_machine list \<Rightarrow> topology list \<Rightarrow>
   datastore_info list \<Rightarrow> topology_map \<Rightarrow> bool" where
  "topology_ok answer ienv nodes topos ds tmap \<longleftrightarrow>
     (\<exists>shares. list_all2 (topology_share answer ienv nodes) topos shares \<and> ds = concat shares \<and>
        (\<forall>url. map_of tmap url = nonempty (topologies_of url (zip topos shares))))"

lemma map_of_fold_addTopology:
  "(\<And>url. map_of tmap url = nonempty (L url)) \<Longrightarrow>
   map_of (fold (addTopology l) ds tmap) url = nonempty (L url @ map (\<lambda>_. l) (filter (\<lambda>d. di_Url d = url) ds))"
proof (induction ds arbitrary: tmap L)
  case (Cons d ds)
  have "map_of (addTopology l d tmap) u = nonempty (L u @ (if di_Url d = u then [l] else []))" for u
    using Cons.prems by (simp add: addTopology_def update_conv' nonempty_def)
  from Cons.IH [of "addTopology l d tmap" "\<lambda>u. L u @ (if di_Url d = u then [l] else [])", OF this] show ?case by simp
qed simp

lemma topology_ok_add:
  assumes "topology_ok answer ienv nodes topos ds tmap" and "topology_share answer ienv nodes topo shared"
  shows "topology_ok answer ienv nodes (topos @ [topo]) (ds @ shared) (fold (addTopology (labels_of topo)) shared tmap)"
proof -
  from assms(1) obtain shares where shares: "list_all2 (topology_share answer ienv nodes) topos shares" "ds = concat shares"
    "\<And>url. map_of tmap url = nonempty (topologies_of url (zip topos shares))"
    unfolding topology_ok_def by blast
  with assms(2) list_all2_lengthD [OF shares(1)] show ?thesis
    unfolding topology_ok_def
    by (intro exI [of _ "shares @ [shared]"])
       (simp add: list_all2_appendI map_of_fold_addTopology [OF shares(3)] topologies_of_def)
qed

text \<open>The answer of the check whether a virtual machine lies in a topology, with the same vCenters registered.\<close>

definition found_in ::
  "env \<Rightarrow> inventory_env \<Rightarrow> string \<Rightarrow> string \<Rightarrow> 'z driver_scheme \<Rightarrow> virtual_machine \<Rightarrow> topology \<Rightarrow> bool \<Rightarrow> bool" where
  "found_in env ienv zoneCat regionCat s vm topo b \<longleftrightarrow> (\<exists>(t :: 'z driver_scheme) t'. virtualCenters t = virtualCenters s \<and>
     run_state (IsInZoneRegion env ienv vm zoneCat regionCat (segment topo LabelZoneFailureDomain)
       (segment topo LabelRegionFailureDomain)) t = (Inr b, t'))"

lemma IsInZoneRegion_registry:
  "run_state (IsInZoneRegion env ienv vm zc rc z r) s = (x, s') \<Longrightarrow> virtualCenters s' = virtualCenters s"
  using keepsD [OF steady_IsInZoneRegion [OF steady_registry]] by metis

lemma found_in_cong:
  "virtualCenters (s :: 'z driver_scheme) = virtualCenters (t :: 'z driver_scheme) \<Longrightarrow>
   found_in env ienv zc rc s = found_in env ienv zc rc t"
  by (simp add: found_in_def fun_eq_iff)

lemma getNodesInZoneRegion_found:
  fixes s s0 :: "'z driver_scheme"
  shows "run_state (getNodesInZoneRegion env ienv zc rc (segment topo LabelZoneFailureDomain)
     (segment topo LabelRegionFailureDomain) nodes) s = (Inr vms, s') \<Longrightarrow>
   virtualCenters s = virtualCenters s0 \<Longrightarrow>
   (\<exists>inside. list_all2 (\<lambda>vm. found_in env ienv zc rc s0 vm topo) nodes inside \<and>
      vms = map fst (filter snd (zip nodes inside))) \<and> virtualCenters s' = virtualCenters s0"
proof (induction nodes arbitrary: s vms)
  case (Cons vm nodes)
  let ?z = "segment topo LabelZoneFailureDomain" and ?r = "segment topo LabelRegionFailureDomain"
  from Cons.prems(1) obtain b s1 rest where
      one: "run_state (IsInZoneRegion env ienv vm zc rc ?z ?r) s = (Inr b, s1)"
    and rest: "run_state (getNodesInZoneRegion env ienv zc rc ?z ?r nodes) s1 = (Inr rest, s')"
    and vms: "vms = (if b then vm # rest else rest)"
    by (auto split: prod.splits sum.splits)
  have b: "found_in env ienv zc rc s0 vm topo b" using one Cons.prems(2) by (auto simp: found_in_def)
  from Cons.IH [OF rest] IsInZoneRegion_registry [OF one] Cons.prems(2) obtain inside where
    "list_all2 (\<lambda>vm. found_in env ienv zc rc s0 vm topo) nodes inside" "rest = map fst (filter snd (zip nodes inside))"
    "virtualCenters s' = virtualCenters s0" by auto
  with b vms show ?case by (auto intro!: exI [of _ "b # inside"])
qed simp

lemma keeps_GetSharedDatastoresForVMs: "steady I \<Longrightarrow> keeps I (GetSharedDatastoresForVMs ienv vms)"
proof -
  assume "steady I"
  then have "keeps I (sharedDatastoresFrom ienv shared vms)" for shared
    by (induction vms arbitrary: shared)
       (auto simp: Let_def intro!: keeps_bindE keeps_return keeps_if steady_GetAllAccessibleDatastores)
  then show ?thesis by (simp add: GetSharedDatastoresForVMs_def)
qed

lemma GetSharedDatastoresForVMs_registry:
  "run_state (GetSharedDatastoresForVMs ienv vms) s = (x, s') \<Longrightarrow> virtualCenters s' = virtualCenters s"
  using keepsD [OF keeps_GetSharedDatastoresForVMs [OF steady_registry]] by metis

lemma GetSharedDatastoresForVMs_empty: "run_state (GetSharedDatastoresForVMs ienv []) s = (Inr [], s)"
  by (simp add: GetSharedDatastoresForVMs_def)

lemma getSharedDatastoresInTopology_ok:
  fixes s s0 :: "'z driver_scheme"
  shows "run_state (getSharedDatastoresInTopology env ienv zc rc nodes ds tmap topos) s = (Inr (ds', tmap'), s') \<Longrightarrow>
   virtualCenters s = virtualCenters s0 \<Longrightarrow>
   topology_ok (found_in env ienv zc rc s0) ienv nodes before ds tmap \<Longrightarrow>
   topology_ok (found_in env ienv zc rc s0) ienv nodes (before @ topos) ds' tmap' \<and> virtualCenters s' = virtualCenters s0"
proof (induction topos arbitrary: s ds tmap before)
  case (Cons topo topos)
  let ?z = "segment topo LabelZoneFailureDomain" and ?r = "segment topo LabelRegionFailureDomain"
  from Cons.prems(1) obtain vms s1 shared s2 where
      vms: "run_state (getNodesInZoneRegion env ienv zc rc ?z ?r nodes) s = (Inr vms, s1)"
    and shared: "run_state (GetSharedDatastoresForVMs ienv vms) s1 = (Inr shared, s2)"
    and rest: "run_state (getSharedDatastoresInTopology env ienv zc rc nodes (ds @ shared)
      (fold (addTopology (labels_of topo)) shared tmap) topos) s2 = (Inr (ds', tmap'), s')"
    by (auto simp: Let_def labels_of_def split: prod.splits sum.splits)
  note found = getNodesInZoneRegion_found [OF vms Cons.prems(2)]
  have "if vms = [] then shared = [] else \<exists>accs. list_all2 (accessible ienv) vms accs \<and> shared = intersection accs"
    using shared GetSharedDatastoresForVMs_spec [OF shared] by (auto simp: GetSharedDatastoresForVMs_empty)
  with found have share: "topology_share (found_in env ienv zc rc s0) ienv nodes topo shared"
    unfolding topology_share_def Let_def by blast
  have "virtualCenters s2 = virtualCenters s0"
    using found GetSharedDatastoresForVMs_registry [OF shared] by simp
  from Cons.IH [OF rest this topology_ok_add [OF Cons.prems(3) share]] show ?case by simp
qed auto

lemma topology_ok_empty: "topology_ok answer ienv nodes [] [] []"
  by (simp add: topology_ok_def topologies_of_def nonempty_def)

lemma GetAllNodes_same:
  assumes "run_state (GetAllNodes env kenv) s = (Inr vms, s')"
  shows "list_all2 same_vm (map snd (nodeVMs s)) vms"
  using assms by (rule GetAllNodes_run) (rule renewNodes_same)

lemma topology_datastores_ok:
  assumes run: "run_state (GetSharedDatastoresInTopology env ienv kenv (Some req) zoneCat regionCat)
      (s :: 'z nodes_scheme) = (Inr (ds, tmap), s')"
    and "ds \<noteq> []"
  shows "\<exists>nodes topos. list_all2 same_vm (map snd (nodeVMs s)) nodes \<and>
    (Preferred req = Some topos \<or> Requisite req = Some topos) \<and>
    topology_ok (found_in env ienv zoneCat regionCat s') ienv nodes topos ds tmap"
proof -
  let ?get = "\<lambda>nodes. getSharedDatastoresInTopology env ienv zoneCat regionCat nodes [] []"
  from run obtain nodes s1 where nodes: "run_state (GetAllNodes env kenv) s = (Inr nodes, s1)"
    by (auto simp: GetSharedDatastoresInTopology_def split: prod.splits sum.splits)
  have result: "topology_ok (found_in env ienv zoneCat regionCat s') ienv nodes topos ds tmap"
    if "run_state (?get nodes topos) t = (Inr (ds, tmap), s')" for topos and t :: "'z nodes_scheme"
  proof -
    from getSharedDatastoresInTopology_ok [OF that, of t "[]"]
    have "topology_ok (found_in env ienv zoneCat regionCat t) ienv nodes topos ds tmap"
      and "virtualCenters s' = virtualCenters t" by (auto simp: topology_ok_empty)
    then show ?thesis using found_in_cong [of s' t] by simp
  qed
  have "\<exists>topos (t :: 'z nodes_scheme). (Preferred req = Some topos \<or> Requisite req = Some topos) \<and>
      run_state (?get nodes topos) t = (Inr (ds, tmap), s')"
    using run nodes assms(2)
    by (auto simp: GetSharedDatastoresInTopology_def split: prod.splits sum.splits option.splits if_splits)
  then show ?thesis using result GetAllNodes_same [OF nodes] by blast
qed

section \<open>Properties\<close>

text \<open>
  C18. The datastores shared by a list of virtual machines are exactly the intersection of what each of
  them reaches, by URL, and it is not empty.\<close>

theorem shared_datastores_intersection:
  assumes "run_state (GetSharedDatastoresForVMs ienv vms) s = (Inr ds, s')" and "vms \<noteq> []"
  shows "\<exists>accs. list_all2 (accessible ienv) vms accs \<and> ds = intersection accs \<and> ds \<noteq> []"
  using assms by (rule GetSharedDatastoresForVMs_spec)

text \<open>
  C19. The datastores for a topology requirement are those of the preferred topologies, or of the
  requisite ones when the preferred give none: for each topology in turn, the datastores common to
  all nodes whose tags put them in it. The topology map lists for each URL exactly the topologies
  that contribute a datastore with it.\<close>

theorem topology_datastores:
  assumes "run_state (GetSharedDatastoresInTopology env ienv kenv (Some req) zoneCat regionCat)
      (s :: 'z nodes_scheme) = (Inr (ds, tmap), s')"
    and "ds \<noteq> []"
  shows "\<exists>nodes topos. list_all2 same_vm (map snd (nodeVMs s)) nodes \<and>
    (Preferred req = Some topos \<or> Requisite req = Some topos) \<and>
    topology_ok (found_in env ienv zoneCat regionCat s') ienv nodes topos ds tmap"
  using assms by (rule topology_datastores_ok)

section \<open>Witnesses\<close>

lemma sample_accessible:
  "\<exists>ds s'. run_state (GetAllAccessibleDatastores sample_ienv vm) s = (Inr ds, s') \<and> map di_Url ds = [''url-ds1'', ''url-ds2'']"
  by (simp add: GetAllAccessibleDatastores_def hostAccessibleDatastores_def sample_ienv_answers)

theorem shared_datastores_intersection_witness:
  "\<exists>ds s' accs. run_state (GetSharedDatastoresForVMs sample_ienv [sample_vm]) sample_driver = (Inr ds, s') \<and>
     map di_Url ds = [''url-ds1'', ''url-ds2''] \<and> ds = intersection accs \<and> ds \<noteq> []"
proof -
  obtain ds s' where run: "run_state (GetSharedDatastoresForVMs sample_ienv [sample_vm]) sample_driver = (Inr ds, s')"
    and urls: "map di_Url ds = [''url-ds1'', ''url-ds2'']"
    using sample_accessible [of sample_vm sample_driver]
    by (force simp: GetSharedDatastoresForVMs_def Let_def)
  from shared_datastores_intersection [OF run list.distinct(2)] obtain accs where
    "ds = intersection accs" and "ds \<noteq> []" by blast
  with run urls show ?thesis by (intro exI conjI)
qed

lemma sample_GetZoneRegion:
  assumes "virtualCenters s = [(''vc1'', 0)]" and "vcs s 0 = Some vc" and "vm_VirtualCenterHost vm = ''vc1''"
  shows "\<exists>s'. run_state (GetZoneRegion sample_env sample_ienv vm ''c-zone'' ''c-region'') s = (Inr (''t-east'', ''t-us''), s') \<and>
    vcs s' = vcs s \<and> virtualCenters s' = virtualCenters s"
  using assms
  by (simp add: GetZoneRegion_def withTagManager_def GetTagManager_def signer_def GetAncestors_def GetHostSystem_def
        GetVirtualCenter_def load_vc_def sample_ienv_answers sample_env_answers)

lemma sample_IsInZoneRegion:
  assumes "virtualCenters s = [(''vc1'', 0)]" and "vcs s 0 = Some vc" and "vm_VirtualCenterHost vm = ''vc1''"
  shows "\<exists>s'. run_state (IsInZoneRegion sample_env sample_ienv vm ''c-zone'' ''c-region'' ''t-east'' ''t-us'') s = (Inr True, s')"
proof -
  let ?t = "s\<lparr>trace := trace s @ [CallRestLogin (vm_client vm) (conf_Username (vc_Config vc)) (conf_Password (vc_Config vc))]\<rparr>"
  obtain s1 where "run_state (GetZoneRegion sample_env sample_ienv vm ''c-zone'' ''c-region'') ?t = (Inr (''t-east'', ''t-us''), s1)"
    using sample_GetZoneRegion [of ?t vc vm] assms by auto
  with assms show ?thesis
    by (simp add: IsInZoneRegion_def withTagManager_def GetTagManager_def signer_def GetVirtualCenter_def load_vc_def
        sample_ienv_answers sample_env_answers)
qed

definition sample_topology :: topology where
  "sample_topology = [(LabelZoneFailureDomain, ''t-east''), (LabelRegionFailureDomain, ''t-us'')]"

definition sample_requirement :: topology_requirement where
  "sample_requirement = \<lparr>Requisite = Some [sample_topology], Preferred = None\<rparr>"

lemma sample_segments:
  "segment sample_topology LabelZoneFailureDomain = ''t-east''"
  "segment sample_topology LabelRegionFailureDomain = ''t-us''"
  by (simp_all add: sample_topology_def segment_def LabelZoneFailureDomain_def LabelRegionFailureDomain_def)

lemma sample_nodes_connected:
  obtains vm s1 vc where "run_state (GetAllNodes sample_env kenv) sample_nodes = (Inr [vm], s1)"
    and "virtualCenters s1 = [(''vc1'', 0)]" and "vcs s1 0 = Some vc" and "vm_VirtualCenterHost vm = ''vc1''"
    and "conf_Host (vc_Config vc) = ''vc1''"
proof -
  obtain s1 vc where con: "run_state (Connect sample_env 0) sample_nodes = (Inr (), s1)" "vcs s1 0 = Some vc"
    "conf_Host (vc_Config vc) = ''vc1''"
    using sample_Connect [OF sample_nodes_sel(1)] by blast
  then obtain vm where ren: "run_state (Renew sample_env sample_vm True) sample_nodes = (Inr vm, s1)"
    using Renew_reconnects [of sample_nodes sample_vm 0] by (auto simp: sample_nodes_sel sample_vm_sel)
  have "run_state (GetAllNodes sample_env kenv) sample_nodes =
      (Inr [vm], s1\<lparr>nodeVMs := AList.update ''4a'' vm (nodeVMs s1)\<rparr>)"
    using ren by (simp add: GetAllNodes_def sample_nodes_sel storeVM_def)
  with Renew_current [OF ren] con(2,3) that show ?thesis
    by (auto simp: same_vm_def sample_vm_sel sample_nodes_sel)
qed

lemma sample_InTopology:
  "\<exists>ds tmap s'. run_state (GetSharedDatastoresInTopology sample_env sample_ienv sample_k8s (Some sample_requirement)
      ''c-zone'' ''c-region'') sample_nodes = (Inr (ds, tmap), s') \<and> ds \<noteq> []"
proof -
  obtain vm s1 vc where nodes: "run_state (GetAllNodes sample_env sample_k8s) sample_nodes = (Inr [vm], s1)"
    and s1: "virtualCenters s1 = [(''vc1'', 0)]" "vcs s1 0 = Some vc" "vm_VirtualCenterHost vm = ''vc1''"
    using sample_nodes_connected by blast
  obtain s2 where zone: "run_state (IsInZoneRegion sample_env sample_ienv vm ''c-zone'' ''c-region'' ''t-east'' ''t-us'') s1 = (Inr True, s2)"
    using sample_IsInZoneRegion [OF s1] by blast
  obtain ds s3 where acc: "run_state (GetAllAccessibleDatastores sample_ienv vm) s2 = (Inr ds, s3)" and "ds \<noteq> []"
    using sample_accessible [of vm s2] by force
  with nodes zone show ?thesis
    by (simp add: GetSharedDatastoresInTopology_def sample_requirement_def sample_segments Let_def
        GetSharedDatastoresForVMs_def)
qed

theorem topology_datastores_witness:
  "\<exists>ds tmap s' nodes. run_state (GetSharedDatastoresInTopology sample_env sample_ienv sample_k8s (Some sample_requirement)
      ''c-zone'' ''c-region'') sample_nodes = (Inr (ds, tmap), s') \<and> ds \<noteq> [] \<and>
     topology_ok (found_in sample_env sample_ienv ''c-zone'' ''c-region'' s') sample_ienv nodes [sample_topology] ds tmap"
proof -
  obtain ds tmap s' where "run_state (GetSharedDatastoresInTopology sample_env sample_ienv sample_k8s (Some sample_requirement)
      ''c-zone'' ''c-region'') sample_nodes = (Inr (ds, tmap), s')" and "ds \<noteq> []"
    using sample_InTopology by blast
  with topology_datastores [OF this] show ?thesis by (fastforce simp: sample_requirement_def)
qed

end
