(* ===== verification/Controller.thy ===== *)
theory Controller
  imports Shared_Datastores
begin

text \<open>
  \<open>pkg/csi/service/cns/controller.go\<close>, the CSI controller, and \<open>vsphereutil.go\<close> of \<open>pkg/csi/service/common\<close>
  through which it reaches CNS. The controller's \<open>common.Manager\<close> is a value: its configuration and its
  volume manager do not change after \<open>Init\<close>. \<open>rand.Intn\<close>, which picks one of several topologies, is the
  argument \<open>rnd\<close>.
\<close>

section \<open>Helpers over the volume manager\<close>

record common_manager =
  VcenterConfig :: vc_config
  CnsConfig :: config
  VolumeManager :: "nat option"

record create_volume_spec =
  spec_Name :: string
  spec_StoragePolicyName :: string
  spec_DatastoreURL :: string
  spec_CapacityMB :: int

definition GetVCenter :: "env \<Rightarrow> common_manager \<Rightarrow> ('z, nat) progE" where
  "GetVCenter env m =
     bindE (GetVirtualCenter (conf_Host (VcenterConfig m))) (\<lambda>vcenter.
     bindE (Connect env vcenter) (\<lambda>_.
     State_Monad.return (Inr vcenter)))"

definition getDatastoreMoRefs :: "datastore_info list \<Rightarrow> moref list" where
  "getDatastoreMoRefs datastores = map (\<lambda>d. ds_ref (di_Datastore d)) datastores"

text \<open>
  The loop over the datacenters that looks for the datastore of the storage class: \<open>datastoreObj\<close> is
  overwritten by every round, with nil when the datacenter does not have the datastore.
\<close>

fun findDatastore ::
  "inventory_env \<Rightarrow> string \<Rightarrow> datastore_info list \<Rightarrow> datastore option \<Rightarrow> datacenter list \<Rightarrow>
   ('z, datastore option \<times> bool) progE" where
  "findDatastore ienv datastoreURL sharedDatastores datastoreObj [] =
     State_Monad.return (Inr (datastoreObj, False))"
| "findDatastore ienv datastoreURL sharedDatastores datastoreObj (dc # dcs) =
     handle (GetDatastoreByURL ienv dc datastoreURL)
       (\<lambda>err. findDatastore ienv datastoreURL sharedDatastores None dcs)
       (\<lambda>ds. if list_ex (\<lambda>sharedDatastore. di_Url sharedDatastore = datastoreURL) sharedDatastores
             then State_Monad.return (Inr (Some ds, True))
             else findDatastore ienv datastoreURL sharedDatastores (Some ds) dcs)"

definition chooseDatastores ::
  "inventory_env \<Rightarrow> nat \<Rightarrow> string \<Rightarrow> datastore_info list \<Rightarrow> ('z, moref list) progE" where
  "chooseDatastores ienv vc datastoreURL sharedDatastores =
     (if datastoreURL = [] then State_Monad.return (Inr (getDatastoreMoRefs sharedDatastores))
      else
        bindE (GetDatacenters ienv vc) (\<lambda>datacenters.
        bindE (findDatastore ienv datastoreURL sharedDatastores None datacenters) (\<lambda>(datastoreObj, isShared).
        State_Monad.return (case datastoreObj of
          None \<Rightarrow> Inl (Errorf ''DatastoreURL: %s specified in the storage class is not found.'')
        | Some ds \<Rightarrow>
            if isShared then Inr [ds_ref ds]
            else Inl (Errorf ''Datastore: %s specified in the storage class is not accessible to all nodes.'')))))"

definition policyProfile :: "env \<Rightarrow> nat \<Rightarrow> string \<Rightarrow> ('z, string) progE" where
  "policyProfile env vc storagePolicyName =
     (if storagePolicyName \<noteq> []
      then bindE (ConnectPbm env vc) (\<lambda>_. GetStoragePolicyIDByName env vc storagePolicyName)
      else State_Monad.return (Inr []))"

definition CreateVolumeUtil ::
  "env \<Rightarrow> inventory_env \<Rightarrow> common_manager \<Rightarrow> create_volume_spec \<Rightarrow> datastore_info list \<Rightarrow> ('z, string) progE" where
  "CreateVolumeUtil env ienv m spec sharedDatastores =
     bindE (GetVCenter env m) (\<lambda>vc.
     bindE (policyProfile env vc (spec_StoragePolicyName spec)) (\<lambda>storagePolicyID.
     bindE (chooseDatastores ienv vc (spec_DatastoreURL spec) sharedDatastores) (\<lambda>datastores.
     bindE (load_vc vc) (\<lambda>vcenter.
     case map_of (VirtualCenter (CnsConfig m)) (conf_Host (vc_Config vcenter)) of
       None \<Rightarrow> State_Monad.return (Inl (Panic ''nil *VirtualCenterConfig''))
     | Some section \<Rightarrow>
         CreateVolume env (VolumeManager m)
           \<lparr>create_Name = spec_Name spec, create_VolumeType = BlockVolumeType, create_Datastores = datastores,
            create_Metadata = \<lparr>ContainerCluster = GetContainerCluster (Global_ClusterID (CnsConfig m)) (User section),
                               EntityMetadata = []\<rparr>,
            create_Backing = BackingObjectDetails (spec_CapacityMB spec),
            create_Profile = (if storagePolicyID \<noteq> [] then [storagePolicyID] else [])\<rparr>))))"

definition AttachVolumeUtil :: "env \<Rightarrow> common_manager \<Rightarrow> virtual_machine \<Rightarrow> string \<Rightarrow> ('z, string) progE" where
  "AttachVolumeUtil env m vm volumeID = AttachVolume env (VolumeManager m) (vm_ref vm) volumeID"

definition DetachVolumeUtil :: "env \<Rightarrow> common_manager \<Rightarrow> virtual_machine \<Rightarrow> string \<Rightarrow> ('z, unit) progE" where
  "DetachVolumeUtil env m vm volumeID = DetachVolume env (VolumeManager m) (vm_ref vm) volumeID"

definition DeleteVolumeUtil :: "env \<Rightarrow> common_manager \<Rightarrow> string \<Rightarrow> bool \<Rightarrow> ('z, unit) progE" where
  "DeleteVolumeUtil env m volumeID deleteDisk = DeleteVolume env (VolumeManager m) volumeID deleteDisk"

section \<open>The controller\<close>

definition ControllerInit ::
  "env \<Rightarrow> inventory_env \<Rightarrow> (error + unit) answer \<Rightarrow> config \<Rightarrow> ('z, common_manager) nodesE" where
  "ControllerInit env ienv newClientAnswer cfg =
     (case GetVirtualCenterConfig cfg of
        Inl err \<Rightarrow> State_Monad.return (Inl err)
      | Inr vcenterconfig \<Rightarrow>
          bindE (RegisterVirtualCenter vcenterconfig) (\<lambda>vcenter. do {
            volumeManager \<leftarrow> GetManager (Some vcenter);
            let m = \<lparr>VcenterConfig = vcenterconfig, CnsConfig = cfg, VolumeManager = volumeManager\<rparr>;
            bindE (GetVCenter env m) (\<lambda>vc.
            bindE (clientOf vc) (\<lambda>(cl, conf).
            case CheckAPI (ans_ApiVersion ienv cl) of
              Inl err \<Rightarrow> State_Monad.return (Inl err)
            | Inr _ \<Rightarrow>
                bindE (Initialize newClientAnswer) (\<lambda>_.
                State_Monad.return (Inr m))))
          }))"

text \<open>The parameters of the storage class: datastore URL, storage policy name and file system type.\<close>

fun scanParameters ::
  "(string \<times> string) list \<Rightarrow> string \<times> string \<times> string \<Rightarrow> (string \<times> string) list \<Rightarrow> string \<times> string \<times> string" where
  "scanParameters params acc [] = acc"
| "scanParameters params (datastoreURL, storagePolicyName, fsType) ((paramName, value) # entries) =
     scanParameters params
       (if ToLower paramName = AttributeDatastoreURL then (value, storagePolicyName, fsType)
        else if ToLower paramName = AttributeStoragePolicyName then (datastoreURL, value, fsType)
        else if ToLower paramName = AttributeFsType
        then (datastoreURL, storagePolicyName, segment params AttributeFsType)
        else (datastoreURL, storagePolicyName, fsType)) entries"

definition requestedBytes :: "create_volume_request \<Rightarrow> int" where
  "requestedBytes req = (case RequiredBytes req of
     Some bytes \<Rightarrow> if bytes \<noteq> 0 then bytes else wrap64 (DefaultGbDiskSize * GbInBytes)
   | None \<Rightarrow> wrap64 (DefaultGbDiskSize * GbInBytes))"

definition sharedDatastoresFor ::
  "env \<Rightarrow> inventory_env \<Rightarrow> k8s_env \<Rightarrow> common_manager \<Rightarrow> create_volume_request \<Rightarrow> string \<Rightarrow>
   ('z, datastore_info list \<times> topology_map) nodesE" where
  "sharedDatastoresFor env ienv kenv m req datastoreURL =
     (case AccessibilityRequirements req of
        Some topologyRequirement \<Rightarrow>
          if Labels_Zone (CnsConfig m) = [] \<or> Labels_Region (CnsConfig m) = []
          then State_Monad.return (Inl (Status NotFound ''Zone/Region vsphere category names not specified in the vsphere config secret''))
          else handle (GetSharedDatastoresInTopology env ienv kenv (Some topologyRequirement)
                         (Labels_Zone (CnsConfig m)) (Labels_Region (CnsConfig m)))
                 (\<lambda>err. State_Monad.return (Inl (Status NotFound ''Failed to get shared datastores in topology: %+v. Error: %+v'')))
                 (\<lambda>(sharedDatastores, tmap). State_Monad.return (
                   if sharedDatastores = []
                   then Inl (Status NotFound ''Failed to get shared datastores in topology: %+v. Error: %+v'')
                   else if datastoreURL \<noteq> [] \<and> \<not> list_ex (\<lambda>d. di_Url d = datastoreURL) sharedDatastores
                   then Inl (Status InvalidArgument ''DatastoreURL: %s specified in the storage class is not accessible in the topology:[+%v]'')
                   else Inr (sharedDatastores, tmap)))
      | None \<Rightarrow>
          handle (GetSharedDatastoresInK8SCluster env ienv kenv)
            (\<lambda>err. State_Monad.return (Inl (Status Internal ''Failed to get shared datastores in kubernetes cluster. Error: %+v'')))
            (\<lambda>sharedDatastores. State_Monad.return (
              if sharedDatastores = []
              then Inl (Status Internal ''Failed to get shared datastores in kubernetes cluster. Error: %+v'')
              else Inr (sharedDatastores, []))))"

text \<open>The topology of the new volume, found through the datastore CNS placed it on.\<close>

definition volumeTopology ::
  "env \<Rightarrow> common_manager \<Rightarrow> nat \<Rightarrow> string \<Rightarrow> topology_map \<Rightarrow> ('z, topology) progE" where
  "volumeTopology env m rnd volumeID tmap =
     (if tmap = [] then State_Monad.return (Inr [])
      else handle (QueryVolume env (VolumeManager m) \<lparr>filter_VolumeIds = [volumeID], filter_ContainerClusterIds = []\<rparr>)
        (\<lambda>err. State_Monad.return (Inl (Status Internal ''%v'')))
        (\<lambda>volumes. State_Monad.return (Inr (case volumes of
           [] \<Rightarrow> []
         | volume # _ \<Rightarrow>
             (case map_of tmap (vol_DatastoreUrl volume) of
                None \<Rightarrow> []
              | Some topologies \<Rightarrow> if topologies = [] then [] else topologies ! (rnd mod length topologies))))))"

record create_volume_response =
  VolumeId :: string
  CapacityBytes :: int
  VolumeContext :: "(string \<times> string) list"
  AccessibleTopology :: "topology list"

definition ControllerCreateVolume ::
  "env \<Rightarrow> inventory_env \<Rightarrow> k8s_env \<Rightarrow> common_manager \<Rightarrow> nat \<Rightarrow> create_volume_request \<Rightarrow>
   ('z, create_volume_response) nodesE" where
  "ControllerCreateVolume env ienv kenv m rnd req =
     (case validateVanillaCreateVolumeRequest req of
        Inl err \<Rightarrow> State_Monad.return (Inl err)
      | Inr _ \<Rightarrow>
          (case RoundUpSize (requestedBytes req) MbInBytes of
             Inl err \<Rightarrow> State_Monad.return (Inl err)
           | Inr volSizeMB \<Rightarrow>
               (let (datastoreURL, storagePolicyName, fsType) =
                  scanParameters (Parameters req) ([], [], []) (Parameters req) in
                bindE (sharedDatastoresFor env ienv kenv m req datastoreURL) (\<lambda>(sharedDatastores, tmap).
                handle (CreateVolumeUtil env ienv m
                          \<lparr>spec_Name = Name req, spec_StoragePolicyName = storagePolicyName,
                           spec_DatastoreURL = datastoreURL, spec_CapacityMB = volSizeMB\<rparr> sharedDatastores)
                  (\<lambda>err. State_Monad.return (Inl (Status Internal ''Failed to create volume. Error: %+v'')))
                  (\<lambda>volumeID.
                    bindE (volumeTopology env m rnd volumeID tmap) (\<lambda>volumeAccessibleTopology.
                    State_Monad.return (Inr
                      \<lparr>VolumeId = volumeID, CapacityBytes = wrap64 (volSizeMB * MbInBytes),
                       VolumeContext = [(AttributeDiskType, DiskTypeString), (AttributeFsType, fsType)],
                       AccessibleTopology = (if volumeAccessibleTopology \<noteq> [] then [volumeAccessibleTopology] else [])\<rparr>)))))))"

definition ControllerDeleteVolume :: "env \<Rightarrow> common_manager \<Rightarrow> string \<Rightarrow> ('z, unit) nodesE" where
  "ControllerDeleteVolume env m volumeID =
     (case validateVanillaDeleteVolumeRequest volumeID of
        Inl err \<Rightarrow> State_Monad.return (Inl err)
      | Inr _ \<Rightarrow>
          handle (DeleteVolumeUtil env m volumeID True)
            (\<lambda>err. State_Monad.return (Inl (Status Internal ''Failed to delete volume: %q. Error: %+v'')))
            (\<lambda>_. State_Monad.return (Inr ())))"

definition ControllerPublishVolume ::
  "env \<Rightarrow> inventory_env \<Rightarrow> k8s_env \<Rightarrow> common_manager \<Rightarrow> publish_volume_request \<Rightarrow>
   ('z, (string \<times> string) list) nodesE" where
  "ControllerPublishVolume env ienv kenv m req =
     (case validateVanillaControllerPublishVolumeRequest req of
        Inl err \<Rightarrow> State_Monad.return (Inl (Status Internal ''Validation for PublishVolume Request: %+v has failed. Error: %v''))
      | Inr _ \<Rightarrow>
          handle (GetNodeByName env ienv kenv (publish_NodeId req))
            (\<lambda>err. State_Monad.return (Inl (Status Internal ''Failed to find VirtualMachine for node:%q. Error: %v'')))
            (\<lambda>node.
              handle (AttachVolumeUtil env m node (publish_VolumeId req))
                (\<lambda>err. State_Monad.return (Inl (Status Internal ''Failed to attach disk: %+q with node: %q err %+v'')))
                (\<lambda>diskUUID. State_Monad.return (Inr
                  [(AttributeDiskType, DiskTypeString), (AttributeFirstClassDiskUUID, FormatDiskUUID diskUUID)]))))"

definition ControllerUnpublishVolume ::
  "env \<Rightarrow> inventory_env \<Rightarrow> k8s_env \<Rightarrow> common_manager \<Rightarrow> string \<Rightarrow> string \<Rightarrow> ('z, unit) nodesE" where
  "ControllerUnpublishVolume env ienv kenv m volumeID nodeID =
     (case validateVanillaControllerUnpublishVolumeRequest volumeID nodeID of
        Inl err \<Rightarrow> State_Monad.return (Inl (Status Internal ''Validation for UnpublishVolume Request: %+v has failed. Error: %v''))
      | Inr _ \<Rightarrow>
          handle (GetNodeByName env ienv kenv nodeID)
            (\<lambda>err. State_Monad.return (Inl (Status Internal ''Failed to find VirtualMachine for node:%q. Error: %v'')))
            (\<lambda>node.
              handle (DetachVolumeUtil env m node volumeID)
                (\<lambda>err. State_Monad.return (Inl (Status Internal ''Failed to detach disk: %+q from node: %q err %+v'')))
                (\<lambda>_. State_Monad.return (Inr ()))))"

text \<open>The confirmed capabilities, or \<open>None\<close>.\<close>

definition ValidateVolumeCapabilities :: "volume_capability list \<Rightarrow> volume_capability list option" where
  "ValidateVolumeCapabilities volCaps = (if IsValidVolumeCapabilities volCaps then Some volCaps else None)"

datatype controller_capability = CREATE_DELETE_VOLUME | PUBLISH_UNPUBLISH_VOLUME

definition controllerCaps :: "controller_capability list" where
  "controllerCaps = [CREATE_DELETE_VOLUME, PUBLISH_UNPUBLISH_VOLUME]"

definition ControllerGetCapabilities :: "controller_capability list" where
  "ControllerGetCapabilities = map (\<lambda>cap. cap) controllerCaps"

definition ListVolumes :: "error + unit" where "ListVolumes = Inl (Status Unimplemented [])"
definition GetCapacity :: "error + unit" where "GetCapacity = Inl (Status Unimplemented [])"
definition CreateSnapshot :: "error + unit" where "CreateSnapshot = Inl (Status Unimplemented [])"
definition DeleteSnapshot :: "error + unit" where "DeleteSnapshot = Inl (Status Unimplemented [])"
definition ListSnapshots :: "error + unit" where "ListSnapshots = Inl (Status Unimplemented [])"

lemmas controller_helper_defs =
  GetVCenter_def policyProfile_def chooseDatastores_def CreateVolumeUtil_def AttachVolumeUtil_def
  DetachVolumeUtil_def DeleteVolumeUtil_def

section \<open>One change per request\<close>

text \<open>
  How an attempt to change CNS is embedded: after calls that change nothing, and before calls that
  change nothing; a handler that only reports an error keeps an attempt an attempt.
\<close>

lemma read_then_attempt:
  assumes run: "run_state (bindE m k) s = (r, s')" and read: "emits (\<lambda>c. \<not> cns_mutation c) m"
    and k: "\<And>x t. run_state m s = (Inr x, t) \<Longrightarrow> run_state (k x) t = (r, s') \<Longrightarrow> attempted does t r s'"
  shows "attempted does s r s'"
proof -
  obtain r1 t where m: "run_state m s = (r1, t)" by fastforce
  note same = emits_mutations [OF read m]
  show ?thesis
  proof (cases r1)
    case (Inl e) with run m same show ?thesis by (auto simp: attempted_def)
  next
    case (Inr x)
    with run m have "run_state (k x) t = (r, s')" by simp
    from k [OF _ this] m Inr attempted_after [OF same] show ?thesis by simp
  qed
qed

lemma handle_read_then_attempt:
  assumes run: "run_state (handle m (\<lambda>err. State_Monad.return (Inl (h err))) k) s = (r, s')"
    and read: "emits (\<lambda>c. \<not> cns_mutation c) m"
    and k: "\<And>x t. run_state m s = (Inr x, t) \<Longrightarrow> run_state (k x) t = (r, s') \<Longrightarrow> attempted does t r s'"
  shows "attempted does s r s'"
proof -
  obtain r1 t where m: "run_state m s = (r1, t)" by fastforce
  note same = emits_mutations [OF read m]
  show ?thesis
  proof (cases r1)
    case (Inl e) with run m same show ?thesis by (auto simp: attempted_def split: error.splits)
  next
    case (Inr x)
    with run m have "run_state (k x) t = (r, s')" by simp
    from k [OF _ this] m Inr attempted_after [OF same] show ?thesis by simp
  qed
qed

lemma attempt_then_read:
  assumes run: "run_state (handle m (\<lambda>err. State_Monad.return (Inl (h err))) k) s = (r, s')"
    and m: "\<And>r1 t. run_state m s = (r1, t) \<Longrightarrow> attempted does s r1 t"
    and k: "\<And>x. emits (\<lambda>c. \<not> cns_mutation c) (k x)"
  shows "attempted does s r s'"
proof -
  obtain r1 t where m1: "run_state m s = (r1, t)" by fastforce
  note att = m [OF m1]
  show ?thesis
  proof (cases r1)
    case (Inl e) with run m1 att show ?thesis by (auto simp: attempted_def split: error.splits)
  next
    case (Inr x)
    with run m1 have "run_state (k x) t = (r, s')" by simp
    from emits_mutations [OF k this] att Inr show ?thesis by (auto simp: attempted_def)
  qed
qed

lemma emits_GetVCenter [emits_rules]:
  "(\<And>c. \<not> cns_mutation c \<Longrightarrow> P c) \<Longrightarrow> emits P (GetVCenter env m)"
  unfolding GetVCenter_def by (intro emits_rules | simp)+

lemma emits_policyProfile [emits_rules]:
  "(\<And>c. \<not> cns_mutation c \<Longrightarrow> P c) \<Longrightarrow> emits P (policyProfile env vc name)"
  unfolding policyProfile_def GetStoragePolicyIDByName_def by (intro emits_rules | simp)+

lemma emits_findDatastore [emits_rules]:
  "(\<And>c. \<not> cns_mutation c \<Longrightarrow> P c) \<Longrightarrow> emits P (findDatastore ienv url shared obj dcs)"
  by (induction dcs arbitrary: obj) (auto intro!: emits_rules)

lemma emits_chooseDatastores [emits_rules]:
  "(\<And>c. \<not> cns_mutation c \<Longrightarrow> P c) \<Longrightarrow> emits P (chooseDatastores ienv vc url shared)"
  unfolding chooseDatastores_def by (intro emits_rules | simp)+

lemma emits_sharedDatastoresFor [emits_rules]:
  "(\<And>c. \<not> cns_mutation c \<Longrightarrow> P c) \<Longrightarrow> emits P (sharedDatastoresFor env ienv kenv m req url)"
  unfolding sharedDatastoresFor_def by (intro emits_rules | simp)+

lemma emits_volumeTopology [emits_rules]:
  "(\<And>c. \<not> cns_mutation c \<Longrightarrow> P c) \<Longrightarrow> emits P (volumeTopology env m rnd vol tmap)"
  unfolding volumeTopology_def by (intro emits_rules | simp)+

section \<open>Placement\<close>

text \<open>
  The datastores a volume may be created on: all shared ones, or the one the storage class names, if
  it is shared and vCenter knows its URL.
\<close>

definition placed :: "inventory_env \<Rightarrow> string \<Rightarrow> datastore_info list \<Rightarrow> moref list \<Rightarrow> bool" where
  "placed ienv url shared refs \<longleftrightarrow>
     (if url = [] then refs = getDatastoreMoRefs shared
      else url \<in> di_Url ` set shared \<and>
        (\<exists>ref cl dsRefs infos h. refs = [ref] \<and> ans_DatastoreInfo ienv cl dsRefs h = Inr infos \<and> (ref, url) \<in> set infos))"

lemma find_mem: "List.find P xs = Some x \<Longrightarrow> x \<in> set xs \<and> P x"
  by (auto simp: find_Some_iff)

lemma GetDatastoreByURL_info:
  "run_state (GetDatastoreByURL ienv dc url) s = (Inr ds, s') \<Longrightarrow>
   \<exists>cl dsRefs infos h. ans_DatastoreInfo ienv cl dsRefs h = Inr infos \<and> (ds_ref ds, url) \<in> set infos"
  by (auto simp: GetDatastoreByURL_def datastoreMos_def split: sum.splits option.splits prod.splits dest!: find_mem)
     blast

lemma findDatastore_shared:
  "run_state (findDatastore ienv url shared obj dcs) s = (Inr (Some ds, True), s') \<Longrightarrow>
   url \<in> di_Url ` set shared \<and>
   (\<exists>cl dsRefs infos h. ans_DatastoreInfo ienv cl dsRefs h = Inr infos \<and> (ds_ref ds, url) \<in> set infos)"
proof (induction dcs arbitrary: obj s)
  case (Cons dc dcs)
  obtain r t where g: "run_state (GetDatastoreByURL ienv dc url) s = (r, t)" by fastforce
  show ?case
  proof (cases r)
    case (Inl e)
    with Cons.prems g Cons.IH show ?thesis by (auto split: error.splits)
  next
    case (Inr d)
    with Cons.prems g Cons.IH GetDatastoreByURL_info [of ienv dc url s d t] show ?thesis
      by (auto simp: list_ex_iff split: if_splits)
  qed
qed simp

lemma chooseDatastores_placed:
  assumes "run_state (chooseDatastores ienv vc url shared) s = (Inr refs, s')"
  shows "placed ienv url shared refs"
proof (cases "url = []")
  case True with assms show ?thesis by (simp add: chooseDatastores_def placed_def)
next
  case False
  with assms obtain dcs t ds where
    "run_state (findDatastore ienv url shared None dcs) t = (Inr (Some ds, True), s')" and "refs = [ds_ref ds]"
    by (auto simp: chooseDatastores_def split: prod.splits sum.splits option.splits if_splits)
  with findDatastore_shared [OF this(1)] False show ?thesis unfolding placed_def by auto
qed

text \<open>The creation a request stands for.\<close>

definition requestedURL :: "create_volume_request \<Rightarrow> string" where
  "requestedURL req = fst (scanParameters (Parameters req) ([], [], []) (Parameters req))"

definition provisions ::
  "env \<Rightarrow> inventory_env \<Rightarrow> create_volume_request \<Rightarrow> datastore_info list \<Rightarrow> call \<Rightarrow> bool" where
  "provisions env ienv req shared c \<longleftrightarrow> (\<exists>spec volSizeMB. is_create env spec c \<and>
     create_Name spec = Name req \<and> create_VolumeType spec = BlockVolumeType \<and>
     RoundUpSize (requestedBytes req) MbInBytes = Inr volSizeMB \<and>
     create_Backing spec = BackingObjectDetails volSizeMB \<and>
     placed ienv (requestedURL req) shared (create_Datastores spec))"

lemma CreateVolumeUtil_attempted:
  assumes "run_state (CreateVolumeUtil env ienv m spec shared) s = (r, s')"
  shows "attempted (\<lambda>c. \<exists>cs. is_create env cs c \<and> create_Name cs = spec_Name spec \<and>
      create_VolumeType cs = BlockVolumeType \<and> create_Backing cs = BackingObjectDetails (spec_CapacityMB spec) \<and>
      placed ienv (spec_DatastoreURL spec) shared (create_Datastores cs)) s r s'" (is "attempted ?does s r s'")
  using assms unfolding CreateVolumeUtil_def
proof (rule read_then_attempt, goal_cases)
  case (2 vc t)
  from 2(2) show ?case
  proof (rule read_then_attempt, goal_cases)
    case (2 policy t1)
    from 2(2) show ?case
    proof (rule read_then_attempt, goal_cases)
      case (2 datastores t2)
      note placed = chooseDatastores_placed [OF 2(1)]
      from 2(2) show ?case
      proof (rule read_then_attempt, goal_cases)
        case (2 vcenter t3)
        then show ?case
          using placed by (auto simp: attempted_def split: option.splits
              dest!: CreateVolume_attempted [unfolded attempted_def])
             (force intro: exI)+
      qed (intro emits_rules)
    qed (intro emits_rules, simp)
  qed (intro emits_rules, simp)
qed (intro emits_rules, simp)

lemma ControllerCreateVolume_run:
  assumes "run_state (ControllerCreateVolume env ienv kenv m rnd req) s = (r, s')"
    and "validateVanillaCreateVolumeRequest req = Inr ()" and "RoundUpSize (requestedBytes req) MbInBytes = Inr mb"
    and "scanParameters (Parameters req) ([], [], []) (Parameters req) = (url, policy, fsType)"
  shows "run_state (bindE (sharedDatastoresFor env ienv kenv m req url) (\<lambda>(shared, tmap).
     handle (CreateVolumeUtil env ienv m \<lparr>spec_Name = Name req, spec_StoragePolicyName = policy,
         spec_DatastoreURL = url, spec_CapacityMB = mb\<rparr> shared)
       (\<lambda>err. State_Monad.return (Inl (Status Internal ''Failed to create volume. Error: %+v'')))
       (\<lambda>volumeID. bindE (volumeTopology env m rnd volumeID tmap) (\<lambda>topo. State_Monad.return (Inr
          \<lparr>VolumeId = volumeID, CapacityBytes = wrap64 (mb * MbInBytes),
           VolumeContext = [(AttributeDiskType, DiskTypeString), (AttributeFsType, fsType)],
           AccessibleTopology = (if topo \<noteq> [] then [topo] else [])\<rparr>))))) s = (r, s')"
  using assms by (simp add: ControllerCreateVolume_def)

lemma ControllerCreateVolume_attempted:
  assumes run: "run_state (ControllerCreateVolume env ienv kenv m rnd req) s = (r, s')"
  shows "attempted (\<lambda>c. \<exists>shared tmap t.
      run_state (sharedDatastoresFor env ienv kenv m req (requestedURL req)) s = (Inr (shared, tmap), t) \<and>
      provisions env ienv req shared c) s r s'" (is "attempted ?does s r s'")
proof (cases "validateVanillaCreateVolumeRequest req")
  case (Inl e) with run show ?thesis by (auto simp: ControllerCreateVolume_def attempted_def)
next
  case valid: (Inr u)
  show ?thesis
  proof (cases "RoundUpSize (requestedBytes req) MbInBytes")
    case (Inl e) with run valid show ?thesis by (auto simp: ControllerCreateVolume_def attempted_def)
  next
    case size: (Inr mb)
    obtain url policy fsType where params:
      "scanParameters (Parameters req) ([], [], []) (Parameters req) = (url, policy, fsType)"
      by (metis prod_cases3)
    then have url: "url = requestedURL req" by (simp add: requestedURL_def)
    have "validateVanillaCreateVolumeRequest req = Inr ()" using valid by simp
    from ControllerCreateVolume_run [OF run this size params] show ?thesis
    proof (rule read_then_attempt, goal_cases)
      case 1 show ?case by (intro emits_rules) simp
    next
      case (2 x t)
      obtain shared tmap where x: "x = (shared, tmap)" by (cases x)
      from 2(2) show ?case unfolding x prod.case
      proof (rule attempt_then_read, goal_cases)
        case (1 r1 t1)
        from CreateVolumeUtil_attempted [OF this] show ?case
          by (rule attempted_mono) (use 2(1) x size url in \<open>auto simp: provisions_def\<close>)
      next
        case (2 vol) show ?case by (intro emits_rules) simp
      qed
    qed
  qed
qed

text \<open>The response of a successful creation.\<close>

lemma ControllerCreateVolume_response:
  assumes run: "run_state (ControllerCreateVolume env ienv kenv m rnd req) s = (Inr resp, s')"
  obtains mb url policy fsType where "RoundUpSize (requestedBytes req) MbInBytes = Inr mb"
    and "CapacityBytes resp = wrap64 (mb * MbInBytes)"
    and "scanParameters (Parameters req) ([], [], []) (Parameters req) = (url, policy, fsType)"
    and "VolumeContext resp = [(AttributeDiskType, DiskTypeString), (AttributeFsType, fsType)]"
proof -
  from run obtain mb where valid: "validateVanillaCreateVolumeRequest req = Inr ()"
    and size: "RoundUpSize (requestedBytes req) MbInBytes = Inr mb"
    by (auto simp: ControllerCreateVolume_def split: sum.splits)
  obtain url policy fsType where params:
    "scanParameters (Parameters req) ([], [], []) (Parameters req) = (url, policy, fsType)"
    by (metis prod_cases3)
  from ControllerCreateVolume_run [OF run valid size params] have
    "CapacityBytes resp = wrap64 (mb * MbInBytes) \<and>
     VolumeContext resp = [(AttributeDiskType, DiskTypeString), (AttributeFsType, fsType)]"
    by (auto split: prod.splits sum.splits error.splits)
  with that size params show ?thesis by blast
qed

lemma scanParameters_fsType:
  "scanParameters params (u, p, f) entries = (url, policy, fsType) \<Longrightarrow>
   fsType = f \<or> fsType = segment params AttributeFsType"
  by (induction params "(u, p, f)" entries arbitrary: u p f rule: scanParameters.induct)
     (auto split: if_splits)

lemma steady_AttachVolume: "steady I \<Longrightarrow> keeps I (AttachVolume env m vm vol)"
  unfolding AttachVolume_def GetDiskAttachedToVM_def
  by (intro steady_withCNS keeps_bindE steady_cnsTask keeps_return keeps_case_option keeps_if steady_perform)

lemma steady_DetachVolume: "steady I \<Longrightarrow> keeps I (DetachVolume env m vm vol)"
  unfolding DetachVolume_def GetDiskAttachedToVM_def
  by (intro steady_withCNS keeps_bindE keeps_handle steady_cnsTask keeps_return keeps_case_option keeps_if steady_perform)

text \<open>The registry of nodes is left alone while a volume is attached or detached.\<close>

lemma node_names_kept:
  assumes "\<And>I :: 'z nodes_scheme \<Rightarrow> bool. steady I \<Longrightarrow> keeps I m" and "run_state m s = (r, s')"
  shows "nodeNameToUUID s' = nodeNameToUUID s \<and> nodeVMs s' = nodeVMs s"
  by (rule keepsD [OF assms(1) assms(2), of "\<lambda>t. nodeNameToUUID t = nodeNameToUUID s \<and> nodeVMs t = nodeVMs s"])
     (auto intro: steadyI)

lemma GetNodeByName_target:
  assumes run: "run_state (GetNodeByName env ienv kenv nodeName) s = (Inr vm, s')" and inv: "nodes_inv s"
  shows "\<exists>nodeUUID. map_of (nodeNameToUUID s') nodeName = Some nodeUUID \<and> map_of (nodeVMs s') nodeUUID = Some vm \<and>
    vm_UUID vm = ToLower (TrimSpace nodeUUID)"
proof -
  have inv': "nodes_inv s'" using keepsD [OF keeps_GetNodeByName run inv] .
  obtain u t where get: "run_state (GetNode env ienv u) t = (Inr vm, s')" and "nodes_inv t"
    and "map_of (nodeNameToUUID t) nodeName = Some u"
  proof -
    obtain u where u: "map_of (nodeNameToUUID s) nodeName = Some u"
      using run by (auto simp: GetNodeByName_def split: option.splits)
    show ?thesis
    proof (cases "u = []")
      case False with run u inv that show ?thesis by (simp add: GetNodeByName_def)
    next
      case True
      with run u obtain k s1 where k: "run_state (GetNodeVMUUID kenv nodeName) s = (Inr k, s1)"
        and rest: "run_state (GetNode env ienv k) (s1\<lparr>nodeNameToUUID := AList.update nodeName k (nodeNameToUUID s1)\<rparr>)
          = (Inr vm, s')"
        by (auto simp: GetNodeByName_def storeName_def split: prod.splits sum.splits)
      have "nodes_inv (s1\<lparr>nodeNameToUUID := AList.update nodeName k (nodeNameToUUID s1)\<rparr>)"
        using keepsD [OF keeps_GetNodeVMUUID k inv] by (simp add: nodes_inv_def distinct_update)
      with rest that show ?thesis by (auto simp: update_conv')
    qed
  qed
  with GetNode_result [OF get] map_of_nodes_inv [OF inv'] show ?thesis by auto
qed

text \<open>
  Publishing and unpublishing have one shape: find the virtual machine of the node, then change one
  attachment of that machine.
\<close>

definition on_node_vm :: "(moref \<Rightarrow> call \<Rightarrow> bool) \<Rightarrow> string \<Rightarrow> 'z nodes_scheme \<Rightarrow> call \<Rightarrow> bool" where
  "on_node_vm does nodeName s c \<longleftrightarrow> (\<exists>(vm :: virtual_machine) nodeUUID. does (vm_ref vm) c \<and>
     map_of (nodeNameToUUID s) nodeName = Some nodeUUID \<and> map_of (nodeVMs s) nodeUUID = Some vm \<and>
     vm_UUID vm = ToLower (TrimSpace nodeUUID))"

lemma node_change_attempted:
  assumes run: "run_state (handle (GetNodeByName env ienv kenv nodeName) (\<lambda>err. State_Monad.return (Inl (h err)))
      (\<lambda>node. handle (change node) (\<lambda>err. State_Monad.return (Inl (h' err))) (\<lambda>x. State_Monad.return (Inr (k x))))) s = (r, s')"
    and inv: "nodes_inv s"
    and kept: "\<And>vm. (\<And>I :: 'z nodes_scheme \<Rightarrow> bool. steady I \<Longrightarrow> keeps I (change vm))"
    and does: "\<And>vm t r1 t'. run_state (change vm) t = (r1, t') \<Longrightarrow> attempted (does (vm_ref vm)) t r1 t'"
  shows "attempted (on_node_vm does nodeName s') s r s'"
  using run
proof (rule handle_read_then_attempt, goal_cases)
  case 1 show ?case by (intro emits_rules) simp
next
  case (2 vm t)
  obtain u where u: "map_of (nodeNameToUUID t) nodeName = Some u" "map_of (nodeVMs t) u = Some vm"
    "vm_UUID vm = ToLower (TrimSpace u)"
    using GetNodeByName_target [OF 2(1) inv] by blast
  obtain r1 t1 where c: "run_state (change vm) t = (r1, t1)" by fastforce
  with 2(2) have "s' = t1" by (auto split: sum.splits error.splits)
  with node_names_kept [OF kept c] have "nodeNameToUUID s' = nodeNameToUUID t" "nodeVMs s' = nodeVMs t" by simp_all
  with u have node: "does (vm_ref vm) k \<Longrightarrow> on_node_vm does nodeName s' k" for k
    by (auto simp: on_node_vm_def)
  from 2(2) show ?case
  proof (rule attempt_then_read, goal_cases)
    case (1 r1 t1) then show ?case using does attempted_mono node by blast
  next
    case (2 x) show ?case by (rule emits_return)
  qed
qed

lemma ControllerPublishVolume_attempted:
  assumes run: "run_state (ControllerPublishVolume env ienv kenv m req) s = (r, s')" and inv: "nodes_inv s"
  shows "attempted (on_node_vm (\<lambda>vm. is_attach (vm, publish_VolumeId req)) (publish_NodeId req) s') s r s'"
proof (cases "validateVanillaControllerPublishVolumeRequest req")
  case (Inl e)
  with run show ?thesis by (auto simp: ControllerPublishVolume_def attempted_def)
next
  case (Inr u)
  with run show ?thesis unfolding ControllerPublishVolume_def AttachVolumeUtil_def
    by (intro node_change_attempted [OF _ inv]) (auto intro: steady_AttachVolume AttachVolume_attempted)
qed

section \<open>Properties\<close>

text \<open>
  C5. A create request makes at most one creation in CNS, and exactly one when it succeeds: a block
  volume with the requested name, of the requested size rounded up to mebibytes, on datastores
  that the nodes (or the nodes of the requested topology) share; when the storage class names a
  datastore, on that one only, and only if it is shared.\<close>

theorem ControllerCreateVolume_creates:
  assumes "run_state (ControllerCreateVolume env ienv kenv m rnd req) s = (r, s')"
  shows "attempted (\<lambda>c. \<exists>shared tmap t.
      run_state (sharedDatastoresFor env ienv kenv m req (requestedURL req)) s = (Inr (shared, tmap), t) \<and>
      provisions env ienv req shared c) s r s'"
  using assms by (rule ControllerCreateVolume_attempted)

text \<open>
  C37. The capacity of a created volume is at least the requested one and less than a mebibyte larger,
  for requests up to one mebibyte below the largest \<open>int64\<close>; above that the multiplication
  overflows and the response reports the smallest \<open>int64\<close>, a negative capacity.\<close>

theorem CreateVolume_capacity:
  assumes "run_state (ControllerCreateVolume env ienv kenv m rnd req) s = (Inr resp, s')"
    and "0 \<le> requestedBytes req" and "requestedBytes req < 2 ^ 63"
  shows "if requestedBytes req \<le> 2 ^ 63 - MbInBytes
    then requestedBytes req \<le> CapacityBytes resp \<and> CapacityBytes resp < requestedBytes req + MbInBytes
    else CapacityBytes resp = - (2 ^ 63)"
proof -
  obtain mb where size: "RoundUpSize (requestedBytes req) MbInBytes = Inr mb"
    and cap: "CapacityBytes resp = wrap64 (mb * MbInBytes)"
    using assms(1) by (rule ControllerCreateVolume_response)
  obtain mb' where mb': "RoundUpSize (requestedBytes req) MbInBytes = Inr mb'" "0 \<le> mb'" "mb' \<le> 2 ^ 43"
    and bounds: "requestedBytes req \<le> mb' * MbInBytes" "mb' * MbInBytes < requestedBytes req + MbInBytes"
    using assms(2,3) by (rule RoundUpSize_Mb)
  with size have mb: "mb' = mb" by simp
  show ?thesis
  proof (cases "requestedBytes req \<le> 2 ^ 63 - MbInBytes")
    case True
    with bounds mb mb'(2) have "wrap64 (mb * MbInBytes) = mb * MbInBytes"
      by (intro wrap64_id) (auto simp: MbInBytes_def)
    with True bounds mb cap show ?thesis by simp
  next
    case False
    with bounds mb mb'(3) have "mb = 2 ^ 43" by (simp add: MbInBytes_def)
    with False cap show ?thesis by (simp add: MbInBytes_def wrap64_def)
  qed
qed

text \<open>
  The file system type of a storage class is lost unless its parameter is spelled exactly
  \<open>fstype\<close>: with any other capitalisation, which the validation accepts, the volume context carries
  the empty type.\<close>

lemma CreateVolume_fstype_lost:
  assumes "run_state (ControllerCreateVolume env ienv kenv m rnd req) s = (Inr resp, s')"
    and "map_of (Parameters req) AttributeFsType = None"
  shows "map_of (VolumeContext resp) AttributeFsType = Some []"
proof -
  obtain url policy fsType where
      params: "scanParameters (Parameters req) ([], [], []) (Parameters req) = (url, policy, fsType)"
    and ctx: "VolumeContext resp = [(AttributeDiskType, DiskTypeString), (AttributeFsType, fsType)]"
    using assms(1) by (rule ControllerCreateVolume_response)
  from scanParameters_fsType [OF params] assms(2) have "fsType = []" by (auto simp: segment_def)
  with ctx show ?thesis by (simp add: attribute_defs)
qed

text \<open>
  C13. Publishing a volume to a node attaches that volume, at most once and exactly once on success, to
  the virtual machine registered for the node under its UUID, and to no other machine.\<close>

theorem ControllerPublishVolume_attaches:
  assumes "run_state (ControllerPublishVolume env ienv kenv m req) s = (r, s')" and "nodes_inv s"
  shows "attempted (on_node_vm (\<lambda>vm. is_attach (vm, publish_VolumeId req)) (publish_NodeId req) s') s r s'"
  using assms by (rule ControllerPublishVolume_attempted)

text \<open>
  Unpublishing a volume from a node detaches that volume, at most once and exactly once on success,
  from the virtual machine of the UUID registered for the node, and from no other machine.\<close>

lemma ControllerUnpublishVolume_detaches:
  assumes run: "run_state (ControllerUnpublishVolume env ienv kenv m volumeID nodeID) s = (r, s')" and inv: "nodes_inv s"
  shows "attempted (on_node_vm (\<lambda>vm. is_detach (vm, volumeID)) nodeID s') s r s'"
proof (cases "validateVanillaControllerUnpublishVolumeRequest volumeID nodeID")
  case (Inl e)
  with run show ?thesis by (auto simp: ControllerUnpublishVolume_def attempted_def)
next
  case (Inr u)
  with run show ?thesis unfolding ControllerUnpublishVolume_def DetachVolumeUtil_def
    by (intro node_change_attempted [OF _ inv]) (auto intro: steady_DetachVolume DetachVolume_attempted)
qed

section \<open>Witnesses\<close>

definition sample_manager :: common_manager where
  "sample_manager = \<lparr>VcenterConfig = sample_conf, CnsConfig = vc_sample_config, VolumeManager = Some 0\<rparr>"

definition sample_create :: create_volume_request where
  "sample_create = \<lparr>Name = ''pvc-1'', RequiredBytes = Some 5000000,
     VolumeCapabilities = [\<lparr>AccessMode = Some SINGLE_NODE_WRITER, AccessType = Some (MountAccess [] [])\<rparr>],
     Parameters = [(''fsType'', ''xfs'')], AccessibilityRequirements = None\<rparr>"

definition sample_publish :: publish_volume_request where
  "sample_publish = \<lparr>publish_VolumeId = ''vol-1'', publish_NodeId = ''node1'',
     publish_VolumeCapability = Some \<lparr>AccessMode = Some SINGLE_NODE_WRITER, AccessType = Some (MountAccess [] [])\<rparr>\<rparr>"

lemma sample_manager_sel:
  "VcenterConfig sample_manager = sample_conf" "CnsConfig sample_manager = vc_sample_config"
  "VolumeManager sample_manager = Some 0"
  by (simp_all add: sample_manager_def)

lemma sample_create_sel:
  "Name sample_create = ''pvc-1''" "RequiredBytes sample_create = Some 5000000"
  "Parameters sample_create = [(''fsType'', ''xfs'')]" "AccessibilityRequirements sample_create = None"
  by (simp_all add: sample_create_def)

lemma sample_create_valid:
  "validateVanillaCreateVolumeRequest sample_create = Inr ()" "requestedBytes sample_create = 5000000"
  "RoundUpSize 5000000 MbInBytes = Inr 5"
  "scanParameters [(''fsType'', ''xfs'')] ([], [], []) [(''fsType'', ''xfs'')] = ([], [], [])"
     apply (simp_all add: validateVanillaCreateVolumeRequest_def ValidateCreateVolumeRequest_def sample_create_def
      IsValidVolumeCapabilities_def VolumeCaps_def GetMode_def attribute_defs ToLower_def ToLower_char_def
      requestedBytes_def RoundUpSize_def MbInBytes_def wrap64_def segment_def sdiv_smod_nonneg char_of_def bit_simps)
  done

text \<open>The creation of a volume on the sample inventory succeeds.\<close>

lemma sample_create_volume:
  assumes "virtualCenters s = [(''vc1'', 0)]" and "vcs s 0 = Some vc" and "conf_Host (vc_Config vc) = ''vc1''"
  shows "\<exists>s'. run_state (CreateVolumeUtil sample_env sample_ienv sample_manager
      \<lparr>spec_Name = name, spec_StoragePolicyName = [], spec_DatastoreURL = [], spec_CapacityMB = mb\<rparr> shared) s = (Inr ''vol-1'', s')"
  using assms
  apply (cases "vc_Client vc"; cases "vc_CnsClient vc")
  apply (simp_all add: CreateVolumeUtil_def GetVCenter_def policyProfile_def chooseDatastores_def CreateVolume_def
      vc_program_defs sample_env_answers sample_manager_sel sample_conf_def vc_sample_config_def withCNS_def
      validateManager_def cnsTask_def cnsClient_def sessionUser_def checkFault_def Let_def)
  done

lemma sample_ControllerCreateVolume:
  obtains resp s' where "run_state (ControllerCreateVolume sample_env sample_ienv sample_k8s sample_manager 0 sample_create)
      sample_nodes = (Inr resp, s')"
proof -
  obtain vm s1 vc where nodes: "run_state (GetAllNodes sample_env sample_k8s) sample_nodes = (Inr [vm], s1)"
    and s1: "virtualCenters s1 = [(''vc1'', 0)]" "vcs s1 0 = Some vc" "conf_Host (vc_Config vc) = ''vc1''"
    using sample_nodes_connected by blast
  obtain ds s2 where acc: "run_state (GetAllAccessibleDatastores sample_ienv vm) s1 = (Inr ds, s2)"
    and "map di_Url ds = [''url-ds1'', ''url-ds2'']" and s2: "vcs s2 = vcs s1" "virtualCenters s2 = virtualCenters s1"
    by (simp add: GetAllAccessibleDatastores_def hostAccessibleDatastores_def sample_ienv_answers)
  then have "ds \<noteq> []" by auto
  with nodes acc have shared: "run_state (sharedDatastoresFor sample_env sample_ienv sample_k8s sample_manager sample_create [])
      sample_nodes = (Inr (ds, []), s2)"
    by (simp add: sharedDatastoresFor_def sample_create_sel GetSharedDatastoresInK8SCluster_def
        GetSharedDatastoresForVMs_def Let_def)
  obtain s3 where create: "run_state (CreateVolumeUtil sample_env sample_ienv sample_manager \<lparr>spec_Name = ''pvc-1'',
      spec_StoragePolicyName = [], spec_DatastoreURL = [], spec_CapacityMB = 5\<rparr> ds) s2 = (Inr ''vol-1'', s3)"
    using sample_create_volume [of s2 vc "''pvc-1''" 5 ds] s1 s2 by auto
  from shared create that show ?thesis
    by (simp add: ControllerCreateVolume_def sample_create_valid sample_create_sel volumeTopology_def
        del: scanParameters.simps)
qed

theorem ControllerCreateVolume_creates_witness:
  "\<exists>resp s' shared c. run_state (ControllerCreateVolume sample_env sample_ienv sample_k8s sample_manager 0 sample_create)
      sample_nodes = (Inr resp, s') \<and> provisions sample_env sample_ienv sample_create shared c \<and>
      mutations s' = mutations sample_nodes @ [c]"
proof -
  obtain resp s' where run: "run_state (ControllerCreateVolume sample_env sample_ienv sample_k8s sample_manager 0 sample_create)
      sample_nodes = (Inr resp, s')" by (rule sample_ControllerCreateVolume)
  from ControllerCreateVolume_creates [OF run] run show ?thesis unfolding attempted_def by blast
qed

theorem CreateVolume_capacity_witness:
  "\<exists>resp s'. run_state (ControllerCreateVolume sample_env sample_ienv sample_k8s sample_manager 0 sample_create)
      sample_nodes = (Inr resp, s') \<and> 5000000 \<le> CapacityBytes resp \<and> CapacityBytes resp < 5000000 + MbInBytes"
proof -
  obtain resp s' where run: "run_state (ControllerCreateVolume sample_env sample_ienv sample_k8s sample_manager 0 sample_create)
      sample_nodes = (Inr resp, s')" by (rule sample_ControllerCreateVolume)
  from CreateVolume_capacity [OF run] run show ?thesis by (simp add: sample_create_valid MbInBytes_def)
qed

lemma CreateVolume_fstype_lost_witness:
  "\<exists>resp s'. run_state (ControllerCreateVolume sample_env sample_ienv sample_k8s sample_manager 0 sample_create)
      sample_nodes = (Inr resp, s') \<and> map_of (VolumeContext resp) AttributeFsType = Some []"
proof -
  obtain resp s' where run: "run_state (ControllerCreateVolume sample_env sample_ienv sample_k8s sample_manager 0 sample_create)
      sample_nodes = (Inr resp, s')" by (rule sample_ControllerCreateVolume)
  from CreateVolume_fstype_lost [OF run] run show ?thesis by (simp add: sample_create_sel attribute_defs)
qed

theorem ControllerPublishVolume_attaches_witness:
  "\<exists>r s'. run_state (ControllerPublishVolume sample_env sample_ienv sample_k8s sample_manager sample_publish) sample_nodes
      = (r, s') \<and>
     attempted (on_node_vm (\<lambda>vm. is_attach (vm, ''vol-1'')) ''node1'' s') sample_nodes r s'"
proof -
  obtain r s' where run: "run_state (ControllerPublishVolume sample_env sample_ienv sample_k8s sample_manager sample_publish)
      sample_nodes = (r, s')" by fastforce
  from ControllerPublishVolume_attaches [OF run sample_nodes_inv(1)] run show ?thesis
    by (auto simp: sample_publish_def)
qed

lemma ControllerUnpublishVolume_detaches_witness:
  "\<exists>r s'. run_state (ControllerUnpublishVolume sample_env sample_ienv sample_k8s sample_manager ''vol-1'' ''node1'') sample_nodes
      = (r, s') \<and>
     attempted (on_node_vm (\<lambda>vm. is_detach (vm, ''vol-1'')) ''node1'' s') sample_nodes r s'"
proof -
  obtain r s' where run: "run_state (ControllerUnpublishVolume sample_env sample_ienv sample_k8s sample_manager ''vol-1'' ''node1'')
      sample_nodes = (r, s')" by fastforce
  from ControllerUnpublishVolume_detaches [OF run sample_nodes_inv(1)] run show ?thesis by blast
qed

end
