(* ===== verification/Controller_Run.thy ===== *)
theory Controller_Run
  imports Controller
begin

text \<open>
  The running controller: what happens after \<open>Init\<close>, when the CSI sidecars send volume requests and the informer
  reports nodes. Every request is answered, with a response or an error, before the next one is taken up; requests that
  the server serves at the same time are not interleaved here. A run may go on after a panic, which ends the program: the
  runs include those of the program.
\<close>

section \<open>Requests and runs\<close>

datatype request =
    CreateRequest nat create_volume_request  \<comment> \<open>with the random number that picks a topology\<close>
  | DeleteRequest string
  | PublishRequest publish_volume_request
  | UnpublishRequest string string
  | NodeAdded "(string \<times> string) option"
  | NodeDeleted "(string \<times> string) option"

definition serve ::
  "env \<Rightarrow> inventory_env \<Rightarrow> k8s_env \<Rightarrow> common_manager \<Rightarrow> request \<Rightarrow> ('z, unit) nodesE" where
  "serve env ienv kenv m request = (case request of
     CreateRequest rnd req \<Rightarrow> bindE (ControllerCreateVolume env ienv kenv m rnd req) (\<lambda>_. State_Monad.return (Inr ()))
   | DeleteRequest volumeID \<Rightarrow> ControllerDeleteVolume env m volumeID
   | PublishRequest req \<Rightarrow> bindE (ControllerPublishVolume env ienv kenv m req) (\<lambda>_. State_Monad.return (Inr ()))
   | UnpublishRequest volumeID nodeID \<Rightarrow> ControllerUnpublishVolume env ienv kenv m volumeID nodeID
   | NodeAdded obj \<Rightarrow> nodeAdd env ienv obj
   | NodeDeleted obj \<Rightarrow> nodeDelete obj)"

text \<open>A run from a state, with the log of the requests and their answers.\<close>

inductive controller_run ::
  "env \<Rightarrow> inventory_env \<Rightarrow> k8s_env \<Rightarrow> common_manager \<Rightarrow> 'z nodes_scheme \<Rightarrow> (request \<times> (error + unit)) list \<Rightarrow>
   'z nodes_scheme \<Rightarrow> bool"
  for env ienv kenv m s0 where
  start: "controller_run env ienv kenv m s0 [] s0"
| request:
    "controller_run env ienv kenv m s0 log s \<Longrightarrow> run_state (serve env ienv kenv m request) s = (r, s') \<Longrightarrow>
     controller_run env ienv kenv m s0 (log @ [(request, r)]) s'"

inductive_cases controller_run_snoc: "controller_run env ienv kenv m s0 (log @ [entry]) s"

section \<open>The interface: what the registry of nodes keeps about its entries\<close>

text \<open>
  Two facts about the entries, one for the virtual machines by UUID and one for the UUIDs by name, that hold of what vCenter
  and Kubernetes report and survive a renewal, hold of the registry at all times.
\<close>

definition entries_ok ::
  "(string \<Rightarrow> virtual_machine \<Rightarrow> bool) \<Rightarrow> (string \<Rightarrow> string \<Rightarrow> bool) \<Rightarrow> 'z nodes_scheme \<Rightarrow> bool" where
  "entries_ok ok_vm ok_name s \<longleftrightarrow> distinct (map fst (nodeVMs s)) \<and> distinct (map fst (nodeNameToUUID s)) \<and>
     (\<forall>(u, vm) \<in> set (nodeVMs s). ok_vm u vm) \<and> (\<forall>(n, u) \<in> set (nodeNameToUUID s). ok_name n u)"

locale node_facts =
  fixes ok_vm :: "string \<Rightarrow> virtual_machine \<Rightarrow> bool" and ok_name :: "string \<Rightarrow> string \<Rightarrow> bool"
    and ienv :: inventory_env and kenv :: k8s_env
  assumes found: "reported ienv u False vm \<Longrightarrow> ok_vm u vm"
    and renewed: "ok_vm u vm \<Longrightarrow> same_vm vm vm' \<Longrightarrow> ok_vm u vm'"
    and answered: "ans_GetNode kenv n h = Inr providerID \<Longrightarrow> ok_name n (GetUUIDFromProviderID providerID)"
begin

lemma steady_entries: "steady (entries_ok ok_vm ok_name)"
  by (rule steadyI) (simp_all add: entries_ok_def)

lemma entries_vm: "entries_ok ok_vm ok_name s \<Longrightarrow> map_of (nodeVMs s) u = Some vm \<Longrightarrow> ok_vm u vm"
  by (auto simp: entries_ok_def dest: map_of_SomeD)

lemma entries_name: "entries_ok ok_vm ok_name s \<Longrightarrow> map_of (nodeNameToUUID s) n = Some u \<Longrightarrow> ok_name n u"
  by (auto simp: entries_ok_def dest: map_of_SomeD)

lemma update_vm: "entries_ok ok_vm ok_name s \<Longrightarrow> ok_vm u vm \<Longrightarrow> entries_ok ok_vm ok_name (s\<lparr>nodeVMs := AList.update u vm (nodeVMs s)\<rparr>)"
  using set_AList_update [of u vm "nodeVMs s"] by (auto simp: entries_ok_def distinct_update)

lemma update_name:
  "entries_ok ok_vm ok_name s \<Longrightarrow> ok_name n u \<Longrightarrow> entries_ok ok_vm ok_name (s\<lparr>nodeNameToUUID := AList.update n u (nodeNameToUUID s)\<rparr>)"
  using set_AList_update [of n u "nodeNameToUUID s"] by (auto simp: entries_ok_def distinct_update)

lemma ok_after_storeVM: "ok_vm u vm \<Longrightarrow> keeps (entries_ok ok_vm ok_name) (storeVM u vm)"
  unfolding storeVM_def by (rule keeps_assign) (rule update_vm)

lemma ok_after_storeName: "ok_name n u \<Longrightarrow> keeps (entries_ok ok_vm ok_name) (storeName n u)"
  unfolding storeName_def by (rule keeps_assign) (rule update_name)

lemma GetNodeVMUUID_ok:
  "run_state (GetNodeVMUUID kenv n) s = (r, s') \<Longrightarrow> (entries_ok ok_vm ok_name s' = entries_ok ok_vm ok_name s) \<and> (\<forall>u. r = Inr u \<longrightarrow> ok_name n u)"
  by (auto simp: GetNodeVMUUID_def entries_ok_def answered split: if_splits sum.splits)

lemma ok_after_DiscoverNode: "keeps (entries_ok ok_vm ok_name) (DiscoverNode env ienv u)"
proof (rule keepsI)
  fix s r s' assume run: "run_state (DiscoverNode env ienv u) s = (r, s')" and ok: "entries_ok ok_vm ok_name s"
  have "entries_ok ok_vm ok_name (s\<lparr>nodeVMs := AList.update u vm (nodeVMs s)\<rparr>)" if "reported ienv u False vm" for vm
    using ok that by (intro update_vm found)
  with DiscoverNode_run [OF run] ok show "entries_ok ok_vm ok_name s'" by (fastforce simp: entries_ok_def)
qed

lemma keeps_renewal:
  assumes "ok_vm u vm" and "\<And>vm'. same_vm vm vm' \<Longrightarrow> keeps (entries_ok ok_vm ok_name) (k vm')"
  shows "keeps (entries_ok ok_vm ok_name) (bindE (Renew env vm b) k)"
proof (rule keepsI)
  fix s r s' assume run: "run_state (bindE (Renew env vm b) k) s = (r, s')" and ok: "entries_ok ok_vm ok_name s"
  obtain r1 s1 where ren: "run_state (Renew env vm b) s = (r1, s1)" by fastforce
  have ok1: "entries_ok ok_vm ok_name s1" by (rule keepsD [OF steady_Renew [OF steady_entries] ren ok])
  show "entries_ok ok_vm ok_name s'"
  proof (cases r1)
    case (Inr vm')
    with ren Renew_current have "same_vm vm vm'" by blast
    from keepsD [OF assms(2) [OF this] _ ok1] run ren Inr show ?thesis by simp
  qed (use run ren ok1 in simp)
qed

lemma ok_after_GetNode: "keeps (entries_ok ok_vm ok_name) (GetNode env ienv u)"
proof (rule keepsI)
  fix s :: "'a nodes_scheme" and r s' assume run: "run_state (GetNode env ienv u) s = (r, s')" and ok: "entries_ok ok_vm ok_name s"
  show "entries_ok ok_vm ok_name s'"
  proof (cases "map_of (nodeVMs s) u")
    case None
    with run show ?thesis using keepsD [OF ok_after_DiscoverNode _ ok]
      by (auto simp: GetNode_def split: prod.splits sum.splits)
  next
    case (Some vm)
    then have vm: "ok_vm u vm" by (rule entries_vm [OF ok])
    have "keeps (entries_ok ok_vm ok_name) (bindE (Renew env vm True) (\<lambda>vm'. do { storeVM u vm'; State_Monad.return (Inr vm') }))"
      by (intro keeps_renewal [OF vm] keeps_bind ok_after_storeVM renewed [OF vm] keeps_return)
    from keepsD [OF this _ ok] run Some show ?thesis by (simp add: GetNode_def)
  qed
qed

lemma keeps_asked:
  assumes "\<And>e. keeps (entries_ok ok_vm ok_name) (h e)" and "\<And>u. ok_name n u \<Longrightarrow> keeps (entries_ok ok_vm ok_name) (k u)"
  shows "keeps (entries_ok ok_vm ok_name) (handle (GetNodeVMUUID kenv n) h k)"
    and "keeps (entries_ok ok_vm ok_name) (bindE (GetNodeVMUUID kenv n) k)"
proof -
  have "entries_ok ok_vm ok_name s'"
    if run: "run_state (handle (GetNodeVMUUID kenv n) h k) s = (r, s') \<or> run_state (bindE (GetNodeVMUUID kenv n) k) s = (r, s')"
      and ok: "entries_ok ok_vm ok_name s" for s r s'
  proof -
    obtain r1 s1 where get: "run_state (GetNodeVMUUID kenv n) s = (r1, s1)" by fastforce
    note ok1 = GetNodeVMUUID_ok [OF get]
    with ok have s1: "entries_ok ok_vm ok_name s1" by simp
    show ?thesis
      using run get ok1 s1 keepsD [OF assms(1) _ s1] keepsD [OF assms(2) _ s1]
      by (cases r1) (auto split: error.splits)
  qed
  then show "keeps (entries_ok ok_vm ok_name) (handle (GetNodeVMUUID kenv n) h k)"
    "keeps (entries_ok ok_vm ok_name) (bindE (GetNodeVMUUID kenv n) k)"
    by (blast intro: keepsI)+
qed

lemma ok_after_GetNodeByName: "keeps (entries_ok ok_vm ok_name) (GetNodeByName env ienv kenv n)"
  unfolding GetNodeByName_def
  by (intro keeps_bind keeps_get keeps_case_option keeps_return keeps_if ok_after_GetNode keeps_asked(2) ok_after_storeName)
     (rule keeps_return)

lemma ok_after_completeNames: "keeps (entries_ok ok_vm ok_name) (completeNames kenv entries)"
  by (induction entries)
     (auto intro!: keeps_return keeps_asked(1) keeps_bind ok_after_storeName)

lemma ok_after_renewNodes:
  "\<forall>(u, vm) \<in> set entries. ok_vm u vm \<Longrightarrow> keeps (entries_ok ok_vm ok_name) (renewNodes env hosts entries)"
proof (induction entries arbitrary: hosts)
  case (Cons entry entries)
  obtain u vm where entry: "entry = (u, vm)" by (cases entry)
  with Cons.prems have vm: "ok_vm u vm" and rest: "\<forall>(u, vm) \<in> set entries. ok_vm u vm" by auto
  show ?case unfolding entry renewNodes.simps
    by (intro keeps_renewal [OF vm] keeps_bind ok_after_storeVM renewed [OF vm] keeps_bindE keeps_return Cons.IH [OF rest])
qed (simp add: keeps_return)

lemma ok_after_GetAllNodes: "keeps (entries_ok ok_vm ok_name) (GetAllNodes env kenv)"
proof (rule keepsI)
  fix s :: "'a nodes_scheme" and r s' assume run: "run_state (GetAllNodes env kenv) s = (r, s')" and ok: "entries_ok ok_vm ok_name s"
  obtain r1 s1 where names: "run_state (completeNames kenv (nodeNameToUUID s)) s = (r1, s1)" by fastforce
  have ok1: "entries_ok ok_vm ok_name s1" by (rule keepsD [OF ok_after_completeNames names ok])
  then have "keeps (entries_ok ok_vm ok_name) (renewNodes env [] (nodeVMs s1))" by (intro ok_after_renewNodes) (simp add: entries_ok_def)
  from keepsD [OF this _ ok1] run names ok1 show "entries_ok ok_vm ok_name s'"
    by (cases r1) (auto simp: GetAllNodes_def)
qed

lemma ok_after_nodeAdd:
  "(\<And>p n. obj = Some (p, n) \<Longrightarrow> ok_name n (GetUUIDFromProviderID p)) \<Longrightarrow> keeps (entries_ok ok_vm ok_name) (nodeAdd env ienv obj)"
  unfolding nodeAdd_def RegisterNode_def
  by (intro keeps_case_option keeps_case_prod keeps_handle keeps_return keeps_bind ok_after_storeName ok_after_DiscoverNode) auto

lemma ok_after_nodeDelete: "keeps (entries_ok ok_vm ok_name) (nodeDelete obj)"
  unfolding nodeDelete_def UnregisterNode_def
  by (intro keeps_case_option keeps_case_prod keeps_handle keeps_return keeps_bind keeps_get keeps_assign)
     (auto simp: entries_ok_def AList.delete_eq distinct_map_filter)

end

section \<open>Where the entries of a run come from\<close>

text \<open>A virtual machine vCenter found for the UUID, renewed since.\<close>

definition vm_origin :: "inventory_env \<Rightarrow> string \<Rightarrow> virtual_machine \<Rightarrow> bool" where
  "vm_origin ienv u vm \<longleftrightarrow> (\<exists>vm0. reported ienv u False vm0 \<and> same_vm vm0 vm)"

text \<open>A UUID from the provider id of the node: the one its event carried, or the one Kubernetes answered.\<close>

definition uuid_origin :: "k8s_env \<Rightarrow> request list \<Rightarrow> string \<Rightarrow> string \<Rightarrow> bool" where
  "uuid_origin kenv reqs n u \<longleftrightarrow> (\<exists>providerID. u = GetUUIDFromProviderID providerID \<and>
     (NodeAdded (Some (providerID, n)) \<in> set reqs \<or> (\<exists>h. ans_GetNode kenv n h = Inr providerID)))"

lemma same_vm_trans: "same_vm a b \<Longrightarrow> same_vm b c \<Longrightarrow> same_vm a c"
  by (simp add: same_vm_def)

interpretation origin: node_facts "vm_origin ienv" "uuid_origin kenv reqs" ienv kenv for ienv kenv reqs
proof
  show "vm_origin ienv u vm" if "reported ienv u False vm" for u vm
    using that by (auto simp: vm_origin_def same_vm_def)
  show "vm_origin ienv u vm'" if "vm_origin ienv u vm" "same_vm vm vm'" for u vm vm'
    using that same_vm_trans by (auto simp: vm_origin_def)
qed (auto simp: uuid_origin_def)

lemma entries_mono:
  "entries_ok ok_vm (uuid_origin kenv reqs) s \<Longrightarrow> set reqs \<subseteq> set reqs' \<Longrightarrow> entries_ok ok_vm (uuid_origin kenv reqs') s"
  by (fastforce simp: entries_ok_def uuid_origin_def)

lemma entries_nodes_inv: "entries_ok (vm_origin ienv) ok_name s \<Longrightarrow> nodes_inv s"
  by (fastforce simp: entries_ok_def nodes_inv_def list_all_iff vm_origin_def reported_def same_vm_def)

section \<open>Every request keeps the registry\<close>

lemma steady_topology:
  assumes "steady I"
  shows "keeps I (getSharedDatastoresInTopology env ienv zc rc nodes ds tmap topos)"
proof -
  have "keeps I (getNodesInZoneRegion env ienv zc rc z r nodes)" for z r
    by (induction nodes) (auto intro!: keeps_bindE keeps_return steady_IsInZoneRegion assms)
  then show ?thesis
    by (induction topos arbitrary: ds tmap)
       (auto simp: Let_def intro!: keeps_bindE keeps_return keeps_GetSharedDatastoresForVMs assms)
qed

lemma steady_ConnectPbm: "steady I \<Longrightarrow> keeps I (ConnectPbm env a)"
  unfolding ConnectPbm_def resetPbmClient_def
  by (intro keeps_bindE keeps_bind keeps_if keeps_case_option keeps_case_sum keeps_return keeps_load_vc steady_Connect
      steady_perform steady_store_vc)

lemma steady_findDatastore: "steady I \<Longrightarrow> keeps I (findDatastore ienv url shared obj dcs)"
  by (induction dcs arbitrary: obj)
     (auto simp: GetDatastoreByURL_def datastoreMos_def Let_def
       intro!: keeps_handle keeps_bindE keeps_return keeps_if keeps_case_option steady_perform)

lemma steady_CreateVolumeUtil: "steady I \<Longrightarrow> keeps I (CreateVolumeUtil env ienv m spec shared)"
  unfolding CreateVolumeUtil_def GetVCenter_def policyProfile_def chooseDatastores_def GetStoragePolicyIDByName_def
    GetVirtualCenter_def
  by (intro keeps_bindE keeps_bind keeps_get keeps_if keeps_case_option keeps_case_prod keeps_return keeps_load_vc steady_Connect
      steady_ConnectPbm steady_perform steady_GetDatacenters steady_findDatastore steady_manager)

context node_facts
begin

lemma ok_after_sharedDatastoresFor: "keeps (entries_ok ok_vm ok_name) (sharedDatastoresFor env ienv kenv m req url)"
  unfolding sharedDatastoresFor_def GetSharedDatastoresInTopology_def GetSharedDatastoresInK8SCluster_def
  by (intro keeps_case_option keeps_if keeps_return keeps_handle keeps_bindE keeps_case_prod ok_after_GetAllNodes
      keeps_GetSharedDatastoresForVMs steady_topology steady_entries)

lemma ok_after_serve:
  assumes "\<And>p n. request = NodeAdded (Some (p, n)) \<Longrightarrow> ok_name n (GetUUIDFromProviderID p)"
  shows "keeps (entries_ok ok_vm ok_name) (serve env ienv kenv m request)"
proof (cases request)
  case (CreateRequest rnd req)
  show ?thesis
    unfolding CreateRequest serve_def request.case ControllerCreateVolume_def Let_def volumeTopology_def
    by (intro keeps_case_sum keeps_return keeps_bindE keeps_case_prod keeps_handle keeps_if ok_after_sharedDatastoresFor
        steady_CreateVolumeUtil steady_manager steady_entries)
next
  case (DeleteRequest vol)
  show ?thesis
    unfolding DeleteRequest serve_def request.case ControllerDeleteVolume_def DeleteVolumeUtil_def
    by (intro keeps_case_sum keeps_return keeps_handle steady_manager steady_entries)
next
  case (PublishRequest req)
  show ?thesis
    unfolding PublishRequest serve_def request.case ControllerPublishVolume_def AttachVolumeUtil_def
    by (intro keeps_case_sum keeps_return keeps_bindE keeps_handle ok_after_GetNodeByName steady_AttachVolume steady_entries)
next
  case (UnpublishRequest vol n)
  show ?thesis
    unfolding UnpublishRequest serve_def request.case ControllerUnpublishVolume_def DetachVolumeUtil_def
    by (intro keeps_case_sum keeps_return keeps_handle ok_after_GetNodeByName steady_DetachVolume steady_entries)
next
  case (NodeAdded obj)
  with assms show ?thesis by (auto simp: serve_def intro!: ok_after_nodeAdd)
next
  case (NodeDeleted obj)
  then show ?thesis by (simp add: serve_def ok_after_nodeDelete)
qed

end

section \<open>What a request changes\<close>

text \<open>Datastores that the virtual machines of some nodes have in common.\<close>

definition shared_by_nodes :: "inventory_env \<Rightarrow> datastore_info list \<Rightarrow> bool" where
  "shared_by_nodes ienv shared \<longleftrightarrow> (\<forall>d \<in> set shared. \<exists>vms accs. vms \<noteq> [] \<and> (\<forall>vm \<in> set vms. \<exists>u. vm_origin ienv u vm) \<and>
     list_all2 (accessible ienv) vms accs \<and> d \<in> set (intersection accs))"

text \<open>The virtual machine of a node, as vCenter reported it for a UUID the node had.\<close>

definition machine_of_node :: "inventory_env \<Rightarrow> k8s_env \<Rightarrow> request list \<Rightarrow> string \<Rightarrow> moref \<Rightarrow> bool" where
  "machine_of_node ienv kenv reqs n ref \<longleftrightarrow> (\<exists>u vm. uuid_origin kenv reqs n u \<and> reported ienv u False vm \<and> vm_ref vm = ref)"

fun request_change :: "env \<Rightarrow> inventory_env \<Rightarrow> k8s_env \<Rightarrow> request list \<Rightarrow> request \<Rightarrow> call \<Rightarrow> bool" where
  "request_change env ienv kenv reqs (CreateRequest rnd req) c \<longleftrightarrow>
     (\<exists>shared. shared_by_nodes ienv shared \<and> provisions env ienv req shared c)"
| "request_change env ienv kenv reqs (DeleteRequest vol) c \<longleftrightarrow> is_delete (vol, True) c"
| "request_change env ienv kenv reqs (PublishRequest req) c \<longleftrightarrow>
     (\<exists>ref. machine_of_node ienv kenv reqs (publish_NodeId req) ref \<and> is_attach (ref, publish_VolumeId req) c)"
| "request_change env ienv kenv reqs (UnpublishRequest vol n) c \<longleftrightarrow>
     (\<exists>ref. machine_of_node ienv kenv reqs n ref \<and> is_detach (ref, vol) c)"
| "request_change env ienv kenv reqs (NodeAdded obj) c \<longleftrightarrow> False"
| "request_change env ienv kenv reqs (NodeDeleted obj) c \<longleftrightarrow> False"

fun volume_request :: "request \<Rightarrow> bool" where
  "volume_request (NodeAdded _) = False"
| "volume_request (NodeDeleted _) = False"
| "volume_request _ = True"

lemma nodes_origin:
  assumes "list_all2 same_vm (map snd (nodeVMs s)) vms" and "entries_ok (vm_origin ienv) ok_name s" and "vm \<in> set vms"
  shows "\<exists>u. vm_origin ienv u vm"
proof -
  from assms(1,3) obtain old where "old \<in> snd ` set (nodeVMs s)" "same_vm old vm"
    by (fastforce simp: list_all2_conv_all_nth in_set_conv_nth)
  with assms(2) obtain u where "vm_origin ienv u old" by (auto simp: entries_ok_def)
  with \<open>same_vm old vm\<close> have "vm_origin ienv u vm" by (rule origin.renewed [rotated])
  then show ?thesis ..
qed

lemma sharedDatastoresFor_nodes:
  assumes run: "run_state (sharedDatastoresFor env ienv kenv m req url) s = (Inr (shared, tmap), s')"
    and ok: "entries_ok (vm_origin ienv) ok_name s"
  shows "shared_by_nodes ienv shared"
proof (cases "AccessibilityRequirements req")
  case None
  with run obtain vms s1 where nodes: "run_state (GetAllNodes env kenv) s = (Inr vms, s1)" and "vms \<noteq> []"
    and "run_state (GetSharedDatastoresForVMs ienv vms) s1 = (Inr shared, s')"
    by (auto simp: sharedDatastoresFor_def GetSharedDatastoresInK8SCluster_def
        split: prod.splits sum.splits error.splits if_splits)
  with GetSharedDatastoresForVMs_spec obtain accs where "list_all2 (accessible ienv) vms accs" "shared = intersection accs"
    by blast
  with \<open>vms \<noteq> []\<close> nodes_origin [OF GetAllNodes_same [OF nodes] ok] show ?thesis
    unfolding shared_by_nodes_def by blast
next
  case (Some topo)
  with run have "run_state (GetSharedDatastoresInTopology env ienv kenv (Some topo) (Labels_Zone (CnsConfig m))
      (Labels_Region (CnsConfig m))) s = (Inr (shared, tmap), s')" and "shared \<noteq> []"
    by (auto simp: sharedDatastoresFor_def split: prod.splits sum.splits error.splits if_splits)
  from topology_datastores_ok [OF this] obtain nodes topos where
      nodes: "list_all2 same_vm (map snd (nodeVMs s)) nodes"
    and "topology_ok (found_in env ienv (Labels_Zone (CnsConfig m)) (Labels_Region (CnsConfig m)) s') ienv nodes topos shared tmap"
    by blast
  then obtain shares where shares: "list_all2 (topology_share (found_in env ienv (Labels_Zone (CnsConfig m))
      (Labels_Region (CnsConfig m)) s') ienv nodes) topos shares" "shared = concat shares"
    unfolding topology_ok_def by blast
  have "\<exists>vms accs. vms \<noteq> [] \<and> set vms \<subseteq> set nodes \<and> list_all2 (accessible ienv) vms accs \<and> d \<in> set (intersection accs)"
    if d: "d \<in> set shared" for d
  proof -
    from d shares obtain topo share where "topology_share (found_in env ienv (Labels_Zone (CnsConfig m))
      (Labels_Region (CnsConfig m)) s') ienv nodes topo share" "d \<in> set share"
      by (fastforce simp: list_all2_conv_all_nth in_set_conv_nth)
    then obtain inside accs where "map fst (filter snd (zip nodes inside)) \<noteq> []"
      "list_all2 (accessible ienv) (map fst (filter snd (zip nodes inside))) accs" "d \<in> set (intersection accs)"
      by (auto simp: topology_share_def Let_def split: if_splits)
    moreover have "set (map fst (filter snd (zip nodes inside))) \<subseteq> set nodes" by (auto dest: set_zip_leftD)
    ultimately show ?thesis by blast
  qed
  then show ?thesis using nodes_origin [OF nodes ok] unfolding shared_by_nodes_def by (meson subsetD)
qed

lemma node_change_origin:
  assumes "on_node_vm does n s c" and "entries_ok (vm_origin ienv) (uuid_origin kenv reqs) s"
  shows "\<exists>ref. machine_of_node ienv kenv reqs n ref \<and> does ref c"
proof -
  from assms(1) obtain u and vm :: virtual_machine where does: "does (vm_ref vm) c"
    and "map_of (nodeNameToUUID s) n = Some u" "map_of (nodeVMs s) u = Some vm"
    unfolding on_node_vm_def by blast
  with origin.entries_vm [OF assms(2)] origin.entries_name [OF assms(2)]
  have "vm_origin ienv u vm" "uuid_origin kenv reqs n u" by auto
  then have "machine_of_node ienv kenv reqs n (vm_ref vm)"
    unfolding machine_of_node_def vm_origin_def same_vm_def by metis
  with does show ?thesis by blast
qed

text \<open>The log entry of a request and the changes it made: one, or none when the answer is an error.\<close>

definition accounts :: "env \<Rightarrow> inventory_env \<Rightarrow> k8s_env \<Rightarrow> request list \<Rightarrow> request \<times> (error + unit) \<Rightarrow> call list \<Rightarrow> bool" where
  "accounts env ienv kenv reqs entry cs \<longleftrightarrow> (case entry of (request, r) \<Rightarrow>
     (\<exists>c. cs = [c] \<and> request_change env ienv kenv reqs request c) \<or> cs = [] \<and> (volume_request request \<longrightarrow> (\<exists>e. r = Inl e)))"

lemma accounts_mono:
  assumes "accounts env ienv kenv reqs entry cs" and "set reqs \<subseteq> set reqs'"
  shows "accounts env ienv kenv reqs' entry cs"
proof -
  have "machine_of_node ienv kenv reqs' n ref" if "machine_of_node ienv kenv reqs n ref" for n ref
    using that assms(2) unfolding machine_of_node_def uuid_origin_def by blast
  then have "request_change env ienv kenv reqs' request c" if "request_change env ienv kenv reqs request c" for request c
    using that by (cases request) auto
  with assms(1) show ?thesis unfolding accounts_def by (cases entry) auto
qed

lemma attempted_accounts:
  assumes "attempted does s (r :: error + 'a) s'" and "volume_request request"
    and "\<And>c. does c \<Longrightarrow> request_change env ienv kenv reqs request c"
    and "\<And>e. r = Inl e \<Longrightarrow> r' = Inl e"
  shows "\<exists>cs. mutations s' = mutations s @ cs \<and> accounts env ienv kenv reqs (request, r') cs"
  using assms by (fastforce simp: attempted_def accounts_def)

lemma bindE_unit:
  assumes "run_state (bindE p (\<lambda>_. State_Monad.return (Inr ()))) s = (r, s')"
  obtains r1 where "run_state p s = (r1, s')" and "\<And>e. r1 = Inl e \<Longrightarrow> r = Inl e"
  using assms by (cases "run_state p s"; cases "fst (run_state p s)") auto

lemma reading_accounts:
  assumes "emits (\<lambda>c. \<not> cns_mutation c) p" and "run_state p s = (r, s')" and "\<not> volume_request request"
  shows "\<exists>cs. mutations s' = mutations s @ cs \<and> accounts env ienv kenv reqs (request, r') cs"
  using emits_mutations [OF assms(1,2)] assms(3) by (auto simp: accounts_def)

lemma serve_accounts:
  assumes run: "run_state (serve env ienv kenv m request) s = (r, s')"
    and ok: "entries_ok (vm_origin ienv) (uuid_origin kenv reqs) s"
    and ok': "entries_ok (vm_origin ienv) (uuid_origin kenv reqs) s'"
  shows "\<exists>cs. mutations s' = mutations s @ cs \<and> accounts env ienv kenv reqs (request, r) cs"
proof (cases request)
  case (CreateRequest rnd req)
  obtain r1 where r1: "run_state (ControllerCreateVolume env ienv kenv m rnd req) s = (r1, s')"
    "\<And>e. r1 = Inl e \<Longrightarrow> r = Inl e"
    using run [unfolded CreateRequest serve_def request.case] by (rule bindE_unit) (rule that)
  show ?thesis
    by (rule attempted_accounts [OF ControllerCreateVolume_attempted [OF r1(1)] _ _ r1(2)])
       (use CreateRequest sharedDatastoresFor_nodes [OF _ ok] in \<open>simp_all, blast\<close>)
next
  case (DeleteRequest vol)
  have "attempted (is_delete (vol, True)) s r s'"
  proof (cases "validateVanillaDeleteVolumeRequest vol")
    case (Inl e)
    with run DeleteRequest have "r = Inl e" "s' = s" by (simp_all add: serve_def ControllerDeleteVolume_def)
    then show ?thesis by (simp add: attempted_def)
  next
    case (Inr u)
    show ?thesis
      using run [unfolded DeleteRequest serve_def request.case ControllerDeleteVolume_def DeleteVolumeUtil_def Inr sum.case]
      by (rule attempt_then_read) (auto intro: DeleteVolume_attempted emits_return)
  qed
  with DeleteRequest show ?thesis by (intro attempted_accounts) auto
next
  case (PublishRequest req)
  obtain r1 where r1: "run_state (ControllerPublishVolume env ienv kenv m req) s = (r1, s')"
    "\<And>e. r1 = Inl e \<Longrightarrow> r = Inl e"
    using run [unfolded PublishRequest serve_def request.case] by (rule bindE_unit) (rule that)
  show ?thesis
    by (rule attempted_accounts [OF ControllerPublishVolume_attempted [OF r1(1) entries_nodes_inv [OF ok]] _ _ r1(2)])
       (use PublishRequest node_change_origin [OF _ ok'] in auto)
next
  case (UnpublishRequest vol n)
  with run have u: "run_state (ControllerUnpublishVolume env ienv kenv m vol n) s = (r, s')" by (simp add: serve_def)
  show ?thesis
    by (rule attempted_accounts [OF ControllerUnpublishVolume_detaches [OF u entries_nodes_inv [OF ok]]])
       (use UnpublishRequest node_change_origin [OF _ ok'] in auto)
next
  case (NodeAdded obj)
  then show ?thesis using run unfolding serve_def request.case
    by (intro reading_accounts [of "nodeAdd env ienv obj"])
       (auto simp: nodeAdd_def RegisterNode_def intro!: emits_rules)
next
  case (NodeDeleted obj)
  then show ?thesis using run unfolding serve_def request.case
    by (intro reading_accounts [of "nodeDelete obj"])
       (auto simp: nodeDelete_def UnregisterNode_def intro!: emits_rules)
qed

section \<open>Runs\<close>

lemma controller_run_accounts:
  assumes "controller_run env ienv kenv m s0 log s" and "nodeVMs s0 = []" and "nodeNameToUUID s0 = []"
  shows "entries_ok (vm_origin ienv) (uuid_origin kenv (map fst log)) s \<and>
    (\<exists>css. list_all2 (accounts env ienv kenv (map fst log)) log css \<and> mutations s = mutations s0 @ concat css)"
  using assms(1)
proof (induction rule: controller_run.induct)
  case start
  from assms(2,3) show ?case by (simp add: entries_ok_def)
next
  case (request log s request r s')
  let ?reqs = "map fst (log @ [(request, r)])"
  have ok: "entries_ok (vm_origin ienv) (uuid_origin kenv ?reqs) s"
    using request.IH by (auto intro: entries_mono)
  have "keeps (entries_ok (vm_origin ienv) (uuid_origin kenv ?reqs)) (serve env ienv kenv m request)"
    by (rule origin.ok_after_serve) (auto simp: uuid_origin_def)
  from keepsD [OF this request.hyps(2) ok] have ok': "entries_ok (vm_origin ienv) (uuid_origin kenv ?reqs) s'" .
  from serve_accounts [OF request.hyps(2) ok ok'] obtain cs where
    cs: "mutations s' = mutations s @ cs" "accounts env ienv kenv ?reqs (request, r) cs" by blast
  from request.IH obtain css where css: "list_all2 (accounts env ienv kenv (map fst log)) log css"
    "mutations s = mutations s0 @ concat css" by blast
  have "list_all2 (accounts env ienv kenv ?reqs) log css"
    using css(1) by (rule list_all2_mono) (rule accounts_mono, auto)
  with cs css(2) ok' show ?case by (intro conjI exI [of _ "css @ [cs]"]) (auto intro: list_all2_appendI)
qed

section \<open>Properties\<close>

text \<open>
  C2. The books of the running controller, from an empty registry of nodes: its changes of CNS are, in the order of the
  log, one per volume request, none for a node event or a request answered with an error that changed nothing. A creation has
  the requested name and size, on datastores the virtual machines of nodes have in common; a deletion is of the
  requested volume with its disk; an attach or detach is of the requested volume and of the machine vCenter reported for a UUID
  of the requested node, which Kubernetes gave in an event of this run or when asked.\<close>

theorem controller_books:
  assumes "controller_run env ienv kenv m s0 log s" and "nodeVMs s0 = []" and "nodeNameToUUID s0 = []"
  shows "\<exists>css. list_all2 (accounts env ienv kenv (map fst log)) log css \<and> mutations s = mutations s0 @ concat css"
  using controller_run_accounts [OF assms] by blast

section \<open>Witnesses\<close>

text \<open>A controller without nodes that is asked to delete a volume.\<close>

definition sample_fresh :: nodes where
  "sample_fresh = sample_nodes\<lparr>nodeVMs := [], nodeNameToUUID := []\<rparr>"

lemma sample_delete:
  "\<exists>s'. run_state (serve sample_env sample_ienv sample_k8s sample_manager (DeleteRequest ''vol-1'')) sample_fresh = (Inr (), s')"
  by (simp add: serve_def ControllerDeleteVolume_def validateVanillaDeleteVolumeRequest_def ValidateDeleteVolumeRequest_def
      DeleteVolumeUtil_def DeleteVolume_def
      vc_program_defs sample_env_answers sample_manager_sel sample_fresh_def sample_nodes_sel sample_vc_def sample_conf_def withCNS_def
      validateManager_def cnsTask_def cnsClient_def checkFault_def)

theorem controller_books_witness:
  "\<exists>s c. controller_run sample_env sample_ienv sample_k8s sample_manager sample_fresh [(DeleteRequest ''vol-1'', Inr ())] s \<and>
     mutations s = [c] \<and> is_delete (''vol-1'', True) c"
proof -
  obtain s where "run_state (serve sample_env sample_ienv sample_k8s sample_manager (DeleteRequest ''vol-1'')) sample_fresh
      = (Inr (), s)" using sample_delete by blast
  from controller_run.request [OF controller_run.start this]
  have run: "controller_run sample_env sample_ienv sample_k8s sample_manager sample_fresh [(DeleteRequest ''vol-1'', Inr ())] s"
    by simp
  have "nodeVMs sample_fresh = []" "nodeNameToUUID sample_fresh = []" "mutations sample_fresh = []"
    by (simp_all add: sample_fresh_def sample_nodes_sel mutations_def)
  with controller_books [OF run] run show ?thesis by (auto simp: accounts_def list_all2_Cons1)
qed

end
