(* ===== verification/Startup.thy ===== *)
theory Startup
  imports Informers Syncer_Run Controller_Run
begin

text \<open>
  How the two processes are wired to Kubernetes: the listeners that \<open>Init\<close> of \<open>metadatasyncer.go\<close> and \<open>Initialize\<close> of
  \<open>nodes.go\<close> hand to the informer manager, whose callbacks are the events of the theories \<open>Syncer_Run\<close> and
  \<open>Controller_Run\<close>, and the end of \<open>Init\<close>, which waits for the process to be stopped.
\<close>

section \<open>The objects client-go passes to a callback\<close>

datatype object = PvcObject pvc | PvObject pv | PodObject pod | NodeObject string string | OtherObject

text \<open>The type assertions of the callbacks.\<close>

definition asPvc :: "object \<Rightarrow> pvc option" where
  "asPvc obj = (case obj of PvcObject c \<Rightarrow> Some c | _ \<Rightarrow> None)"

definition asPv :: "object \<Rightarrow> pv option" where
  "asPv obj = (case obj of PvObject p \<Rightarrow> Some p | _ \<Rightarrow> None)"

definition asPod :: "object \<Rightarrow> pod option" where
  "asPod obj = (case obj of PodObject p \<Rightarrow> Some p | _ \<Rightarrow> None)"

definition asNode :: "object \<Rightarrow> (string \<times> string) option" where
  "asNode obj = (case obj of NodeObject providerID nodeName \<Rightarrow> Some (providerID, nodeName) | _ \<Rightarrow> None)"

section \<open>Listeners\<close>

definition syncerListeners ::
  "kube_env \<Rightarrow> nat \<Rightarrow> env \<Rightarrow> k8s_env \<Rightarrow> MetadataSyncInformer \<Rightarrow> (object, ('z, unit) syncE, nat) kube" where
  "syncerListeners kenv k8sclient env k8s ms = do {
     NewInformer kenv k8sclient;
     AddPVCListener kenv None
       (Some (\<lambda>oldObj newObj. pvcUpdated env k8s ms (asPvc oldObj) (asPvc newObj)))
       (Some (\<lambda>obj. pvcDeleted env k8s ms (asPvc obj)));
     AddPVListener kenv None
       (Some (\<lambda>oldObj newObj. pvUpdated env ms (asPv oldObj) (asPv newObj)))
       (Some (\<lambda>obj. pvDeleted env ms (asPv obj)));
     AddPodListener kenv None
       (Some (\<lambda>oldObj newObj. podUpdated env k8s ms (asPod oldObj) (asPod newObj)))
       (Some (\<lambda>obj. podDeleted env k8s ms (asPod obj)));
     GetPVLister kenv;
     GetPVCLister kenv;
     Listen
   }"

definition nodeListeners ::
  "kube_env \<Rightarrow> nat \<Rightarrow> env \<Rightarrow> inventory_env \<Rightarrow> (object, ('z, unit) nodesE, nat) kube" where
  "nodeListeners kenv k8sclient env ienv = do {
     NewInformer kenv k8sclient;
     AddNodeListener kenv (Some (\<lambda>obj. nodeAdd env ienv (asNode obj))) None (Some (\<lambda>obj. nodeDelete (asNode obj)));
     Listen
   }"

text \<open>
  What a callback of the syncer does is the handling of an event of its runs, and every event but an addition has one; the
  listers' informers are asked for before the factory starts.
\<close>

lemma syncer_callbacks:
  assumes "run_state (syncerListeners kenv k8sclient env k8s ms) im = (ch, im')" and "trace im = []" and "inj (ans_Informer kenv)"
  shows "registered kenv im' PersistentVolumeClaims = [\<lparr>AddFunc = None,
      UpdateFunc = Some (\<lambda>old new. handleEvent env k8s ms (PvcUpdated (asPvc old) (asPvc new))),
      DeleteFunc = Some (\<lambda>obj. handleEvent env k8s ms (PvcDeleted (asPvc obj)))\<rparr>]"
    and "registered kenv im' PersistentVolumes = [\<lparr>AddFunc = None,
      UpdateFunc = Some (\<lambda>old new. handleEvent env k8s ms (PvUpdated (asPv old) (asPv new))),
      DeleteFunc = Some (\<lambda>obj. handleEvent env k8s ms (PvDeleted (asPv obj)))\<rparr>]"
    and "registered kenv im' Pods = [\<lparr>AddFunc = None,
      UpdateFunc = Some (\<lambda>old new. handleEvent env k8s ms (PodUpdated (asPod old) (asPod new))),
      DeleteFunc = Some (\<lambda>obj. handleEvent env k8s ms (PodDeleted (asPod obj)))\<rparr>]"
    and "registered kenv im' Nodes = []"
    and "\<exists>before. trace im' = before @ [ListerFor PersistentVolumes, ListerFor PersistentVolumeClaims, Start ch]"
  using assms by (auto simp: syncerListeners_def informer_defs registered_def handleEvent_def inj_eq)

lemma node_callbacks:
  assumes "run_state (nodeListeners kenv k8sclient env ienv) im = (ch, im')" and "trace im = []" and "inj (ans_Informer kenv)"
  shows "registered kenv im' Nodes = [\<lparr>AddFunc = Some (\<lambda>obj. serve env ienv k8s m (NodeAdded (asNode obj))), UpdateFunc = None,
      DeleteFunc = Some (\<lambda>obj. serve env ienv k8s m (NodeDeleted (asNode obj)))\<rparr>]"
  using assms by (auto simp: nodeListeners_def informer_defs registered_def serve_def)

section \<open>The end of Init\<close>

text \<open>
  \<open>Init\<close> receives from \<open>stopCh\<close>, which the signal handler closes, and then from the buffered channel \<open>stopFullSync\<close>, whose
  contents are a list here. The signal and the two receptions are the only operations on the two channels.
\<close>

datatype position = ReceiveStopCh | ReceiveStopFullSync | InitReturned

record waiting =
  position :: position
  stopChClosed :: bool
  stopFullSync :: "bool list"

definition initialised :: waiting where
  "initialised = \<lparr>position = ReceiveStopCh, stopChClosed = False, stopFullSync = []\<rparr>"

inductive wait_step :: "waiting \<Rightarrow> waiting \<Rightarrow> bool" where
  signal: "wait_step w (w\<lparr>stopChClosed := True\<rparr>)"
| received_stop: "position w = ReceiveStopCh \<Longrightarrow> stopChClosed w \<Longrightarrow> wait_step w (w\<lparr>position := ReceiveStopFullSync\<rparr>)"
| received_full: "position w = ReceiveStopFullSync \<Longrightarrow> stopFullSync w = b # bs \<Longrightarrow>
    wait_step w (w\<lparr>position := InitReturned, stopFullSync := bs\<rparr>)"

text \<open>A signal ends the first wait, but nobody sends to \<open>stopFullSync\<close>: a stopped syncer does not return from \<open>Init\<close>.\<close>

lemma Init_never_returns:
  assumes "wait_step\<^sup>*\<^sup>* initialised w"
  shows "position w \<noteq> InitReturned"
proof -
  from assms have "position w \<noteq> InitReturned \<and> stopFullSync w = []"
    by (induction rule: rtranclp_induct) (auto simp: initialised_def elim: wait_step.cases)
  then show ?thesis ..
qed

lemma Init_waits_after_signal:
  "wait_step\<^sup>*\<^sup>* initialised (initialised\<lparr>stopChClosed := True, position := ReceiveStopFullSync\<rparr>)"
proof -
  have "wait_step initialised (initialised\<lparr>stopChClosed := True\<rparr>)" by (rule signal)
  moreover have "wait_step (initialised\<lparr>stopChClosed := True\<rparr>)
      (initialised\<lparr>stopChClosed := True\<rparr>\<lparr>position := ReceiveStopFullSync\<rparr>)"
    by (rule received_stop) (simp_all add: initialised_def)
  ultimately show ?thesis by simp
qed

end
