(* ===== verification/Config_Simulator.thy ===== *)
theory Config_Simulator
  imports Config
begin

text \<open>
  \<open>util.go\<close> of \<open>pkg/common/config\<close>: a configuration for tests, taken from the environment or made for a vCenter
  simulator. The simulator is a parameter: whether its model can be created, and the URL of its server. \<open>log.Fatal\<close> ends the
  process; here it is the error.
\<close>

record sim_url =
  url_Hostname :: string
  url_Port :: string
  url_Username :: string
  url_Password :: "string option"  \<comment> \<open>whether the URL has one is ignored\<close>

datatype cleanup = Nothing | CloseSimulator

definition configFromSimWithTLS :: "error + sim_url \<Rightarrow> bool \<Rightarrow> error + config \<times> cleanup" where
  "configFromSimWithTLS sim insecureAllowed =
     (case sim of
        Inl err \<Rightarrow> Inl err
      | Inr url \<Rightarrow>
          (let password = (case url_Password url of None \<Rightarrow> [] | Some p \<Rightarrow> p)
           in Inr (empty_config\<lparr>Global_InsecureFlag := insecureAllowed, Global_VCenterIP := url_Hostname url,
                Global_VCenterPort := url_Port url, Global_User := url_Username url, Global_Password := password,
                Global_Datacenters := ''DC0'',
                VirtualCenter := [(url_Hostname url, \<lparr>User = url_Username url, Password = password,
                  VCenterPort = url_Port url, InsecureFlag = insecureAllowed, Datacenters = ''DC0''\<rparr>)]\<rparr>,
              CloseSimulator)))"

definition configFromSim :: "error + sim_url \<Rightarrow> error + config \<times> cleanup" where
  "configFromSim sim = configFromSimWithTLS sim True"

definition FromEnvOrSim :: "environ \<Rightarrow> error + sim_url \<Rightarrow> error + config \<times> cleanup" where
  "FromEnvOrSim environ sim =
     (case FromEnv environ (Some empty_config) of
        (None, Some cfg) \<Rightarrow> Inr (cfg, Nothing)
      | (None, None) \<Rightarrow> Inl (Panic ''nil Config'')
      | (Some err, _) \<Rightarrow> configFromSim sim)"

text \<open>With a server that has an address, a port and credentials, the configuration is one the validation accepts as it is.\<close>

lemma simulator_config_ok:
  assumes "configFromSimWithTLS (Inr url) insecureAllowed = Inr (cfg, c)"
    and "url_Hostname url \<noteq> []" and "url_Port url \<noteq> []" and "url_Username url \<noteq> []" and "url_Password url \<noteq> None"
    and "url_Password url \<noteq> Some []"
  shows "config_ok cfg \<and> validateConfig cfg = (None, cfg)"
  using assms
  by (auto simp: configFromSimWithTLS_def config_ok_def vc_ok_def validateConfig_def validateVC_def Let_def)

lemma FromEnvOrSim_ok:
  assumes "FromEnvOrSim environ sim = Inr (cfg, c)"
  shows "c = Nothing \<and> fromEnvOrError environ empty_config = Inr cfg \<or>
    c = CloseSimulator \<and> (\<exists>err. fromEnvOrError environ empty_config = Inl err) \<and> configFromSim sim = Inr (cfg, c)"
  using assms
  by (auto simp: FromEnvOrSim_def fromEnvOrError_def configFromSim_def configFromSimWithTLS_def Let_def
      split: prod.splits option.splits sum.splits)

end
