(* ===== verification/Node_Cache.thy ===== *)
theory Node_Cache
  imports External "HOL-Library.AList"
begin

text \<open>
  \<open>pkg/common/cns-lib/node/cache.go\<close>: the cache of node names and UUIDs. The two maps are lists of
  entries in iteration order; the mutex makes every operation one step, so an operation is a function
  from cache to result and cache.
\<close>

section \<open>Operations\<close>

record defaultCache =
  uuidsToNames :: "(string \<times> string) list"
  namesToUUIDs :: "(string \<times> string) list"

definition emptyCache :: defaultCache where
  "emptyCache = \<lparr>uuidsToNames = [], namesToUUIDs = []\<rparr>"

definition normalizeUUID :: "string \<Rightarrow> string" where
  "normalizeUUID nodeUUID = ToLower nodeUUID"

definition DeleteNodeByUUID :: "string \<Rightarrow> (defaultCache, error + string) state" where
  "DeleteNodeByUUID nodeUUID0 = do {
     c \<leftarrow> State_Monad.get;
     let nodeUUID = normalizeUUID nodeUUID0;
     case map_of (uuidsToNames c) nodeUUID of
       None \<Rightarrow> State_Monad.return (Inl ErrNodeNotFound)
     | Some nodeName \<Rightarrow> do {
         assign (\<lambda>c. c\<lparr>uuidsToNames := AList.delete nodeUUID (uuidsToNames c),
                       namesToUUIDs := AList.delete nodeName (namesToUUIDs c)\<rparr>);
         State_Monad.return (Inr nodeName)
       }
   }"

definition DeleteNodeByName :: "string \<Rightarrow> (defaultCache, error + string) state" where
  "DeleteNodeByName nodeName = do {
     c \<leftarrow> State_Monad.get;
     case map_of (namesToUUIDs c) nodeName of
       None \<Rightarrow> State_Monad.return (Inl ErrNodeNotFound)
     | Some nodeUUID \<Rightarrow> do {
         assign (\<lambda>c. c\<lparr>namesToUUIDs := AList.delete nodeName (namesToUUIDs c),
                       uuidsToNames := AList.delete nodeUUID (uuidsToNames c)\<rparr>);
         State_Monad.return (Inr nodeUUID)
       }
   }"

definition LoadNodeNameByUUID :: "string \<Rightarrow> (defaultCache, error + string) state" where
  "LoadNodeNameByUUID nodeUUID0 = do {
     c \<leftarrow> State_Monad.get;
     let nodeUUID = normalizeUUID nodeUUID0;
     State_Monad.return (case map_of (uuidsToNames c) nodeUUID of
       None \<Rightarrow> Inl ErrNodeNotFound | Some nodeName \<Rightarrow> Inr nodeName)
   }"

definition LoadNodeUUIDByName :: "string \<Rightarrow> (defaultCache, error + string) state" where
  "LoadNodeUUIDByName nodeName = do {
     c \<leftarrow> State_Monad.get;
     State_Monad.return (case map_of (namesToUUIDs c) nodeName of
       None \<Rightarrow> Inl ErrNodeNotFound | Some nodeUUID \<Rightarrow> Inr nodeUUID)
   }"

text \<open>The entries \<open>Range\<close> visits: up to and including the first one the callback returns false for.\<close>

fun visited :: "(string \<Rightarrow> string \<Rightarrow> bool) \<Rightarrow> (string \<times> string) list \<Rightarrow> (string \<times> string) list" where
  "visited findNodeEntry [] = []"
| "visited findNodeEntry ((nodeUUID, nodeName) # entries) =
     (nodeUUID, nodeName) # (if findNodeEntry nodeUUID nodeName then visited findNodeEntry entries else [])"

definition RangeCache :: "(string \<Rightarrow> string \<Rightarrow> bool) \<Rightarrow> (defaultCache, (string \<times> string) list) state" where
  "RangeCache findNodeEntry = do {
     c \<leftarrow> State_Monad.get;
     State_Monad.return (visited findNodeEntry (uuidsToNames c))
   }"

definition storeEntry :: "string \<Rightarrow> string \<Rightarrow> defaultCache \<Rightarrow> error + defaultCache" where
  "storeEntry nodeUUID0 nodeName c =
     (let nodeUUID = normalizeUUID nodeUUID0;
          prevNameForUUID = map_of (uuidsToNames c) nodeUUID;
          prevUUIDForName = map_of (namesToUUIDs c) nodeName
      in if prevNameForUUID \<noteq> None \<and> prevUUIDForName \<noteq> None \<and> prevUUIDForName \<noteq> Some nodeUUID
         then Inl ErrNodeAlreadyExists
         else
           (let uuids1 = AList.delete nodeUUID (uuidsToNames c);
                names1 = AList.delete nodeName (namesToUUIDs c);
                names2 = (case prevNameForUUID of None \<Rightarrow> names1 | Some prev \<Rightarrow> AList.delete prev names1);
                uuids2 = (case prevUUIDForName of None \<Rightarrow> uuids1 | Some prev \<Rightarrow> AList.delete prev uuids1)
            in Inr \<lparr>uuidsToNames = AList.update nodeUUID nodeName uuids2,
                    namesToUUIDs = AList.update nodeName nodeUUID names2\<rparr>))"

definition Store :: "string \<Rightarrow> string \<Rightarrow> (defaultCache, error + unit) state" where
  "Store nodeUUID nodeName = do {
     c \<leftarrow> State_Monad.get;
     case storeEntry nodeUUID nodeName c of
       Inl err \<Rightarrow> State_Monad.return (Inl err)
     | Inr c' \<Rightarrow> do { assign (\<lambda>_. c'); State_Monad.return (Inr ()) }
   }"

section \<open>The invariant\<close>

text \<open>The two maps are inverse to each other, and the UUIDs are normalised.\<close>

definition inverse_maps :: "('a \<rightharpoonup> 'b) \<Rightarrow> ('b \<rightharpoonup> 'a) \<Rightarrow> bool" where
  "inverse_maps f g \<longleftrightarrow> (\<forall>a b. f a = Some b \<longleftrightarrow> g b = Some a)"

lemma inverse_mapsD: "inverse_maps f g \<Longrightarrow> f a = Some b \<longleftrightarrow> g b = Some a"
  by (simp add: inverse_maps_def)

lemma inverse_maps_inj: "inverse_maps f g \<Longrightarrow> g b = Some a \<Longrightarrow> g b' = Some a \<Longrightarrow> b = b'"
  by (metis inverse_mapsD option.inject)

lemma inverse_maps_delete:
  assumes "inverse_maps f g" and "f a = Some b"
  shows "inverse_maps (f(a := None)) (g(b := None))"
  using assms inverse_maps_inj [OF assms(1)] by (auto simp: inverse_maps_def)

definition cache_inv :: "defaultCache \<Rightarrow> bool" where
  "cache_inv c \<longleftrightarrow>
     inverse_maps (map_of (uuidsToNames c)) (map_of (namesToUUIDs c)) \<and>
     (\<forall>u \<in> dom (map_of (uuidsToNames c)). normalizeUUID u = u)"

lemma normalizeUUID_idem [simp]: "normalizeUUID (normalizeUUID u) = normalizeUUID u"
  by (simp add: normalizeUUID_def)

lemma storeEntry_uuids:
  assumes "storeEntry uuid name c = Inr c'"
  shows "map_of (uuidsToNames c') = (\<lambda>u. if u = normalizeUUID uuid then Some name
      else if map_of (namesToUUIDs c) name = Some u then None else map_of (uuidsToNames c) u)"
  using assms
  by (auto simp: storeEntry_def Let_def update_conv' delete_conv' fun_eq_iff split: if_splits option.splits)

lemma storeEntry_names:
  assumes "storeEntry uuid name c = Inr c'"
  shows "map_of (namesToUUIDs c') = (\<lambda>n. if n = name then Some (normalizeUUID uuid)
      else if map_of (uuidsToNames c) (normalizeUUID uuid) = Some n then None else map_of (namesToUUIDs c) n)"
  using assms
  by (auto simp: storeEntry_def Let_def update_conv' delete_conv' fun_eq_iff split: if_splits option.splits)

lemma storeEntry_inv:
  assumes "storeEntry uuid name c = Inr c'" and inv: "cache_inv c"
  shows "cache_inv c'"
proof -
  have inv': "inverse_maps (map_of (uuidsToNames c)) (map_of (namesToUUIDs c))"
    using inv by (simp add: cache_inv_def)
  have "inverse_maps (map_of (uuidsToNames c')) (map_of (namesToUUIDs c'))"
    unfolding inverse_maps_def storeEntry_uuids [OF assms(1)] storeEntry_names [OF assms(1)]
    using inverse_maps_inj [OF inv'] by (auto simp: inverse_mapsD [OF inv'] split: if_splits)
  then show ?thesis
    using inv unfolding cache_inv_def storeEntry_uuids [OF assms(1)]
    by (auto split: if_splits)
qed

lemma keeps_Store [keeps_rules]: "keeps cache_inv (Store uuid name)"
  by (rule keepsI) (auto simp: Store_def intro: storeEntry_inv split: sum.splits)

lemma keeps_DeleteNodeByUUID [keeps_rules]: "keeps cache_inv (DeleteNodeByUUID uuid)"
  by (rule keepsI)
     (auto simp: DeleteNodeByUUID_def Let_def cache_inv_def delete_conv' intro: inverse_maps_delete
       split: option.splits)

lemma keeps_DeleteNodeByName [keeps_rules]: "keeps cache_inv (DeleteNodeByName name)"
  by (rule keepsI)
     (auto simp: DeleteNodeByName_def cache_inv_def delete_conv' inverse_mapsD intro: inverse_maps_delete
       split: option.splits)

section \<open>The contract of a node directory\<close>

text \<open>
  What the cache promises as a set of (UUID, name) pairs: the pairs are a partial bijection, a store puts
  its pair in place of every pair with the same UUID or the same name, a lookup reads the set, a
  deletion removes one pair.
\<close>

locale node_directory =
  fixes inv :: "'s \<Rightarrow> bool"
    and entries :: "'s \<Rightarrow> ('u \<times> 'n) set"
    and canonical :: "'u \<Rightarrow> 'u"
    and store :: "'u \<Rightarrow> 'n \<Rightarrow> ('s, 'e + unit) state"
    and load_name :: "'u \<Rightarrow> ('s, 'e + 'n) state"
    and load_uuid :: "'n \<Rightarrow> ('s, 'e + 'u) state"
    and delete_uuid :: "'u \<Rightarrow> ('s, 'e + 'n) state"
    and missing :: 'e
  assumes inv_store: "keeps inv (store u n)"
    and inv_delete: "keeps inv (delete_uuid u)"
    and bijection: "inv s \<Longrightarrow> (u, n) \<in> entries s \<Longrightarrow> (u', n') \<in> entries s \<Longrightarrow> u = u' \<longleftrightarrow> n = n'"
    and store_ok: "inv s \<Longrightarrow> run_state (store u n) s = (Inr (), s') \<Longrightarrow>
      entries s' = insert (canonical u, n) {(v, m) \<in> entries s. v \<noteq> canonical u \<and> m \<noteq> n}"
    and store_err: "run_state (store u n) s = (Inl e, s') \<Longrightarrow> s' = s"
    and load_name: "inv s \<Longrightarrow> run_state (load_name u) s = (r, s') \<Longrightarrow>
      s' = s \<and> (case r of Inr n \<Rightarrow> (canonical u, n) \<in> entries s
                | Inl e \<Rightarrow> e = missing \<and> canonical u \<notin> fst ` entries s)"
    and load_uuid: "inv s \<Longrightarrow> run_state (load_uuid n) s = (q, s') \<Longrightarrow>
      s' = s \<and> (case q of Inr u \<Rightarrow> (u, n) \<in> entries s | Inl e \<Rightarrow> e = missing \<and> n \<notin> snd ` entries s)"
    and delete_ok: "inv s \<Longrightarrow> run_state (delete_uuid u) s = (Inr n, s') \<Longrightarrow>
      (canonical u, n) \<in> entries s \<and> entries s' = entries s - {(canonical u, n)}"
begin

lemma stored_name:
  assumes "inv s" and "run_state (store u n) s = (Inr (), s')"
  shows "run_state (load_name u) s' = (Inr n, s')"
proof -
  obtain r t where l: "run_state (load_name u) s' = (r, t)" by fastforce
  have inv': "inv s'" using keepsD [OF inv_store assms(2,1)] .
  have "(canonical u, n) \<in> entries s'" using store_ok [OF assms] by simp
  with load_name [OF inv' l] bijection [OF inv'] l show ?thesis by (cases r) force+
qed

lemma stored_uuid:
  assumes "inv s" and "run_state (store u n) s = (Inr (), s')"
  shows "run_state (load_uuid n) s' = (Inr (canonical u), s')"
proof -
  obtain r t where l: "run_state (load_uuid n) s' = (r, t)" by fastforce
  have inv': "inv s'" using keepsD [OF inv_store assms(2,1)] .
  have "(canonical u, n) \<in> entries s'" using store_ok [OF assms] by simp
  with load_uuid [OF inv' l] bijection [OF inv'] l show ?thesis by (cases r) force+
qed

lemma stored_other:
  assumes "inv s" and "run_state (store u n) s = (Inr (), s')" and "(v, m) \<in> entries s"
    and "v \<noteq> canonical u" and "m \<noteq> n"
  shows "(v, m) \<in> entries s'"
  using store_ok [OF assms(1,2)] assms(3-5) by simp

lemma deleted_name:
  assumes "inv s" and "run_state (delete_uuid u) s = (Inr n, s')"
  shows "run_state (load_name u) s' = (Inl missing, s')"
proof -
  obtain r t where l: "run_state (load_name u) s' = (r, t)" by fastforce
  have inv': "inv s'" using keepsD [OF inv_delete assms(2,1)] .
  have "canonical u \<notin> fst ` entries s'"
    using delete_ok [OF assms] bijection [OF assms(1)] by fastforce
  with load_name [OF inv' l] l show ?thesis by (cases r) force+
qed

end

definition cache_entries :: "defaultCache \<Rightarrow> (string \<times> string) set" where
  "cache_entries c = {(u, n). map_of (uuidsToNames c) u = Some n}"

lemma cache_entries_name: "cache_inv c \<Longrightarrow> (u, n) \<in> cache_entries c \<longleftrightarrow> map_of (namesToUUIDs c) n = Some u"
  by (simp add: cache_entries_def cache_inv_def inverse_mapsD)

interpretation node_cache: node_directory cache_inv cache_entries normalizeUUID Store
  LoadNodeNameByUUID LoadNodeUUIDByName DeleteNodeByUUID ErrNodeNotFound
proof unfold_locales
  fix s s' :: defaultCache and u n u' n' e r q
  show "keeps cache_inv (Store u n)" by (rule keeps_Store)
  show "keeps cache_inv (DeleteNodeByUUID u)" by (rule keeps_DeleteNodeByUUID)
  show "cache_inv s \<Longrightarrow> (u, n) \<in> cache_entries s \<Longrightarrow> (u', n') \<in> cache_entries s \<Longrightarrow> u = u' \<longleftrightarrow> n = n'"
    by (metis cache_entries_name inverse_maps_inj cache_inv_def option.inject)
  show "cache_inv s \<Longrightarrow> run_state (Store u n) s = (Inr (), s') \<Longrightarrow>
      cache_entries s' = insert (normalizeUUID u, n) {(v, m) \<in> cache_entries s. v \<noteq> normalizeUUID u \<and> m \<noteq> n}"
    by (auto simp: Store_def cache_entries_def storeEntry_uuids cache_inv_def inverse_mapsD
        dest: inverse_maps_inj split: sum.splits if_splits)
  show "run_state (Store u n) s = (Inl e, s') \<Longrightarrow> s' = s"
    by (auto simp: Store_def split: sum.splits)
  show "cache_inv s \<Longrightarrow> run_state (LoadNodeNameByUUID u) s = (r, s') \<Longrightarrow>
      s' = s \<and> (case r of Inr n \<Rightarrow> (normalizeUUID u, n) \<in> cache_entries s
                | Inl e \<Rightarrow> e = ErrNodeNotFound \<and> normalizeUUID u \<notin> fst ` cache_entries s)"
    by (auto simp: LoadNodeNameByUUID_def Let_def cache_entries_def split: option.splits)
  show "cache_inv s \<Longrightarrow> run_state (LoadNodeUUIDByName n) s = (q, s') \<Longrightarrow>
      s' = s \<and> (case q of Inr u \<Rightarrow> (u, n) \<in> cache_entries s
                | Inl e \<Rightarrow> e = ErrNodeNotFound \<and> n \<notin> snd ` cache_entries s)"
    by (auto simp: LoadNodeUUIDByName_def cache_entries_name split: option.splits)
  show "cache_inv s \<Longrightarrow> run_state (DeleteNodeByUUID u) s = (Inr n, s') \<Longrightarrow>
      (normalizeUUID u, n) \<in> cache_entries s \<and> cache_entries s' = cache_entries s - {(normalizeUUID u, n)}"
    by (auto simp: DeleteNodeByUUID_def Let_def cache_entries_def delete_conv' split: option.splits if_splits)
qed

section \<open>Properties\<close>

lemma cache_inv_empty: "cache_inv emptyCache"
  by (simp add: emptyCache_def cache_inv_def inverse_maps_def)

lemma keeps_LoadNodeNameByUUID [keeps_rules]: "keeps cache_inv (LoadNodeNameByUUID nodeUUID)"
  unfolding LoadNodeNameByUUID_def Let_def by (intro keeps_rules)

lemma keeps_LoadNodeUUIDByName [keeps_rules]: "keeps cache_inv (LoadNodeUUIDByName nodeName)"
  unfolding LoadNodeUUIDByName_def by (intro keeps_rules)

text \<open>
  The cache stays a bijection between lower case UUIDs and node names: the empty cache is one, and
  storing and deleting keep it, whatever their arguments and result.\<close>

lemma cache_inv_kept:
  "cache_inv emptyCache \<and>
   keeps cache_inv (Store nodeUUID nodeName) \<and>
   keeps cache_inv (DeleteNodeByUUID nodeUUID) \<and>
   keeps cache_inv (DeleteNodeByName nodeName) \<and>
   keeps cache_inv (LoadNodeNameByUUID nodeUUID) \<and>
   keeps cache_inv (LoadNodeUUIDByName nodeName)"
  by (intro conjI cache_inv_empty keeps_rules)

text \<open>
  C32. What was stored is found: after a successful \<open>Store\<close> the name is found under every spelling of
  the UUID, the UUID in lower case under the name, the entries with another UUID and another name are
  still there, and deleting by the UUID or by the name returns the other half and removes the entry.\<close>

theorem Store_roundtrip:
  assumes inv: "cache_inv c" and stored: "run_state (Store nodeUUID nodeName) c = (Inr (), c')"
    and fold: "EqualFold uuid nodeUUID"
  shows "run_state (LoadNodeNameByUUID uuid) c' = (Inr nodeName, c') \<and>
    run_state (LoadNodeUUIDByName nodeName) c' = (Inr (ToLower nodeUUID), c') \<and>
    {(u, n) \<in> cache_entries c. \<not> EqualFold u nodeUUID \<and> n \<noteq> nodeName} \<subseteq> cache_entries c' \<and>
    (\<exists>c''. run_state (DeleteNodeByUUID uuid) c' = (Inr nodeName, c'') \<and>
          run_state (LoadNodeNameByUUID uuid) c'' = (Inl ErrNodeNotFound, c'')) \<and>
    fst (run_state (DeleteNodeByName nodeName) c') = Inr (ToLower nodeUUID)"
proof (intro conjI)
  have low: "normalizeUUID uuid = normalizeUUID nodeUUID"
    using fold by (simp add: EqualFold_def normalizeUUID_def)
  have inv': "cache_inv c'" using keepsD [OF keeps_Store stored inv] .
  show name: "run_state (LoadNodeNameByUUID uuid) c' = (Inr nodeName, c')"
    using node_cache.stored_name [OF inv stored] by (simp add: LoadNodeNameByUUID_def low)
  show uuid: "run_state (LoadNodeUUIDByName nodeName) c' = (Inr (ToLower nodeUUID), c')"
    using node_cache.stored_uuid [OF inv stored] by (simp add: normalizeUUID_def)
  show "{(u, n) \<in> cache_entries c. \<not> EqualFold u nodeUUID \<and> n \<noteq> nodeName} \<subseteq> cache_entries c'"
    using node_cache.stored_other [OF inv stored] unfolding EqualFold_def normalizeUUID_def
    by clarify (metis ToLower_idem)
  obtain r c'' where del: "run_state (DeleteNodeByUUID uuid) c' = (r, c'')" by fastforce
  with name have "r = Inr nodeName"
    by (auto simp: DeleteNodeByUUID_def LoadNodeNameByUUID_def Let_def split: option.splits)
  with del node_cache.deleted_name [OF inv']
  show "\<exists>c''. run_state (DeleteNodeByUUID uuid) c' = (Inr nodeName, c'') \<and>
          run_state (LoadNodeNameByUUID uuid) c'' = (Inl ErrNodeNotFound, c'')" by blast
  from uuid show "fst (run_state (DeleteNodeByName nodeName) c') = Inr (ToLower nodeUUID)"
    by (auto simp: DeleteNodeByName_def LoadNodeUUIDByName_def split: option.splits)
qed

lemmas cache_program_defs = Store_def storeEntry_def LoadNodeNameByUUID_def LoadNodeUUIDByName_def
  DeleteNodeByUUID_def DeleteNodeByName_def normalizeUUID_def ToLower_def ToLower_char_def Let_def

lemma sample_store:
  "run_state (Store ''4A'' ''node1'') emptyCache =
     (Inr (), \<lparr>uuidsToNames = [(''4a'', ''node1'')], namesToUUIDs = [(''node1'', ''4a'')]\<rparr>)"
  by (simp add: cache_program_defs emptyCache_def char_of_def bit_simps)

theorem Store_roundtrip_witness:
  "\<exists>c'. run_state (Store ''4A'' ''node1'') emptyCache = (Inr (), c') \<and>
     run_state (LoadNodeNameByUUID ''4a'') c' = (Inr ''node1'', c')"
proof -
  have "EqualFold ''4a'' ''4A''"
    by (simp add: EqualFold_def ToLower_def ToLower_char_def char_of_def bit_simps)
  then show ?thesis using Store_roundtrip [OF cache_inv_empty sample_store] sample_store by blast
qed

text \<open>
  The only error of \<open>Store\<close> is for a known UUID whose new name belongs to another UUID. A new
  UUID with a name that is taken is not refused, although the comment of the check says so: the
  entry of the node that had the name is replaced and its UUID is forgotten.\<close>

lemma Store_duplicate_names:
  assumes inv: "cache_inv c" and other: "(v, nodeName) \<in> cache_entries c" and "normalizeUUID nodeUUID \<noteq> v"
  shows "if normalizeUUID nodeUUID \<in> fst ` cache_entries c
    then run_state (Store nodeUUID nodeName) c = (Inl ErrNodeAlreadyExists, c)
    else \<exists>c'. run_state (Store nodeUUID nodeName) c = (Inr (), c') \<and>
           run_state (LoadNodeNameByUUID v) c' = (Inl ErrNodeNotFound, c')"
proof -
  have named: "map_of (namesToUUIDs c) nodeName = Some v" using cache_entries_name [OF inv] other by simp
  have v: "normalizeUUID v = v" using inv other by (auto simp: cache_inv_def cache_entries_def)
  show ?thesis
  proof (cases "map_of (uuidsToNames c) (normalizeUUID nodeUUID)")
    case None
    then obtain c' where c': "storeEntry nodeUUID nodeName c = Inr c'"
      by (auto simp: storeEntry_def Let_def)
    then have "map_of (uuidsToNames c') v = None"
      using storeEntry_uuids [OF c'] named assms(3) by simp
    with c' v None show ?thesis by (auto simp: Store_def LoadNodeNameByUUID_def cache_entries_def)
  next
    case (Some n)
    then have "normalizeUUID nodeUUID \<in> fst ` cache_entries c"
      by (force simp: cache_entries_def)
    with Some named assms(3) show ?thesis by (auto simp: Store_def storeEntry_def Let_def)
  qed
qed

lemma sample_cache_inv:
  "cache_inv \<lparr>uuidsToNames = [(''4a'', ''node1'')], namesToUUIDs = [(''node1'', ''4a'')]\<rparr>"
  using keepsD [OF keeps_Store sample_store cache_inv_empty] .

lemma Store_duplicate_names_witness:
  "\<exists>c'. run_state (Store ''5b'' ''node1'')
          \<lparr>uuidsToNames = [(''4a'', ''node1'')], namesToUUIDs = [(''node1'', ''4a'')]\<rparr> = (Inr (), c') \<and>
        run_state (LoadNodeNameByUUID ''4a'') c' = (Inl ErrNodeNotFound, c')"
  using Store_duplicate_names [OF sample_cache_inv, of "''4a''" "''node1''" "''5b''"]
  by (auto simp: cache_entries_def normalizeUUID_def ToLower_def ToLower_char_def split: if_splits)

end
