(* ===== verification/Node_Mounts.thy ===== *)
theory Node_Mounts
  imports Csi_Common
begin

text \<open>
  \<open>pkg/csi/service/node.go\<close>, the part of the CSI node service that works on the devices, directories
  and mounts of its host: staging, unstaging, publishing and unpublishing of a volume.

  The host is reached through the system calls of \<open>os_call\<close> (packages \<open>os\<close>, \<open>ioutil\<close>, \<open>filepath\<close> and the
  third-party \<open>gofsutil\<close>); their answers are the arbitrary functions of \<open>os_env\<close>. \<open>NotExist\<close> is the error
  \<open>os.IsNotExist\<close> recognizes. A directory entry has no slash in its name, so \<open>filepath.Join\<close> with it only
  adds one. The laws of a mount table that some properties rely on are named hypotheses over those answers.
\<close>

section \<open>System calls\<close>

record file_info =
  fi_Name :: string
  fi_IsDir :: bool
  fi_ModeDevice :: bool  \<comment> \<open>\<open>Mode() & os.ModeDevice != 0\<close>\<close>

record mount_info =
  mnt_Device :: string
  mnt_Path :: string
  mnt_Source :: string
  mnt_Opts :: "string list"

datatype os_call =
    OsReadDir string
  | OsLstat string
  | OsStat string
  | OsEvalSymlinks string
  | OsGetMounts
  | OsGetDevMounts string
  | OsMkdir string
  | OsCreate string
  | OsRemove string
  | OsMount string string string "string list"
  | OsFormatAndMount string string string "string list"
  | OsBindMount string string "string list"
  | OsUnmount string

type_synonym 'a os_answer = "os_call list \<Rightarrow> error + 'a"

text \<open>The calls that change the host share the answer \<open>ans_Change\<close>: success or an error.\<close>

record os_env =
  ans_ReadDir :: "string \<Rightarrow> string list os_answer"  \<comment> \<open>the names of the entries\<close>
  ans_Lstat :: "string \<Rightarrow> file_info os_answer"
  ans_Stat :: "string \<Rightarrow> file_info os_answer"
  ans_EvalSymlinks :: "string \<Rightarrow> string os_answer"
  ans_GetMounts :: "mount_info list os_answer"
  ans_GetDevMounts :: "string \<Rightarrow> mount_info list os_answer"
  ans_Change :: "os_call \<Rightarrow> unit os_answer"

type_synonym ('z, 'a) osE = "((os_call, 'z) proc_scheme, error + 'a) state"

definition ReadDir :: "os_env \<Rightarrow> string \<Rightarrow> ('z, string list) osE" where
  "ReadDir os dir = perform (OsReadDir dir) (ans_ReadDir os dir)"

definition Stat :: "os_env \<Rightarrow> string \<Rightarrow> ('z, file_info) osE" where
  "Stat os path = perform (OsStat path) (ans_Stat os path)"

definition GetMounts :: "os_env \<Rightarrow> ('z, mount_info list) osE" where
  "GetMounts os = perform OsGetMounts (ans_GetMounts os)"

definition GetDevMounts :: "os_env \<Rightarrow> string \<Rightarrow> ('z, mount_info list) osE" where
  "GetDevMounts os dev = perform (OsGetDevMounts dev) (ans_GetDevMounts os dev)"

definition change :: "os_env \<Rightarrow> os_call \<Rightarrow> ('z, unit) osE" where
  "change os c = perform c (ans_Change os c)"

lemmas os_call_defs = ReadDir_def Stat_def GetMounts_def GetDevMounts_def change_def

section \<open>Requests\<close>

record node_stage_request =
  stage_VolumeId :: string
  stage_PublishContext :: "(string \<times> string) list"
  stage_StagingTargetPath :: string
  stage_VolumeCapability :: "volume_capability option"
  stage_VolumeContext :: "(string \<times> string) list"

record node_publish_request =
  npub_VolumeId :: string
  npub_PublishContext :: "(string \<times> string) list"
  npub_StagingTargetPath :: string
  npub_TargetPath :: string
  npub_VolumeCapability :: "volume_capability option"
  npub_Readonly :: bool

text \<open>The nil-safe getters of a capability.\<close>

definition GetAccessType :: "volume_capability option \<Rightarrow> access_type option" where
  "GetAccessType volCap = (case volCap of None \<Rightarrow> None | Some c \<Rightarrow> AccessType c)"

definition capMode :: "volume_capability option \<Rightarrow> access_mode" where
  "capMode volCap = GetMode (case volCap of None \<Rightarrow> None | Some c \<Rightarrow> AccessMode c)"

section \<open>Devices\<close>

definition devDiskID :: string where "devDiskID = ''/dev/disk/by-id''"
definition blockPrefix :: string where "blockPrefix = ''wwn-0x''"

record device =
  FullPath :: string
  dev_Name :: string
  RealDev :: string

definition getDevice :: "os_env \<Rightarrow> string \<Rightarrow> ('z, device) osE" where
  "getDevice os path =
     bindE (perform (OsLstat path) (ans_Lstat os path)) (\<lambda>fi.
     bindE (perform (OsEvalSymlinks path) (ans_EvalSymlinks os path)) (\<lambda>d.
     bindE (Stat os d) (\<lambda>ds.
     State_Monad.return (
       if \<not> fi_ModeDevice ds then Inl (Errorf ''%s is not a block device'')
       else Inr \<lparr>FullPath = path, dev_Name = fi_Name fi, RealDev = d\<rparr>))))"

text \<open>The path of an attached disk, empty when there is none. \<open>files\<close> is a list of entries given by a test.\<close>

definition getDiskPath :: "os_env \<Rightarrow> string \<Rightarrow> string list option \<Rightarrow> ('z, string) osE" where
  "getDiskPath os diskID files =
     bindE (case files of None \<Rightarrow> ReadDir os devDiskID | Some devs \<Rightarrow> State_Monad.return (Inr devs)) (\<lambda>devs.
     let targetDisk = blockPrefix @ diskID in
     State_Monad.return (Inr (case List.find (\<lambda>f. f = targetDisk) devs of
       None \<Rightarrow> []
     | Some f \<Rightarrow> devDiskID @ ''/'' @ f)))"

fun contains :: "string list \<Rightarrow> string \<Rightarrow> bool" where
  "contains [] item = False"
| "contains (x # xs) item = (if x = item then True else contains xs item)"

definition verifyVolumeAttached :: "os_env \<Rightarrow> string \<Rightarrow> ('z, string) osE" where
  "verifyVolumeAttached os diskID =
     handle (getDiskPath os diskID None)
       (\<lambda>err. State_Monad.return (Inl (Status Internal ''Error trying to read attached disks: %v'')))
       (\<lambda>volPath. State_Monad.return (
         if volPath = [] then Inl (Status NotFound ''disk: %s not attached to node'') else Inr volPath))"

definition getDiskID :: "string \<Rightarrow> (string \<times> string) list \<Rightarrow> error + string" where
  "getDiskID volID pubCtx =
     (if volID = [] then Inl (Status InvalidArgument ''Volume ID required'')
      else case map_of pubCtx AttributeFirstClassDiskUUID of
        None \<Rightarrow> Inl (Status InvalidArgument ''Attribute: %s required in publish context'')
      | Some diskID \<Rightarrow> Inr diskID)"

section \<open>Paths and mounts\<close>

definition verifyTargetDir :: "os_env \<Rightarrow> string \<Rightarrow> ('z, unit) osE" where
  "verifyTargetDir os target =
     (if target = [] then State_Monad.return (Inl (Status InvalidArgument ''target path required''))
      else handle (Stat os target)
        (\<lambda>err. State_Monad.return (Inl (
          if err = NotExist then Status FailedPrecondition ''target: %s not pre-created''
          else Status Internal ''failed to stat target, err: %s'')))
        (\<lambda>tgtStat. State_Monad.return (
          if \<not> fi_IsDir tgtStat then Inl (Status FailedPrecondition ''existing path: %s is not a directory'')
          else Inr ())))"

text \<open>\<open>mkdir\<close> and \<open>mkfile\<close> return whether they created something.\<close>

definition mkdir :: "os_env \<Rightarrow> string \<Rightarrow> ('z, bool) osE" where
  "mkdir os path =
     handle (Stat os path)
       (\<lambda>err. if err = NotExist
              then bindE (change os (OsMkdir path)) (\<lambda>_. State_Monad.return (Inr True))
              else State_Monad.return (Inl err))
       (\<lambda>st. State_Monad.return (
         if \<not> fi_IsDir st then Inl (Errorf ''existing path is not a directory'') else Inr False))"

text \<open>\<open>mkfile\<close> tests only for \<open>IsNotExist\<close>: after any other error the file information is nil.\<close>

definition mkfile :: "os_env \<Rightarrow> string \<Rightarrow> ('z, bool) osE" where
  "mkfile os path =
     handle (Stat os path)
       (\<lambda>err. if err = NotExist
              then bindE (change os (OsCreate path)) (\<lambda>_. State_Monad.return (Inr True))
              else State_Monad.return (Inl (Panic ''nil os.FileInfo'')))
       (\<lambda>st. State_Monad.return (
         if fi_IsDir st then Inl (Errorf ''existing path is a directory'') else Inr False))"

definition rmpath :: "os_env \<Rightarrow> string \<Rightarrow> ('z, unit) osE" where
  "rmpath os target =
     handle (change os (OsRemove target))
       (\<lambda>err. State_Monad.return (Inl (Status Internal ''Unable to remove target path: %s, err: %v'')))
       (\<lambda>_. State_Monad.return (Inr ()))"

definition ensureMountVol :: "volume_capability option \<Rightarrow> error + string \<times> string list" where
  "ensureMountVol volCap =
     (case GetAccessType volCap of
        Some (MountAccess fs mntFlags) \<Rightarrow> Inr (fs, mntFlags)
      | _ \<Rightarrow> Inl (Status InvalidArgument ''access type missing''))"

definition getDevMounts :: "os_env \<Rightarrow> device \<Rightarrow> ('z, mount_info list) osE" where
  "getDevMounts os sysDevice =
     bindE (GetMounts os) (\<lambda>mnts.
     State_Monad.return (Inr (filter (\<lambda>m. mnt_Device m = RealDev sysDevice \<or>
       mnt_Device m = ''devtmpfs'' \<and> mnt_Source m = RealDev sysDevice) mnts)))"

definition getDevFromMount :: "os_env \<Rightarrow> string \<Rightarrow> ('z, device option) osE" where
  "getDevFromMount os target =
     bindE (GetMounts os) (\<lambda>mnts.
     case List.find (\<lambda>m. mnt_Path m = target) mnts of
       None \<Rightarrow> State_Monad.return (Inr None)
     | Some m \<Rightarrow>
         bindE (getDevice os (if mnt_Device m = ''devtmpfs'' then mnt_Source m else mnt_Device m)) (\<lambda>dev.
         State_Monad.return (Inr (Some dev))))"

section \<open>Staging\<close>

definition readOnlyMode :: "access_mode \<Rightarrow> bool" where
  "readOnlyMode accMode \<longleftrightarrow> accMode = SINGLE_NODE_READER_ONLY \<or> accMode = MULTI_NODE_READER_ONLY"

definition rwOption :: "bool \<Rightarrow> string" where
  "rwOption ro = (if ro then ''ro'' else ''rw'')"

text \<open>The volume is staged when its device is not mounted anywhere.\<close>

definition stageFresh ::
  "os_env \<Rightarrow> device \<Rightarrow> string \<Rightarrow> string \<Rightarrow> string list \<Rightarrow> bool \<Rightarrow> ('z, unit) osE" where
  "stageFresh os dev target fs mntFlags ro =
     (if ro
      then handle (change os (OsMount (FullPath dev) target fs (mntFlags @ [''ro''])))
        (\<lambda>err. State_Monad.return (Inl (Status Internal ''error with mount during staging: %s'')))
        (\<lambda>_. State_Monad.return (Inr ()))
      else handle (change os (OsFormatAndMount (FullPath dev) target fs mntFlags))
        (\<lambda>err. State_Monad.return (Inl (Status Internal ''error with format and mount during staging: %s'')))
        (\<lambda>_. State_Monad.return (Inr ())))"

text \<open>The device is already mounted: it has to be mounted to the staging target, in the right mode.\<close>

definition stagedAlready :: "string \<Rightarrow> bool \<Rightarrow> mount_info list \<Rightarrow> error + unit" where
  "stagedAlready target ro mnts =
     (case List.find (\<lambda>m. mnt_Path m = target) mnts of
        None \<Rightarrow> Inl (Status Internal ''device already in use and mounted elsewhere'')
      | Some m \<Rightarrow>
          if contains (mnt_Opts m) (rwOption ro) then Inr ()
          else Inl (Status AlreadyExists ''access mode conflicts with existing mount''))"

definition attachedDevice :: "os_env \<Rightarrow> string \<Rightarrow> (string \<times> string) list \<Rightarrow> ('z, device) osE" where
  "attachedDevice os volID pubCtx =
     (case getDiskID volID pubCtx of
        Inl err \<Rightarrow> State_Monad.return (Inl err)
      | Inr diskID \<Rightarrow>
          bindE (verifyVolumeAttached os diskID) (\<lambda>volPath.
          handle (getDevice os volPath)
            (\<lambda>err. State_Monad.return (Inl (Status Internal ''error getting block device for volume: %s, err: %s'')))
            (\<lambda>dev. State_Monad.return (Inr dev))))"

text \<open>The rest of \<open>NodeStageVolume\<close> for a volume that is to be mounted.\<close>

definition stageMountVol :: "os_env \<Rightarrow> node_stage_request \<Rightarrow> device \<Rightarrow> ('z, unit) osE" where
  "stageMountVol os req dev =
     (case ensureMountVol (stage_VolumeCapability req) of
        Inl err \<Rightarrow> State_Monad.return (Inl err)
      | Inr (fs, mntFlags) \<Rightarrow>
          (let target = stage_StagingTargetPath req;
               ro = readOnlyMode (capMode (stage_VolumeCapability req)) in
           bindE (verifyTargetDir os target) (\<lambda>_.
           handle (GetDevMounts os (RealDev dev))
             (\<lambda>err. State_Monad.return (Inl (Status Internal ''could not reliably determine existing mount status: %s'')))
             (\<lambda>mnts.
               let attrFs = segment (stage_VolumeContext req) AttributeFsType;
                   fsType = (if attrFs = [] then DefaultFsType else attrFs) in
               if mnts = [] then stageFresh os dev target (if fs = [] then fsType else fs) mntFlags ro
               else State_Monad.return (stagedAlready target ro mnts)))))"

definition NodeStageVolume :: "os_env \<Rightarrow> node_stage_request \<Rightarrow> ('z, unit) osE" where
  "NodeStageVolume os req =
     bindE (attachedDevice os (stage_VolumeId req) (stage_PublishContext req)) (\<lambda>dev.
     if GetAccessType (stage_VolumeCapability req) = Some BlockAccess then State_Monad.return (Inr ())
     else stageMountVol os req dev)"

definition NodeUnstageVolume :: "os_env \<Rightarrow> string \<Rightarrow> ('z, unit) osE" where
  "NodeUnstageVolume os target =
     bindE (verifyTargetDir os target) (\<lambda>_.
     handle (getDevFromMount os target)
       (\<lambda>err. State_Monad.return (Inl (Status Internal ''error getting block device for volume: %s, err: %s'')))
       (\<lambda>d. case d of
          None \<Rightarrow> State_Monad.return (Inr ())
        | Some dev \<Rightarrow>
            handle (GetDevMounts os (RealDev dev))
              (\<lambda>err. State_Monad.return (Inl (Status Internal ''could not reliably determine existing mount status: %s'')))
              (\<lambda>mnts.
                if length mnts > 1
                then State_Monad.return (Inl (Status Internal ''volume: %s appears mounted in multiple places''))
                else handle (change os (OsUnmount target))
                  (\<lambda>err. State_Monad.return (Inl (Status Internal ''Error unmounting target: %s'')))
                  (\<lambda>_. State_Monad.return (Inr ())))))"

section \<open>Publishing\<close>

definition publishMountVol :: "os_env \<Rightarrow> node_publish_request \<Rightarrow> device \<Rightarrow> ('z, unit) osE" where
  "publishMountVol os req dev =
     (case ensureMountVol (npub_VolumeCapability req) of
        Inl err \<Rightarrow> State_Monad.return (Inl err)
      | Inr (_, mntFlags) \<Rightarrow>
          (let target = npub_TargetPath req; stagingTarget = npub_StagingTargetPath req; ro = npub_Readonly req in
           handle (mkdir os target)
             (\<lambda>err. State_Monad.return (Inl (Status Internal ''Unable to create target dir: %s, err: %v'')))
             (\<lambda>_.
               bindE (verifyTargetDir os stagingTarget) (\<lambda>_.
               handle (getDevMounts os dev)
                 (\<lambda>err. State_Monad.return (Inl (Status Internal ''could not reliably determine existing mount status: %s'')))
                 (\<lambda>devMnts.
                   let bind = handle (change os (OsBindMount stagingTarget target (if ro then mntFlags @ [''ro''] else mntFlags)))
                         (\<lambda>err. State_Monad.return (Inl (Status Internal ''error publish volume to target path: %s'')))
                         (\<lambda>_. State_Monad.return (Inr ())) in
                   if length devMnts > 1
                   then (case List.find (\<lambda>m. mnt_Path m = target) devMnts of
                       Some m \<Rightarrow> State_Monad.return (
                         if \<not> contains (mnt_Opts m) (rwOption ro)
                         then Inl (Status AlreadyExists ''volume previously published with different options'')
                         else Inr ())
                     | None \<Rightarrow> bind)
                   else if devMnts = []
                   then State_Monad.return (Inl (Status FailedPrecondition ''Volume ID: %s does not appear staged to %s''))
                   else bind)))))"

definition publishBlockVol :: "os_env \<Rightarrow> node_publish_request \<Rightarrow> device \<Rightarrow> ('z, unit) osE" where
  "publishBlockVol os req dev =
     (let target = npub_TargetPath req in
      handle (mkfile os target)
        (\<lambda>err. State_Monad.return (Inl (Status Internal ''Unable to create target file: %s, err: %v'')))
        (\<lambda>_.
          if npub_Readonly req
          then State_Monad.return (Inl (Status InvalidArgument ''read only not supported for Block Volume''))
          else handle (getDevMounts os dev)
            (\<lambda>err. State_Monad.return (Inl (Status Internal ''could not reliably determine existing mount status: %s'')))
            (\<lambda>devMnts. case devMnts of
               [] \<Rightarrow> handle (change os (OsBindMount (FullPath dev) target []))
                 (\<lambda>err. State_Monad.return (Inl (Status Internal ''error publish volume to target path: %s'')))
                 (\<lambda>_. State_Monad.return (Inr ()))
             | [m] \<Rightarrow> State_Monad.return (
                 if mnt_Path m \<noteq> target then Inl (Status Internal ''device already in use and mounted elsewhere'')
                 else Inr ())
             | _ \<Rightarrow> State_Monad.return (Inl (Status Internal ''block volume already mounted in more than one place'')))))"

definition NodePublishVolume :: "os_env \<Rightarrow> node_publish_request \<Rightarrow> ('z, unit) osE" where
  "NodePublishVolume os req =
     bindE (attachedDevice os (npub_VolumeId req) (npub_PublishContext req)) (\<lambda>dev.
     if GetAccessType (npub_VolumeCapability req) = Some BlockAccess then publishBlockVol os req dev
     else publishMountVol os req dev)"

definition NodeUnpublishVolume :: "os_env \<Rightarrow> string \<Rightarrow> ('z, unit) osE" where
  "NodeUnpublishVolume os target =
     handle (Stat os target)
       (\<lambda>err. State_Monad.return (
         if err = NotExist then Inr () else Inl (Status Internal ''failed to stat target, err: %s'')))
       (\<lambda>_.
         handle (getDevFromMount os target)
           (\<lambda>err. State_Monad.return (Inl (Status Internal ''error getting block device for volume: %s, err: %s'')))
           (\<lambda>d. case d of
              None \<Rightarrow> rmpath os target
            | Some dev \<Rightarrow>
                handle (GetMounts os)
                  (\<lambda>err. State_Monad.return (Inl (Status Internal ''could not reliably determine existing mount status: %s'')))
                  (\<lambda>mnts. forE (\<lambda>m.
                     if (mnt_Source m = RealDev dev \<or> mnt_Device m = RealDev dev) \<and> mnt_Path m = target
                     then handle (change os (OsUnmount target))
                       (\<lambda>err. State_Monad.return (Inl (Status Internal ''Error unmounting target: %s'')))
                       (\<lambda>_. rmpath os target)
                     else State_Monad.return (Inr ())) mnts)))"

section \<open>The remaining calls of the node service\<close>

definition NodeGetVolumeStats :: "error + unit option" where
  "NodeGetVolumeStats = Inr None"

datatype node_capability = STAGE_UNSTAGE_VOLUME

definition NodeGetCapabilities :: "node_capability list" where
  "NodeGetCapabilities = [STAGE_UNSTAGE_VOLUME]"

definition slice :: "string \<Rightarrow> nat \<Rightarrow> nat \<Rightarrow> string" where
  "slice s i j = drop i (take j s)"

text \<open>The UUID of the firmware in the byte order of vSphere.\<close>

definition convertUUID :: "string \<Rightarrow> error + string" where
  "convertUUID uuid =
     (if length uuid \<noteq> 36 then Inl (Errorf ''uuid length should be 36'')
      else Inr (ToLower (slice uuid 6 8 @ slice uuid 4 6 @ slice uuid 2 4 @ slice uuid 0 2 @ ''-'' @
        slice uuid 11 13 @ slice uuid 9 11 @ ''-'' @ slice uuid 16 18 @ slice uuid 14 16 @ ''-'' @
        slice uuid 19 23 @ ''-'' @ slice uuid 24 36)))"

lemmas node_mount_defs =
  os_call_defs getDevice_def getDiskPath_def verifyVolumeAttached_def getDiskID_def verifyTargetDir_def
  mkdir_def mkfile_def rmpath_def ensureMountVol_def getDevMounts_def getDevFromMount_def attachedDevice_def

section \<open>What the calls change\<close>

fun os_change :: "os_call \<Rightarrow> bool" where
  "os_change (OsMkdir _) = True"
| "os_change (OsCreate _) = True"
| "os_change (OsRemove _) = True"
| "os_change (OsMount _ _ _ _) = True"
| "os_change (OsFormatAndMount _ _ _ _) = True"
| "os_change (OsBindMount _ _ _) = True"
| "os_change (OsUnmount _) = True"
| "os_change _ = False"

text \<open>The call changes nothing or works at the path \<open>target\<close>.\<close>

fun confined :: "string \<Rightarrow> os_call \<Rightarrow> bool" where
  "confined target (OsMkdir p) = (p = target)"
| "confined target (OsCreate p) = (p = target)"
| "confined target (OsRemove p) = (p = target)"
| "confined target (OsMount _ p _ _) = (p = target)"
| "confined target (OsFormatAndMount _ p _ _) = (p = target)"
| "confined target (OsBindMount _ p _) = (p = target)"
| "confined target (OsUnmount p) = (p = target)"
| "confined target _ = True"

lemma read_confined: "\<not> os_change c \<Longrightarrow> confined target c"
  by (cases c) auto

lemma emits_read_calls [emits_rules]:
  assumes "\<And>c. \<not> os_change c \<Longrightarrow> P c"
  shows "emits P (ReadDir os dir)" "emits P (Stat os path)" "emits P (GetMounts os)" "emits P (GetDevMounts os dev)"
  unfolding os_call_defs by (intro emits_rules assms; simp)+

lemma emits_change [emits_rules]: "P c \<Longrightarrow> emits P (change os c)"
  unfolding change_def by (rule emits_perform)

lemma emits_node_helpers [emits_rules]:
  assumes "\<And>c. \<not> os_change c \<Longrightarrow> P c"
  shows "emits P (getDevice os path)" "emits P (getDiskPath os diskID files)"
    "emits P (verifyVolumeAttached os diskID)" "emits P (verifyTargetDir os target)"
    "emits P (getDevMounts os dev)" "emits P (getDevFromMount os target)" "emits P (attachedDevice os volID ctx)"
  unfolding getDevice_def getDiskPath_def verifyVolumeAttached_def verifyTargetDir_def getDevMounts_def
    getDevFromMount_def attachedDevice_def Let_def
  by (intro emits_rules assms | simp)+

lemma emits_path_helpers [emits_rules]:
  assumes "\<And>c. \<not> os_change c \<Longrightarrow> P c"
  shows "P (OsMkdir path) \<Longrightarrow> emits P (mkdir os path)" "P (OsCreate path) \<Longrightarrow> emits P (mkfile os path)"
    "P (OsRemove path) \<Longrightarrow> emits P (rmpath os path)"
  unfolding mkdir_def mkfile_def rmpath_def by (intro emits_rules | simp add: assms)+

lemma emits_case_access [emits_rules]:
  "(\<And>x. emits P (f x)) \<Longrightarrow> emits P g \<Longrightarrow> (\<And>x y z. emits P (h x y z)) \<Longrightarrow>
   emits P (case xs of [] \<Rightarrow> g | [x] \<Rightarrow> f x | x # y # z \<Rightarrow> h x y z)"
  by (auto split: list.splits)

lemma confined_NodeStageVolume: "emits (confined (stage_StagingTargetPath req)) (NodeStageVolume os req)"
  unfolding NodeStageVolume_def stageMountVol_def stageFresh_def Let_def
  by (intro emits_rules | simp add: read_confined)+

lemma confined_NodeUnstageVolume: "emits (confined target) (NodeUnstageVolume os target)"
  unfolding NodeUnstageVolume_def by (intro emits_rules | simp add: read_confined)+

lemma confined_NodePublishVolume: "emits (confined (npub_TargetPath req)) (NodePublishVolume os req)"
  unfolding NodePublishVolume_def publishMountVol_def publishBlockVol_def Let_def
  by (intro emits_rules | simp add: read_confined)+

lemma confined_NodeUnpublishVolume: "emits (confined target) (NodeUnpublishVolume os target)"
  unfolding NodeUnpublishVolume_def by (intro emits_rules | simp add: read_confined)+

section \<open>The mount table of the host\<close>

text \<open>
  The mounts the calls of a history leave behind, the newest first: a mount or bind mount adds an
  entry when it succeeds, an unmount takes the newest entry of its path away. \<open>links\<close> resolves
  symbolic links and \<open>boot\<close> are the mounts the host started with. A bind mount of a path that is not
  itself a mount point shows the file system it lies in; for a device file that is \<open>devtmpfs\<close>.
\<close>

fun unmounted :: "string \<Rightarrow> mount_info list \<Rightarrow> mount_info list" where
  "unmounted path [] = []"
| "unmounted path (m # ms) = (if mnt_Path m = path then ms else m # unmounted path ms)"

definition mount_entry :: "string \<Rightarrow> string \<Rightarrow> string list \<Rightarrow> mount_info" where
  "mount_entry dev target flags = \<lparr>mnt_Device = dev, mnt_Path = target, mnt_Source = dev,
     mnt_Opts = (if ''ro'' \<in> set flags then ''ro'' else ''rw'') # flags\<rparr>"

fun effect :: "(string \<Rightarrow> string) \<Rightarrow> os_call \<Rightarrow> mount_info list \<Rightarrow> mount_info list" where
  "effect links (OsMount path target fs flags) ms = mount_entry (links path) target flags # ms"
| "effect links (OsFormatAndMount path target fs flags) ms = mount_entry (links path) target flags # ms"
| "effect links (OsBindMount path target flags) ms =
     (case List.find (\<lambda>m. mnt_Path m = path) ms of
        Some m \<Rightarrow> mount_entry (mnt_Device m) target flags
      | None \<Rightarrow> (mount_entry ''devtmpfs'' target flags)\<lparr>mnt_Source := links path\<rparr>) # ms"
| "effect links (OsUnmount target) ms = unmounted target ms"
| "effect links _ ms = ms"

fun table_rev :: "os_env \<Rightarrow> (string \<Rightarrow> string) \<Rightarrow> mount_info list \<Rightarrow> os_call list \<Rightarrow> mount_info list" where
  "table_rev os links boot [] = boot"
| "table_rev os links boot (c # h) =
     (if ans_Change os c (rev h) = Inr () then effect links c (table_rev os links boot h)
      else table_rev os links boot h)"

definition mount_table :: "os_env \<Rightarrow> (string \<Rightarrow> string) \<Rightarrow> mount_info list \<Rightarrow> os_call list \<Rightarrow> mount_info list" where
  "mount_table os links boot h = table_rev os links boot (rev h)"

lemma mount_table_snoc:
  "mount_table os links boot (h @ [c]) =
     (if ans_Change os c h = Inr () then effect links c (mount_table os links boot h)
      else mount_table os links boot h)"
  by (simp add: mount_table_def)

lemma effect_read: "\<not> os_change c \<Longrightarrow> effect links c ms = ms"
  by (cases c) auto

lemma mount_table_reads:
  "list_all (\<lambda>c. \<not> os_change c) ks \<Longrightarrow> mount_table os links boot (h @ ks) = mount_table os links boot h"
proof (induction ks rule: rev_induct)
  case (snoc c ks) then show ?case
    by (simp add: mount_table_snoc effect_read flip: append_assoc)
qed simp

lemma filter_unmounted:
  "filter (\<lambda>m. mnt_Path m \<noteq> target) (unmounted target ms) = filter (\<lambda>m. mnt_Path m \<noteq> target) ms"
  by (induction ms) auto

lemma effect_elsewhere:
  "confined target c \<Longrightarrow>
   filter (\<lambda>m. mnt_Path m \<noteq> target) (effect links c ms) = filter (\<lambda>m. mnt_Path m \<noteq> target) ms"
  by (cases c) (auto simp: mount_entry_def filter_unmounted split: option.splits)

text \<open>An operation that works at one path leaves the mounts of all the others as they are.\<close>

locale path_operation =
  fixes target :: string and operation :: "((os_call, 'z) proc_scheme, error + 'a) state"
  assumes local: "emits (confined target) operation"
begin

lemma mounts_elsewhere:
  assumes run: "run_state operation s = (r, s')"
  shows "filter (\<lambda>m. mnt_Path m \<noteq> target) (mount_table os links boot (trace s')) =
    filter (\<lambda>m. mnt_Path m \<noteq> target) (mount_table os links boot (trace s))"
proof -
  obtain ks where ks: "trace s' = trace s @ ks" "list_all (confined target) ks"
    using local run by (rule emitsE)
  have "list_all (confined target) ks \<Longrightarrow>
    filter (\<lambda>m. mnt_Path m \<noteq> target) (mount_table os links boot (h @ ks)) =
    filter (\<lambda>m. mnt_Path m \<noteq> target) (mount_table os links boot h)" for h
    by (induction ks rule: rev_induct) (auto simp: mount_table_snoc effect_elsewhere simp flip: append_assoc)
  with ks show ?thesis by simp
qed

lemma no_file_removed:
  assumes "run_state operation s = (r, s')" and "OsRemove path \<in> set (drop (length (trace s)) (trace s'))"
  shows "path = target"
proof -
  obtain ks where "trace s' = trace s @ ks" "list_all (confined target) ks"
    using local assms(1) by (rule emitsE)
  with assms(2) show ?thesis by (auto simp: list_all_iff)
qed

end

interpretation stage_op: path_operation "stage_StagingTargetPath req" "NodeStageVolume os req"
  by unfold_locales (rule confined_NodeStageVolume)

interpretation unstage_op: path_operation target "NodeUnstageVolume os target"
  by unfold_locales (rule confined_NodeUnstageVolume)

interpretation publish_op: path_operation "npub_TargetPath req" "NodePublishVolume os req"
  by unfold_locales (rule confined_NodePublishVolume)

interpretation unpublish_op: path_operation target "NodeUnpublishVolume os target"
  by unfold_locales (rule confined_NodeUnpublishVolume)

end
