(* ===== verification/Node_Lifecycle.thy ===== *)
theory Node_Lifecycle
  imports Node_Mounts "HOL-Library.Multiset"
begin

text \<open>
  The properties of the mount operations of \<open>Node_Mounts\<close>: what staging formats and mounts and when,
  that no operation touches a path other than its own, that the four operations in the order the
  container orchestrator calls them leave the mount table of the host as it was, and what
  \<open>convertUUID\<close> does to the fields of a UUID.
\<close>

section \<open>Reading and changing\<close>

lemma find_mount: "List.find P xs = Some x \<Longrightarrow> x \<in> set xs \<and> P x"
  by (auto simp: find_Some_iff)

lemma count_list_filter: "P x \<Longrightarrow> count_list (filter P xs) x = count_list xs x"
  by (induction xs) auto

lemma contains_mem [simp]: "contains xs x \<longleftrightarrow> x \<in> set xs"
  by (induction xs) auto

abbreviation reads :: "((os_call, 'z) proc_scheme, 'a) state \<Rightarrow> bool" where
  "reads m \<equiv> emits (\<lambda>c. \<not> os_change c) m"

definition changes :: "(os_call, 'z) proc_scheme \<Rightarrow> os_call list" where
  "changes s = filter os_change (trace s)"

lemma reads_same:
  assumes "reads m" and "run_state m s = (r, s')"
  shows "changes s' = changes s" and "mount_table os links boot (trace s') = mount_table os links boot (trace s)"
proof -
  obtain ks where "trace s' = trace s @ ks" and "list_all (\<lambda>c. \<not> os_change c) ks" using assms by (rule emitsE)
  then show "changes s' = changes s" "mount_table os links boot (trace s') = mount_table os links boot (trace s)"
    by (auto simp: changes_def filter_empty_conv list_all_iff mount_table_reads)
qed

text \<open>The path of the disk with a given UUID.\<close>

definition diskPath :: "string \<Rightarrow> string" where
  "diskPath diskID = devDiskID @ ''/'' @ blockPrefix @ diskID"

lemma getDevice_result:
  assumes "run_state (getDevice os path) s = (Inr dev, s')"
  shows "FullPath dev = path \<and> (\<exists>h. ans_EvalSymlinks os path h = Inr (RealDev dev))"
  using assms by (auto simp: getDevice_def split: prod.splits sum.splits if_splits)

lemma attachedDevice_result:
  assumes "run_state (attachedDevice os vol ctx) s = (Inr dev, s')"
  shows "\<exists>diskID h. getDiskID vol ctx = Inr diskID \<and> FullPath dev = diskPath diskID \<and>
     ans_EvalSymlinks os (diskPath diskID) h = Inr (RealDev dev)"
proof -
  from assms obtain diskID where d: "getDiskID vol ctx = Inr diskID" by (cases "getDiskID vol ctx") (auto simp: attachedDevice_def)
  with assms obtain t path t' where ver: "run_state (verifyVolumeAttached os diskID) s = (Inr path, t)"
    and dev: "run_state (getDevice os path) t = (Inr dev, t')"
    by (auto simp: attachedDevice_def split: prod.splits sum.splits error.splits)
  from ver have "path = diskPath diskID"
    by (auto simp: verifyVolumeAttached_def getDiskPath_def Let_def diskPath_def
        split: prod.splits sum.splits error.splits if_splits option.splits dest!: find_mount)
  with d getDevice_result [OF dev] show ?thesis by auto
qed

section \<open>Staging\<close>

text \<open>
  The mount a staging request stands for: of the disk with the UUID of the publish context, onto the
  staging path, with the file system of the capability, else that of the volume context, else
  \<open>ext4\<close>; it may format the disk unless the access mode is read-only.
\<close>

definition stageFs :: "node_stage_request \<Rightarrow> string \<Rightarrow> string" where
  "stageFs req fs = (if fs \<noteq> [] then fs
     else if segment (stage_VolumeContext req) AttributeFsType \<noteq> [] then segment (stage_VolumeContext req) AttributeFsType
     else DefaultFsType)"

definition staging_mount :: "node_stage_request \<Rightarrow> string \<Rightarrow> os_call \<Rightarrow> bool" where
  "staging_mount req diskID c \<longleftrightarrow> (\<exists>fs flags. ensureMountVol (stage_VolumeCapability req) = Inr (fs, flags) \<and>
     c = (if readOnlyMode (capMode (stage_VolumeCapability req))
          then OsMount (diskPath diskID) (stage_StagingTargetPath req) (stageFs req fs) (flags @ [''ro''])
          else OsFormatAndMount (diskPath diskID) (stage_StagingTargetPath req) (stageFs req fs) flags))"

text \<open>The answer of the host that the device of a disk has the mounts \<open>ms\<close>.\<close>

definition listed :: "os_env \<Rightarrow> string \<Rightarrow> mount_info list \<Rightarrow> bool" where
  "listed os diskID ms \<longleftrightarrow> (\<exists>dev h h'. ans_EvalSymlinks os (diskPath diskID) h = Inr dev \<and>
     ans_GetDevMounts os dev h' = Inr ms)"

text \<open>The mount is already there, in the requested mode.\<close>

definition staged_as :: "node_stage_request \<Rightarrow> mount_info list \<Rightarrow> bool" where
  "staged_as req ms \<longleftrightarrow> (\<exists>m \<in> set ms. mnt_Path m = stage_StagingTargetPath req \<and>
     rwOption (readOnlyMode (capMode (stage_VolumeCapability req))) \<in> set (mnt_Opts m))"

lemma stageMountVol_run:
  assumes "ensureMountVol (stage_VolumeCapability req) = Inr (fs, flags)"
  shows "stageMountVol os req dev =
    bindE (verifyTargetDir os (stage_StagingTargetPath req)) (\<lambda>_. handle (GetDevMounts os (RealDev dev))
      (\<lambda>err. State_Monad.return (Inl (Status Internal ''could not reliably determine existing mount status: %s'')))
      (\<lambda>ms. if ms = [] then stageFresh os dev (stage_StagingTargetPath req) (stageFs req fs) flags
            (readOnlyMode (capMode (stage_VolumeCapability req)))
          else State_Monad.return (stagedAlready (stage_StagingTargetPath req)
            (readOnlyMode (capMode (stage_VolumeCapability req))) ms)))"
  unfolding stageMountVol_def assms stageFs_def Let_def by (simp cong: if_cong)

lemma stageMountVol_changes:
  assumes run: "run_state (stageMountVol os req dev) s = (r, s')" and path: "FullPath dev = diskPath diskID"
    and that: "\<not> (changes s' = changes s \<and> (r = Inr () \<longrightarrow> (\<exists>ms h. ans_GetDevMounts os (RealDev dev) h = Inr ms \<and> staged_as req ms)))"
  shows "\<exists>c. (\<exists>h. ans_GetDevMounts os (RealDev dev) h = Inr []) \<and> staging_mount req diskID c \<and> changes s' = changes s @ [c]"
proof (cases "ensureMountVol (stage_VolumeCapability req)")
  case (Inl e) with run that show ?thesis by (auto simp: stageMountVol_def)
next
  case (Inr p)
  then obtain fs flags where mnt: "ensureMountVol (stage_VolumeCapability req) = Inr (fs, flags)" by (cases p) auto
  obtain r2 s2 where ver: "run_state (verifyTargetDir os (stage_StagingTargetPath req)) s = (r2, s2)" by fastforce
  have same: "changes s2 = changes s" by (rule reads_same(1) [OF _ ver]) (intro emits_rules)
  note run' = run [unfolded stageMountVol_run [OF mnt]]
  consider (error) "(\<exists>e. r2 = Inl e) \<or> (\<exists>e. ans_GetDevMounts os (RealDev dev) (trace s2) = Inl e)"
    | (fresh) "r2 = Inr ()" "ans_GetDevMounts os (RealDev dev) (trace s2) = Inr []"
    | (mounted) m ms where "r2 = Inr ()" "ans_GetDevMounts os (RealDev dev) (trace s2) = Inr (m # ms)"
    by (cases r2; cases "ans_GetDevMounts os (RealDev dev) (trace s2)";
        cases "projr (ans_GetDevMounts os (RealDev dev) (trace s2))") auto
  then show ?thesis
  proof cases
    case error
    with run' same ver that show ?thesis
      by (cases r2) (auto simp: GetDevMounts_def changes_def split: error.splits)
  next
    case fresh
    with run' ver have "\<exists>r1. run_state (stageFresh os dev (stage_StagingTargetPath req) (stageFs req fs) flags
        (readOnlyMode (capMode (stage_VolumeCapability req)))) (s2\<lparr>trace := trace s2 @ [OsGetDevMounts (RealDev dev)]\<rparr>) = (r1, s')"
      by (simp add: GetDevMounts_def)
    with same mnt path fresh(2) show ?thesis
      by (auto simp: changes_def stageFresh_def change_def staging_mount_def split: sum.splits error.splits if_splits)
  next
    case (mounted m ms)
    with run' same ver have r: "r = stagedAlready (stage_StagingTargetPath req)
        (readOnlyMode (capMode (stage_VolumeCapability req))) (m # ms)" and "changes s' = changes s"
      by (auto simp: GetDevMounts_def changes_def)
    moreover have "staged_as req (m # ms)" if "r = Inr ()"
      using that r unfolding staged_as_def stagedAlready_def
      by (auto simp del: find.simps split: option.splits if_splits dest!: find_mount)
    ultimately show ?thesis using that mounted by blast
  qed
qed

lemma NodeStageVolume_changes:
  assumes run: "run_state (NodeStageVolume os req) s = (r, s')"
  shows "(\<exists>diskID c. getDiskID (stage_VolumeId req) (stage_PublishContext req) = Inr diskID \<and>
      listed os diskID [] \<and> staging_mount req diskID c \<and> changes s' = changes s @ [c]) \<or>
    changes s' = changes s \<and> (r = Inr () \<longrightarrow>
      GetAccessType (stage_VolumeCapability req) = Some BlockAccess \<or>
      (\<exists>diskID ms. getDiskID (stage_VolumeId req) (stage_PublishContext req) = Inr diskID \<and>
         listed os diskID ms \<and> staged_as req ms))"
proof -
  obtain r1 s1 where att: "run_state (attachedDevice os (stage_VolumeId req) (stage_PublishContext req)) s = (r1, s1)"
    by fastforce
  have same: "changes s1 = changes s" by (rule reads_same(1) [OF _ att]) (intro emits_rules)
  consider (error) e where "r1 = Inl e" | (block) dev where "r1 = Inr dev" "GetAccessType (stage_VolumeCapability req) = Some BlockAccess"
    | (mount) dev where "r1 = Inr dev" "GetAccessType (stage_VolumeCapability req) \<noteq> Some BlockAccess"
    by (cases r1) auto
  then show ?thesis
  proof cases
    case error with run att same show ?thesis by (auto simp: NodeStageVolume_def)
  next
    case block with run att same show ?thesis by (auto simp: NodeStageVolume_def)
  next
    case (mount dev)
    from attachedDevice_result att mount obtain diskID h where disk:
      "getDiskID (stage_VolumeId req) (stage_PublishContext req) = Inr diskID" "FullPath dev = diskPath diskID"
      "ans_EvalSymlinks os (diskPath diskID) h = Inr (RealDev dev)" by blast
    then have listed: "ans_GetDevMounts os (RealDev dev) h' = Inr ms \<Longrightarrow> listed os diskID ms" for h' ms
      unfolding listed_def by blast
    from run att mount have "run_state (stageMountVol os req dev) s1 = (r, s')" by (simp add: NodeStageVolume_def)
    from stageMountVol_changes [OF this disk(2)] same listed disk(1) show ?thesis by metis
  qed
qed

section \<open>The life of a mounted volume\<close>

text \<open>
  What a listing of mounts is taken to say about a mount: its device and its path, and for a mount of
  \<open>devtmpfs\<close> also its source, the device file that is bound. Nothing is said about the order of a listing,
  the options the kernel reports, or the source of any other mount (\<open>gofsutil\<close> names the bound path there).
\<close>

definition mount_view :: "mount_info \<Rightarrow> string \<times> string \<times> string" where
  "mount_view m = (mnt_Device m, mnt_Path m, if mnt_Device m = ''devtmpfs'' then mnt_Source m else [])"

definition same_mounts :: "mount_info list \<Rightarrow> mount_info list \<Rightarrow> bool" where
  "same_mounts ms ms' \<longleftrightarrow> mset (map mount_view ms) = mset (map mount_view ms')"

lemma same_mounts_ex: "same_mounts ms ms' \<Longrightarrow> m \<in> set ms \<Longrightarrow> \<exists>m' \<in> set ms'. mount_view m' = mount_view m"
  unfolding same_mounts_def by (drule mset_eq_setD) (metis (no_types, lifting) image_iff set_map)

lemma same_mounts_sym: "same_mounts ms ms' \<Longrightarrow> same_mounts ms' ms"
  by (simp add: same_mounts_def)

lemma same_mounts_length: "same_mounts ms ms' \<Longrightarrow> length ms = length ms'"
  unfolding same_mounts_def by (metis length_map size_mset)

lemma same_mounts_filter:
  assumes "same_mounts ms ms'" and "\<And>m. P m = Q (mount_view m)"
  shows "same_mounts (filter P ms) (filter P ms')"
proof -
  have "mset (map mount_view (filter P xs)) = filter_mset Q (mset (map mount_view xs))" for xs
    by (induction xs) (auto simp: assms(2))
  with assms(1) show ?thesis by (simp add: same_mounts_def)
qed

lemma filter_single:
  assumes "length (filter P xs) = 1"
  obtains ys z zs where "xs = ys @ z # zs" and "P z" and "\<forall>x \<in> set ys \<union> set zs. \<not> P x"
proof -
  obtain z where "filter P xs = [z]" using assms by (auto simp: length_Suc_conv)
  then obtain ys zs where "xs = ys @ z # zs" "\<forall>y \<in> set ys. \<not> P y" "P z" "[] = filter P zs"
    by (auto simp: filter_eq_Cons_iff)
  moreover from this(4) have "\<forall>z \<in> set zs. \<not> P z" by (simp add: filter_empty_conv eq_commute [of "[]"])
  ultimately show ?thesis using that [of ys z zs] by blast
qed

text \<open>
  What the node service may rely on: whenever the host answers, it lists the mounts of the mount table, all of them or
  those of a device, symbolic links resolve to \<open>links\<close>, and a mount point exists.
\<close>

definition mount_laws :: "os_env \<Rightarrow> (string \<Rightarrow> string) \<Rightarrow> mount_info list \<Rightarrow> bool" where
  "mount_laws os links boot \<longleftrightarrow>
     (\<forall>h ms. ans_GetMounts os h = Inr ms \<longrightarrow> same_mounts ms (mount_table os links boot h)) \<and>
     (\<forall>dev h ms. ans_GetDevMounts os dev h = Inr ms \<longrightarrow>
        same_mounts ms (filter (\<lambda>m. mnt_Device m = dev) (mount_table os links boot h))) \<and>
     (\<forall>p h d. ans_EvalSymlinks os p h = Inr d \<longrightarrow> d = links p) \<and> (\<forall>p. links (links p) = links p) \<and>
     (\<forall>p h. p \<in> mnt_Path ` set (mount_table os links boot h) \<longrightarrow> ans_Stat os p h \<noteq> Inl NotExist)"

lemma mount_lawsD:
  assumes "mount_laws os links boot"
  shows "ans_GetMounts os h = Inr ms \<Longrightarrow> same_mounts ms (mount_table os links boot h)"
    and "ans_GetDevMounts os dev h = Inr ms \<Longrightarrow>
      same_mounts ms (filter (\<lambda>m. mnt_Device m = dev) (mount_table os links boot h))"
    and "ans_EvalSymlinks os p h = Inr d \<Longrightarrow> d = links p" and "links (links p) = links p"
    and "p \<in> mnt_Path ` set (mount_table os links boot h) \<Longrightarrow> ans_Stat os p h \<noteq> Inl NotExist"
  using assms unfolding mount_laws_def by iprover+

text \<open>A device and paths no mount of the table uses.\<close>

definition unused :: "string \<Rightarrow> string set \<Rightarrow> mount_info list \<Rightarrow> bool" where
  "unused dev paths ms \<longleftrightarrow> (\<forall>m \<in> set ms. mnt_Device m \<noteq> dev \<and>
     \<not> (mnt_Device m = ''devtmpfs'' \<and> mnt_Source m = dev) \<and> mnt_Path m \<notin> paths)"

fun mount_change :: "os_call \<Rightarrow> bool" where
  "mount_change (OsMount _ _ _ _) = True"
| "mount_change (OsFormatAndMount _ _ _ _) = True"
| "mount_change (OsBindMount _ _ _) = True"
| "mount_change (OsUnmount _) = True"
| "mount_change _ = False"

lemma read_mount_change: "\<not> os_change c \<Longrightarrow> \<not> mount_change c"
  by (cases c) auto

lemma table_kept:
  assumes "emits (\<lambda>c. \<not> mount_change c) m" and "run_state m s = (r, s')"
  shows "mount_table os links boot (trace s') = mount_table os links boot (trace s)"
proof -
  obtain ks where ks: "trace s' = trace s @ ks" "list_all (\<lambda>c. \<not> mount_change c) ks" using assms by (rule emitsE)
  have effect: "effect links c ms = ms" if "\<not> mount_change c" for c ms using that by (cases c) auto
  have "mount_table os links boot (h @ ks) = mount_table os links boot h" if "list_all (\<lambda>c. \<not> mount_change c) ks" for h
    using that by (induction ks rule: rev_induct) (auto simp: mount_table_snoc effect simp flip: append_assoc)
  with ks show ?thesis by simp
qed

lemma table_change:
  "run_state (change os c) s = (Inr x, s') \<Longrightarrow>
   mount_table os links boot (trace s') = effect links c (mount_table os links boot (trace s))"
  by (auto simp: change_def mount_table_snoc)

text \<open>A successful run, step by step.\<close>

lemma bindE_Inr_iff:
  "run_state (bindE m k) s = (Inr y, s') \<longleftrightarrow> (\<exists>x t. run_state m s = (Inr x, t) \<and> run_state (k x) t = (Inr y, s'))"
  by (auto split: prod.splits sum.splits)

lemma handle_Inr_iff:
  "run_state (handle m (\<lambda>err. State_Monad.return (Inl (h err))) k) s = (Inr y, s') \<longleftrightarrow>
   (\<exists>x t. run_state m s = (Inr x, t) \<and> run_state (k x) t = (Inr y, s'))"
  by (auto split: prod.splits sum.splits error.splits)

lemmas success_iffs = bindE_Inr_iff handle_Inr_iff

declare run_bindE [simp del] run_handle [simp del]

lemma GetDevMounts_laws:
  assumes laws: "mount_laws os links boot" and run: "run_state (GetDevMounts os dev) s = (Inr ms, t)"
  shows "same_mounts ms (filter (\<lambda>m. mnt_Device m = dev) (mount_table os links boot (trace s)))"
    and "mount_table os links boot (trace t) = mount_table os links boot (trace s)"
proof -
  have "ans_GetDevMounts os dev (trace s) = Inr ms" using run by (simp add: GetDevMounts_def)
  then show "same_mounts ms (filter (\<lambda>m. mnt_Device m = dev) (mount_table os links boot (trace s)))"
    by (rule mount_lawsD(2) [OF laws])
  show "mount_table os links boot (trace t) = mount_table os links boot (trace s)"
    by (rule reads_same(2) [OF _ run]) (intro emits_rules)
qed

lemma GetMounts_laws:
  assumes laws: "mount_laws os links boot" and run: "run_state (GetMounts os) s = (Inr ms, t)"
  shows "same_mounts ms (mount_table os links boot (trace s))"
    and "mount_table os links boot (trace t) = mount_table os links boot (trace s)"
proof -
  have "ans_GetMounts os (trace s) = Inr ms" using run by (simp add: GetMounts_def)
  then show "same_mounts ms (mount_table os links boot (trace s))" by (rule mount_lawsD(1) [OF laws])
  show "mount_table os links boot (trace t) = mount_table os links boot (trace s)"
    by (rule reads_same(2) [OF _ run]) (intro emits_rules)
qed

text \<open>A listing shows the only mount of a path with its device; the device behind it is found.\<close>

lemma listed_mount:
  assumes same: "same_mounts mnts (m # ms)" and "mnt_Path m = target" and "\<forall>m' \<in> set ms. mnt_Path m' \<noteq> target"
  obtains m' where "List.find (\<lambda>m'. mnt_Path m' = target) mnts = Some m'" and "mnt_Device m' = mnt_Device m"
proof -
  obtain x where "x \<in> set mnts" "mnt_Path x = target"
    using same_mounts_ex [OF same_mounts_sym [OF same], of m] assms(2) by (auto simp: mount_view_def)
  then obtain m' where m': "List.find (\<lambda>m'. mnt_Path m' = target) mnts = Some m'"
    by (cases "List.find (\<lambda>m'. mnt_Path m' = target) mnts") (auto simp: find_None_iff)
  then have "m' \<in> set mnts" "mnt_Path m' = target" by (auto dest: find_mount)
  with same_mounts_ex [OF same this(1)] assms(3) have "mnt_Device m' = mnt_Device m" by (auto simp: mount_view_def)
  with m' that show ?thesis by blast
qed

lemma getDevFromMount_laws:
  assumes laws: "mount_laws os links boot" and run: "run_state (getDevFromMount os target) s = (Inr d, t)"
    and top: "mount_table os links boot (trace s) = m # ms" "mnt_Path m = target" "\<forall>m' \<in> set ms. mnt_Path m' \<noteq> target"
    and dev: "mnt_Device m = links disk" "links disk \<noteq> ''devtmpfs''"
  shows "\<exists>dev. d = Some dev \<and> RealDev dev = links disk" and "mount_table os links boot (trace t) = m # ms"
proof -
  obtain mnts s1 where mnts: "run_state (GetMounts os) s = (Inr mnts, s1)"
    using run by (auto simp: getDevFromMount_def success_iffs)
  obtain m' where find: "List.find (\<lambda>m'. mnt_Path m' = target) mnts = Some m'" and "mnt_Device m' = mnt_Device m"
    using listed_mount [OF GetMounts_laws(1) [OF laws mnts, unfolded top(1)] top(2,3)] by blast
  with run mnts dev obtain dv where "d = Some dv" and "run_state (getDevice os (links disk)) s1 = (Inr dv, t)"
    by (auto simp: getDevFromMount_def success_iffs)
  with getDevice_result [OF this(2)] mount_lawsD(3,4) [OF laws] show "\<exists>dev. d = Some dev \<and> RealDev dev = links disk"
    by metis
  show "mount_table os links boot (trace t) = m # ms"
    unfolding top(1) [symmetric] by (rule reads_same(2) [OF _ run]) (intro emits_rules)
qed

lemma attachedDevice_laws:
  assumes "run_state (attachedDevice os vol ctx) s = (Inr dev, t)" and "getDiskID vol ctx = Inr diskID"
    and "mount_laws os links boot"
  shows "FullPath dev = diskPath diskID" and "RealDev dev = links (diskPath diskID)"
    and "mount_table os links boot (trace t) = mount_table os links boot (trace s)"
proof -
  show "FullPath dev = diskPath diskID" "RealDev dev = links (diskPath diskID)"
    using attachedDevice_result [OF assms(1)] assms(2) mount_lawsD(3) [OF assms(3)] by auto
  show "mount_table os links boot (trace t) = mount_table os links boot (trace s)"
    by (rule reads_same(2) [OF _ assms(1)]) (intro emits_rules)
qed

lemma NodeStageVolume_table:
  assumes run: "run_state (NodeStageVolume os req) s = (Inr (), s')"
    and laws: "mount_laws os links boot" and mount: "GetAccessType (stage_VolumeCapability req) \<noteq> Some BlockAccess"
    and disk: "getDiskID (stage_VolumeId req) (stage_PublishContext req) = Inr diskID"
    and unused: "unused (links (diskPath diskID)) paths (mount_table os links boot (trace s))"
  shows "\<exists>flags. mount_table os links boot (trace s') =
    mount_entry (links (diskPath diskID)) (stage_StagingTargetPath req) flags # mount_table os links boot (trace s)"
proof -
  obtain dev s1 where att: "run_state (attachedDevice os (stage_VolumeId req) (stage_PublishContext req)) s = (Inr dev, s1)"
    and stage: "run_state (stageMountVol os req dev) s1 = (Inr (), s')"
    using run mount by (auto simp: NodeStageVolume_def success_iffs)
  note dev = attachedDevice_laws [OF att disk laws]
  obtain fs flags where mnt: "ensureMountVol (stage_VolumeCapability req) = Inr (fs, flags)"
    using stage by (cases "ensureMountVol (stage_VolumeCapability req)") (auto simp: stageMountVol_def)
  from stage obtain u s2 ms s3 where ver: "run_state (verifyTargetDir os (stage_StagingTargetPath req)) s1 = (Inr u, s2)"
    and ms: "run_state (GetDevMounts os (RealDev dev)) s2 = (Inr ms, s3)"
    and rest: "run_state (if ms = [] then stageFresh os dev (stage_StagingTargetPath req) (stageFs req fs) flags
          (readOnlyMode (capMode (stage_VolumeCapability req)))
        else State_Monad.return (stagedAlready (stage_StagingTargetPath req)
          (readOnlyMode (capMode (stage_VolumeCapability req))) ms)) s3 = (Inr (), s')"
    unfolding stageMountVol_run [OF mnt] success_iffs by blast
  have t2: "mount_table os links boot (trace s2) = mount_table os links boot (trace s)"
    using reads_same(2) [OF _ ver] dev(3) by (simp add: emits_node_helpers)
  note ms = GetDevMounts_laws [OF laws ms]
  from ms(2) t2 have t3: "mount_table os links boot (trace s3) = mount_table os links boot (trace s)" by simp
  have "filter (\<lambda>m. mnt_Device m = RealDev dev) (mount_table os links boot (trace s2)) = []"
    using t2 unused dev(2) by (auto simp: unused_def filter_empty_conv)
  with same_mounts_length [OF ms(1)] have "ms = []" by simp
  with rest obtain flags where "run_state (change os (OsMount (FullPath dev) (stage_StagingTargetPath req) (stageFs req fs) flags)) s3 = (Inr (), s')
      \<or> run_state (change os (OsFormatAndMount (FullPath dev) (stage_StagingTargetPath req) (stageFs req fs) flags)) s3 = (Inr (), s')"
    by (auto simp: stageFresh_def success_iffs split: if_splits)
  with table_change [of os _ s3 "()" s' links boot] t3 dev(1) show ?thesis by fastforce
qed

text \<open>Publishing a staged volume.\<close>

lemma NodePublishVolume_table:
  assumes run: "run_state (NodePublishVolume os req) s = (Inr (), s')"
    and laws: "mount_laws os links boot" and mount: "GetAccessType (npub_VolumeCapability req) \<noteq> Some BlockAccess"
    and disk: "getDiskID (npub_VolumeId req) (npub_PublishContext req) = Inr diskID"
    and top: "mount_table os links boot (trace s) = mount_entry (links (diskPath diskID)) (npub_StagingTargetPath req) flags # ms"
    and unused: "unused (links (diskPath diskID)) paths ms"
  shows "\<exists>flags. mount_table os links boot (trace s') =
    mount_entry (links (diskPath diskID)) (npub_TargetPath req) flags # mount_table os links boot (trace s)"
proof -
  obtain dev s1 where att: "run_state (attachedDevice os (npub_VolumeId req) (npub_PublishContext req)) s = (Inr dev, s1)"
    and pub: "run_state (publishMountVol os req dev) s1 = (Inr (), s')"
    using run mount by (auto simp: NodePublishVolume_def success_iffs)
  note dev = attachedDevice_laws [OF att disk laws]
  obtain fs flags' where mnt: "ensureMountVol (npub_VolumeCapability req) = Inr (fs, flags')"
    using pub by (cases "ensureMountVol (npub_VolumeCapability req)") (auto simp: publishMountVol_def)
  from pub obtain b s2 u s3 devMnts s4 where mk: "run_state (mkdir os (npub_TargetPath req)) s1 = (Inr b, s2)"
    and ver: "run_state (verifyTargetDir os (npub_StagingTargetPath req)) s2 = (Inr u, s3)"
    and get: "run_state (getDevMounts os dev) s3 = (Inr devMnts, s4)"
    by (auto simp: publishMountVol_def mnt success_iffs Let_def)
  have bind: "\<exists>flags. run_state (change os (OsBindMount (npub_StagingTargetPath req) (npub_TargetPath req) flags)) s4 = (Inr (), s')"
    if "devMnts = [m]" for m
    using pub mk ver get that by (auto simp: publishMountVol_def mnt success_iffs Let_def)
  have t2: "mount_table os links boot (trace s2) = mount_table os links boot (trace s1)"
    by (rule table_kept [OF _ mk]) (intro emits_rules, simp_all add: read_mount_change)
  have t3: "mount_table os links boot (trace s3) = mount_table os links boot (trace s2)"
    by (rule reads_same(2) [OF _ ver]) (intro emits_rules)
  have t4: "mount_table os links boot (trace s4) = mount_table os links boot (trace s3)"
    by (rule reads_same(2) [OF _ get]) (intro emits_rules)
  note t = t2 t3 t4 dev(3) top
  obtain mnts where mnts: "run_state (GetMounts os) s3 = (Inr mnts, s4)"
    and devMnts: "devMnts = filter (\<lambda>m. mnt_Device m = RealDev dev \<or> mnt_Device m = ''devtmpfs'' \<and> mnt_Source m = RealDev dev) mnts"
    using get by (auto simp: getDevMounts_def success_iffs)
  let ?P = "\<lambda>m. mnt_Device m = RealDev dev \<or> mnt_Device m = ''devtmpfs'' \<and> mnt_Source m = RealDev dev"
  have "same_mounts devMnts (filter ?P (mount_table os links boot (trace s3)))"
    unfolding devMnts
    by (rule same_mounts_filter [OF GetMounts_laws(1) [OF laws mnts],
          where Q = "\<lambda>(d, p, src). d = RealDev dev \<or> d = ''devtmpfs'' \<and> src = RealDev dev"])
       (auto simp: mount_view_def)
  moreover have "filter ?P (mount_table os links boot (trace s3)) =
      [mount_entry (links (diskPath diskID)) (npub_StagingTargetPath req) flags]"
    using unused t dev(2) by (auto simp: unused_def mount_entry_def filter_empty_conv)
  ultimately obtain m where "devMnts = [m]" by (auto dest!: same_mounts_length simp: length_Suc_conv)
  from bind [OF this] obtain flags'' where
    "run_state (change os (OsBindMount (npub_StagingTargetPath req) (npub_TargetPath req) flags'')) s4 = (Inr (), s')" by blast
  from table_change [OF this, of links boot] t show ?thesis by (auto simp: mount_entry_def)
qed

lemma forE_append: "run_state (forE f (xs @ ys)) s = run_state (bindE (forE f xs) (\<lambda>_. forE f ys)) s"
  by (induction xs arbitrary: s) (auto simp: run_bindE split: prod.splits sum.splits)

lemma forE_skip: "(\<And>x. x \<in> set xs \<Longrightarrow> f x = State_Monad.return (Inr ())) \<Longrightarrow> run_state (forE f xs) s = (Inr (), s)"
  by (induction xs) (auto simp: run_bindE)

lemma NodeUnpublishVolume_table:
  assumes run: "run_state (NodeUnpublishVolume os target) s = (Inr (), s')"
    and laws: "mount_laws os links boot"
    and top: "mount_table os links boot (trace s) = m # ms" "mnt_Path m = target" "\<forall>m' \<in> set ms. mnt_Path m' \<noteq> target"
    and dev: "mnt_Device m = links disk" "links disk \<noteq> ''devtmpfs''"
  shows "mount_table os links boot (trace s') = ms"
proof -
  have "ans_Stat os target (trace s) \<noteq> Inl NotExist" using mount_lawsD(5) [OF laws] top(1,2) by force
  with run obtain st s1 where st: "run_state (Stat os target) s = (Inr st, s1)"
    and rest: "run_state (handle (getDevFromMount os target)
           (\<lambda>err. State_Monad.return (Inl (Status Internal ''error getting block device for volume: %s, err: %s'')))
           (\<lambda>d. case d of
              None \<Rightarrow> rmpath os target
            | Some dev \<Rightarrow>
                handle (GetMounts os)
                  (\<lambda>err. State_Monad.return (Inl (Status Internal ''could not reliably determine existing mount status: %s'')))
                  (\<lambda>mnts. forE (\<lambda>m.
                     if (mnt_Source m = RealDev dev \<or> mnt_Device m = RealDev dev) \<and> mnt_Path m = target
                     then handle (change os (OsUnmount target))
                       (\<lambda>err. State_Monad.return (Inl (Status Internal ''Error unmounting target: %s'')))
                       (\<lambda>_. rmpath os target)
                     else State_Monad.return (Inr ())) mnts))) s1 = (Inr (), s')"
    by (auto simp: NodeUnpublishVolume_def Stat_def run_handle split: sum.splits error.splits)
  have t1: "mount_table os links boot (trace s1) = m # ms"
    unfolding top(1) [symmetric] by (rule reads_same(2) [OF _ st]) (intro emits_rules)
  from rest obtain d s2 where get: "run_state (getDevFromMount os target) s1 = (Inr d, s2)"
    by (auto simp: success_iffs)
  obtain dv where d: "d = Some dv" "RealDev dv = links disk"
    using getDevFromMount_laws(1) [OF laws get t1 top(2,3) dev] by blast
  note t2 = getDevFromMount_laws(2) [OF laws get t1 top(2,3) dev]
  let ?f = "\<lambda>m. if (mnt_Source m = RealDev dv \<or> mnt_Device m = RealDev dv) \<and> mnt_Path m = target
    then handle (change os (OsUnmount target))
      (\<lambda>err. State_Monad.return (Inl (Status Internal ''Error unmounting target: %s''))) (\<lambda>_. rmpath os target)
    else State_Monad.return (Inr ())"
  from rest get d(1) obtain mnts s3 where mnts: "run_state (GetMounts os) s2 = (Inr mnts, s3)"
    and loop: "run_state (forE ?f mnts) s3 = (Inr (), s')" by (auto simp: success_iffs)
  note same = GetMounts_laws(1) [OF laws mnts, unfolded t2]
  have "same_mounts (filter (\<lambda>m. mnt_Path m = target) mnts) (filter (\<lambda>m. mnt_Path m = target) (m # ms))"
    by (rule same_mounts_filter [OF same, where Q = "\<lambda>(d, p, src). p = target"]) (simp add: mount_view_def)
  moreover have "filter (\<lambda>m. mnt_Path m = target) (m # ms) = [m]" using top(2,3) by (auto simp: filter_empty_conv)
  ultimately have "length (filter (\<lambda>m. mnt_Path m = target) mnts) = 1" by (auto dest: same_mounts_length)
  then obtain xs m' ys where split: "mnts = xs @ m' # ys" and m': "mnt_Path m' = target"
    and others: "\<forall>x \<in> set xs \<union> set ys. mnt_Path x \<noteq> target" by (rule filter_single)
  have "mnt_Device m' = RealDev dv"
    using same_mounts_ex [OF same, of m'] split m' top(3) dev(1) d(2) by (auto simp: mount_view_def)
  with m' have f: "?f m' = handle (change os (OsUnmount target))
      (\<lambda>err. State_Monad.return (Inl (Status Internal ''Error unmounting target: %s''))) (\<lambda>_. rmpath os target)"
    by simp
  have skip: "run_state (forE ?f xs) t = (Inr (), t)" "run_state (forE ?f ys) t = (Inr (), t)" for t
    using others by (auto intro!: forE_skip)
  from loop obtain t where "run_state (?f m') s3 = (Inr (), t)" and "run_state (forE ?f ys) t = (Inr (), s')"
    unfolding split forE_append forE.simps bindE_Inr_iff skip by auto
  with skip(2) [of t] have "run_state (?f m') s3 = (Inr (), s')" by simp
  from this [unfolded f success_iffs] obtain u s4 where
    "run_state (change os (OsUnmount target)) s3 = (Inr u, s4)" and rm: "run_state (rmpath os target) s4 = (Inr (), s')"
    by blast
  from table_change [OF this(1), of links boot] GetMounts_laws(2) [OF laws mnts] t2 top(2)
  have "mount_table os links boot (trace s4) = ms" by simp
  moreover have "mount_table os links boot (trace s') = mount_table os links boot (trace s4)"
    by (rule table_kept [OF _ rm]) (intro emits_rules, simp_all add: read_mount_change)
  ultimately show ?thesis by simp
qed

lemma NodeUnstageVolume_table:
  assumes run: "run_state (NodeUnstageVolume os target) s = (Inr (), s')"
    and laws: "mount_laws os links boot"
    and top: "mount_table os links boot (trace s) = m # ms" "mnt_Path m = target" "\<forall>m' \<in> set ms. mnt_Path m' \<noteq> target"
    and dev: "mnt_Device m = links disk" "links disk \<noteq> ''devtmpfs''"
  shows "mount_table os links boot (trace s') = ms"
proof -
  from run obtain u s1 d s2 where ver: "run_state (verifyTargetDir os target) s = (Inr u, s1)"
    and get: "run_state (getDevFromMount os target) s1 = (Inr d, s2)"
    by (auto simp: NodeUnstageVolume_def success_iffs)
  have t1: "mount_table os links boot (trace s1) = m # ms"
    unfolding top(1) [symmetric] by (rule reads_same(2) [OF _ ver]) (intro emits_rules)
  obtain dv where "d = Some dv" using getDevFromMount_laws(1) [OF laws get t1 top(2,3) dev] by blast
  note t2 = getDevFromMount_laws(2) [OF laws get t1 top(2,3) dev]
  from run ver get \<open>d = Some dv\<close> obtain mnts s3 where
    mnts: "run_state (GetDevMounts os (RealDev dv)) s2 = (Inr mnts, s3)"
    and "run_state (change os (OsUnmount target)) s3 = (Inr (), s')"
    by (auto simp: NodeUnstageVolume_def success_iffs split: if_splits)
  from table_change [OF this(2), of links boot] GetDevMounts_laws(2) [OF laws mnts] t2 top(2) show ?thesis by simp
qed

section \<open>UUIDs\<close>

definition uuid_form :: "string \<Rightarrow> bool" where
  "uuid_form u \<longleftrightarrow> length u = 36 \<and> list_all (\<lambda>i. u ! i = CHR ''-'') [8, 13, 18, 23]"

lemma slice_append: "i \<le> j \<Longrightarrow> j \<le> k \<Longrightarrow> slice u i j @ slice u j k = slice u i k"
  by (rule nth_equalityI) (auto simp: slice_def nth_append min_def add.commute)

lemma slice_one: "i < length u \<Longrightarrow> slice u i (Suc i) = [u ! i]"
  by (simp add: slice_def take_Suc_conv_app_nth)

lemma length_slice: "j \<le> length u \<Longrightarrow> length (slice u i j) = j - i"
  by (simp add: slice_def)

lemma uuid_parts:
  assumes "uuid_form u"
  obtains a b c d e f g h i j where
    "u = a @ b @ c @ d @ ''-'' @ e @ f @ ''-'' @ g @ h @ ''-'' @ i @ ''-'' @ j"
    and "map length [a, b, c, d, e, f, g, h, i, j] = [2, 2, 2, 2, 2, 2, 2, 2, 4, 12]"
proof -
  have dash: "slice u k (Suc k) = ''-''" if "k \<in> {8, 13, 18, 23}" for k
    using assms that by (subst slice_one) (auto simp: uuid_form_def)
  have "u = slice u 0 36" using assms by (simp add: slice_def uuid_form_def)
  also have "\<dots> = slice u 0 2 @ slice u 2 4 @ slice u 4 6 @ slice u 6 8 @ slice u 8 (Suc 8) @ slice u 9 11 @ slice u 11 13 @
      slice u 13 (Suc 13) @ slice u 14 16 @ slice u 16 18 @ slice u 18 (Suc 18) @ slice u 19 23 @ slice u 23 (Suc 23) @ slice u 24 36"
    by (simp add: slice_append)
  finally show ?thesis using assms
    by (intro that [of "slice u 0 2" "slice u 2 4" "slice u 4 6" "slice u 6 8" "slice u 9 11" "slice u 11 13"
        "slice u 14 16" "slice u 16 18" "slice u 19 23" "slice u 24 36"])
       (simp_all only: dash insert_iff simp_thms, simp add: uuid_form_def length_slice)
qed

text \<open>
  The fields of a UUID, the bytes (pairs of hexadecimal digits) of a field, and the UUID in the other byte
  order: the first three fields are numbers, whose bytes are reversed, the last two are byte strings.
\<close>

definition uuid_fields :: "string \<Rightarrow> string list" where
  "uuid_fields u = [take 8 u, take 4 (drop 9 u), take 4 (drop 14 u), take 4 (drop 19 u), drop 24 u]"

fun bytes_of :: "string \<Rightarrow> string list" where
  "bytes_of (x # y # xs) = [x, y] # bytes_of xs"
| "bytes_of xs = []"

fun join_fields :: "string list \<Rightarrow> string" where
  "join_fields [] = []"
| "join_fields [f] = f"
| "join_fields (f # fs) = f @ ''-'' @ join_fields fs"

definition other_byte_order :: "string \<Rightarrow> string" where
  "other_byte_order u =
     join_fields (map (\<lambda>f. concat (rev (bytes_of f))) (take 3 (uuid_fields u)) @ drop 3 (uuid_fields u))"

lemma length_2: "length xs = 2 \<longleftrightarrow> (\<exists>x y. xs = [x, y])"
  by (auto simp: numeral_2_eq_2 length_Suc_conv)

lemma other_byte_order_parts:
  assumes "map length [a, b, c, d, e, f, g, h, i, j] = [2, 2, 2, 2, 2, 2, 2, 2, 4, 12]"
  shows "other_byte_order (a @ b @ c @ d @ ''-'' @ e @ f @ ''-'' @ g @ h @ ''-'' @ i @ ''-'' @ j) =
    d @ c @ b @ a @ ''-'' @ f @ e @ ''-'' @ h @ g @ ''-'' @ i @ ''-'' @ j"
  using assms by (auto simp: other_byte_order_def uuid_fields_def length_2)

lemma ToLower_dash [simp]: "ToLower (CHR ''-'' # xs) = CHR ''-'' # ToLower xs"
  by (simp add: ToLower_def ToLower_char_def)

lemma convertUUID_parts:
  assumes "map length [a, b, c, d, e, f, g, h, i, j] = [2, 2, 2, 2, 2, 2, 2, 2, 4, 12]"
  shows "convertUUID (a @ b @ c @ d @ ''-'' @ e @ f @ ''-'' @ g @ h @ ''-'' @ i @ ''-'' @ j) =
    Inr (ToLower (d @ c @ b @ a @ ''-'' @ f @ e @ ''-'' @ h @ g @ ''-'' @ i @ ''-'' @ j))"
  using assms by (simp add: convertUUID_def slice_def)

section \<open>Properties\<close>

text \<open>
  C11. Staging changes the host at most once, by the mount the request stands for, and it mounts only
  a device the host reported as not mounted anywhere; in particular a disk is never formatted for a
  read-only access mode, and never while it is mounted. When staging succeeds without a change the
  volume is a block volume, or the host reported the device as mounted at the staging path in the
  requested mode.\<close>

theorem NodeStageVolume_mounts_once:
  assumes "run_state (NodeStageVolume os req) s = (r, s')"
  shows "(\<exists>diskID c. getDiskID (stage_VolumeId req) (stage_PublishContext req) = Inr diskID \<and>
      listed os diskID [] \<and> staging_mount req diskID c \<and> changes s' = changes s @ [c]) \<or>
    changes s' = changes s \<and> (r = Inr () \<longrightarrow>
      GetAccessType (stage_VolumeCapability req) = Some BlockAccess \<or>
      (\<exists>diskID ms. getDiskID (stage_VolumeId req) (stage_PublishContext req) = Inr diskID \<and>
         listed os diskID ms \<and> staged_as req ms))"
  using assms by (rule NodeStageVolume_changes)


text \<open>
  C30. Whatever the host answers, staging, unstaging, publishing and unpublishing leave the mounts of
  every other path than the one in the request as they are.\<close>

theorem mounts_elsewhere_kept:
  assumes "run_state (NodeStageVolume os st) s = (r1, s1)" and "run_state (NodePublishVolume os pub) s1 = (r2, s2)"
    and "run_state (NodeUnpublishVolume os target) s2 = (r3, s3)" and "run_state (NodeUnstageVolume os staging) s3 = (r4, s4)"
    and "mnt_Path m \<notin> {stage_StagingTargetPath st, npub_TargetPath pub, target, staging}"
  shows "count_list (mount_table os links boot (trace s4)) m = count_list (mount_table os links boot (trace s)) m"
proof -
  have count: "filter (\<lambda>m. mnt_Path m \<noteq> p) xs = filter (\<lambda>m. mnt_Path m \<noteq> p) ys \<Longrightarrow> mnt_Path m \<noteq> p \<Longrightarrow>
      count_list xs m = count_list ys m" for p xs ys
    using count_list_filter [of "\<lambda>m. mnt_Path m \<noteq> p" m xs] count_list_filter [of "\<lambda>m. mnt_Path m \<noteq> p" m ys] by simp
  note steps = stage_op.mounts_elsewhere [OF assms(1)] publish_op.mounts_elsewhere [OF assms(2)]
    unpublish_op.mounts_elsewhere [OF assms(3)] unstage_op.mounts_elsewhere [OF assms(4)]
  from assms(5) show ?thesis
    using steps [THEN count, of os links boot] by simp
qed

text \<open>
  C36. Converting a UUID in the usual form reverses the bytes of its first three fields, keeps the last two
  fields, and puts it in lower case; converting the result back gives the UUID in lower case. A string of
  another length is refused.\<close>

theorem convertUUID_byte_order:
  "(uuid_form u \<longrightarrow> convertUUID u = Inr (ToLower (other_byte_order u)) \<and>
      uuid_form (ToLower (other_byte_order u)) \<and> convertUUID (ToLower (other_byte_order u)) = Inr (ToLower u)) \<and>
   (length u \<noteq> 36 \<longrightarrow> convertUUID u = Inl (Errorf ''uuid length should be 36''))"
proof (intro conjI impI)
  assume "uuid_form u"
  then obtain a b c d e f g h i j where u: "u = a @ b @ c @ d @ ''-'' @ e @ f @ ''-'' @ g @ h @ ''-'' @ i @ ''-'' @ j"
    and len: "map length [a, b, c, d, e, f, g, h, i, j] = [2, 2, 2, 2, 2, 2, 2, 2, 4, 12]"
    by (rule uuid_parts)
  let ?l = ToLower
  have v: "ToLower (other_byte_order u) =
      ?l d @ ?l c @ ?l b @ ?l a @ ''-'' @ ?l f @ ?l e @ ''-'' @ ?l h @ ?l g @ ''-'' @ ?l i @ ''-'' @ ?l j"
    unfolding u other_byte_order_parts [OF len] by simp
  show "convertUUID u = Inr (ToLower (other_byte_order u))" unfolding v using convertUUID_parts [OF len] by (simp add: u)
  show "convertUUID (ToLower (other_byte_order u)) = Inr (ToLower u)"
    using convertUUID_parts [of "?l d" "?l c" "?l b" "?l a" "?l f" "?l e" "?l h" "?l g" "?l i" "?l j"] len
    unfolding v by (simp add: u)
  show "uuid_form (ToLower (other_byte_order u))" using len unfolding v by (simp add: uuid_form_def nth_append)
qed (simp add: convertUUID_def)

text \<open>
  Publishing a block volume panics when its target path cannot be examined: \<open>mkfile\<close> tests the error
  of \<open>os.Stat\<close> only for a missing file and then uses the file information, which is nil.\<close>

lemma publishBlockVol_panics:
  assumes "ans_Stat os (npub_TargetPath req) (trace s) = Inl err" and "err \<noteq> NotExist"
  shows "\<exists>p s'. run_state (publishBlockVol os req dev) s = (Inl (Panic p), s')"
  using assms by (cases err) (simp_all add: publishBlockVol_def mkfile_def Stat_def run_handle Let_def)

text \<open>
  A volume that is mounted, but not at the staging path of the request, is published nevertheless:
  the staging directory, which holds nothing of the volume, is bound to the target.\<close>

lemma publish_ignores_staging_path:
  assumes "ensureMountVol (npub_VolumeCapability req) = Inr (fs, flags)"
    and "run_state (mkdir os (npub_TargetPath req)) s = (Inr b, s1)"
    and "run_state (verifyTargetDir os (npub_StagingTargetPath req)) s1 = (Inr (), s2)"
    and "run_state (getDevMounts os dev) s2 = (Inr [m], s3)" and "mnt_Path m \<noteq> npub_StagingTargetPath req"
  shows "\<exists>flags s' r. run_state (publishMountVol os req dev) s = (r, s') \<and>
    changes s' = changes s3 @ [OsBindMount (npub_StagingTargetPath req) (npub_TargetPath req) flags]"
  using assms(1-4)
  by (auto simp: publishMountVol_def Let_def run_handle run_bindE change_def changes_def split: sum.splits error.splits prod.splits)

section \<open>Witnesses\<close>

text \<open>A host with one attached disk, whose answers follow the mount table.\<close>

definition sample_links :: "string \<Rightarrow> string" where
  "sample_links p = (if p = diskPath ''6000c29'' then ''/dev/sdb'' else p)"

definition sample_boot :: "mount_info list" where
  "sample_boot = [mount_entry ''/dev/sda1'' ''/'' []]"

definition quiet_os :: os_env where
  "quiet_os = \<lparr>ans_ReadDir = (\<lambda>_ _. Inr [''wwn-0x6000c29'']),
     ans_Lstat = (\<lambda>p _. Inr \<lparr>fi_Name = p, fi_IsDir = False, fi_ModeDevice = False\<rparr>),
     ans_Stat = (\<lambda>p _. Inr \<lparr>fi_Name = p, fi_IsDir = (p \<noteq> ''/dev/sdb''), fi_ModeDevice = (p = ''/dev/sdb'')\<rparr>),
     ans_EvalSymlinks = (\<lambda>p _. Inr (sample_links p)), ans_GetMounts = (\<lambda>_. Inr []), ans_GetDevMounts = (\<lambda>_ _. Inr []),
     ans_Change = (\<lambda>_ _. Inr ())\<rparr>"

text \<open>Its listings start with the oldest mount and report options of the kernel and the path of a mount as its source.\<close>

definition sample_listing :: "mount_info list \<Rightarrow> mount_info list" where
  "sample_listing ms = rev (map (\<lambda>m. m\<lparr>mnt_Opts := [''rw'', ''relatime''],
     mnt_Source := if mnt_Device m = ''devtmpfs'' then mnt_Source m else mnt_Path m\<rparr>) ms)"

lemma sample_listing_same: "same_mounts (sample_listing ms) ms"
proof -
  have "mount_view (m\<lparr>mnt_Opts := opts, mnt_Source := if mnt_Device m = ''devtmpfs'' then mnt_Source m else src\<rparr>) =
      mount_view m" for m opts src by (simp add: mount_view_def)
  then show ?thesis by (simp add: same_mounts_def sample_listing_def image_mset.compositionality o_def)
qed

definition sample_os :: os_env where
  "sample_os = quiet_os\<lparr>
     ans_GetMounts := (\<lambda>h. Inr (sample_listing (mount_table quiet_os sample_links sample_boot h))),
     ans_GetDevMounts := (\<lambda>dev h. Inr (sample_listing (filter (\<lambda>m. mnt_Device m = dev) (mount_table quiet_os sample_links sample_boot h))))\<rparr>"

lemma table_rev_answers: "ans_Change os = ans_Change os' \<Longrightarrow> table_rev os links boot h = table_rev os' links boot h"
  by (induction h) auto

lemma sample_os_table: "mount_table sample_os = mount_table quiet_os"
  unfolding mount_table_def by (intro ext table_rev_answers) (simp add: sample_os_def)

lemma sample_os_answers:
  "ans_ReadDir sample_os = (\<lambda>_ _. Inr [''wwn-0x6000c29''])"
  "ans_Lstat sample_os = (\<lambda>p _. Inr \<lparr>fi_Name = p, fi_IsDir = False, fi_ModeDevice = False\<rparr>)"
  "ans_Stat sample_os = (\<lambda>p _. Inr \<lparr>fi_Name = p, fi_IsDir = (p \<noteq> ''/dev/sdb''), fi_ModeDevice = (p = ''/dev/sdb'')\<rparr>)"
  "ans_EvalSymlinks sample_os = (\<lambda>p _. Inr (sample_links p))" "ans_Change sample_os = (\<lambda>_ _. Inr ())"
  "ans_GetMounts sample_os = (\<lambda>h. Inr (sample_listing (mount_table sample_os sample_links sample_boot h)))"
  "ans_GetDevMounts sample_os = (\<lambda>dev h. Inr (sample_listing (filter (\<lambda>m. mnt_Device m = dev) (mount_table sample_os sample_links sample_boot h))))"
  unfolding sample_os_table by (simp_all add: sample_os_def quiet_os_def)

lemma sample_os_laws: "mount_laws sample_os sample_links sample_boot"
  unfolding mount_laws_def
  by (auto simp: sample_os_answers sample_links_def diskPath_def devDiskID_def sample_listing_same)

definition sample_cap :: volume_capability where
  "sample_cap = \<lparr>AccessMode = Some SINGLE_NODE_WRITER, AccessType = Some (MountAccess [] [])\<rparr>"

definition sample_stage :: node_stage_request where
  "sample_stage = \<lparr>stage_VolumeId = ''vol-1'', stage_PublishContext = [(AttributeFirstClassDiskUUID, ''6000c29'')],
     stage_StagingTargetPath = ''/stage'', stage_VolumeCapability = Some sample_cap, stage_VolumeContext = []\<rparr>"

definition sample_npub :: node_publish_request where
  "sample_npub = \<lparr>npub_VolumeId = ''vol-1'', npub_PublishContext = [(AttributeFirstClassDiskUUID, ''6000c29'')],
     npub_StagingTargetPath = ''/stage'', npub_TargetPath = ''/pod'', npub_VolumeCapability = Some sample_cap, npub_Readonly = False\<rparr>"

definition sample_host :: "os_call proc" where
  "sample_host = \<lparr>trace = []\<rparr>"

lemmas sample_run_simps = node_mount_defs run_bindE run_handle sample_os_answers sample_links_def diskPath_def
  devDiskID_def blockPrefix_def Let_def sample_cap_def sample_stage_def sample_npub_def GetAccessType_def capMode_def
  mount_table_def mount_entry_def sample_boot_def sample_listing_def

lemma sample_disk:
  "getDiskID (stage_VolumeId sample_stage) (stage_PublishContext sample_stage) = Inr ''6000c29''"
  "getDiskID (npub_VolumeId sample_npub) (npub_PublishContext sample_npub) = Inr ''6000c29''"
  by (simp_all add: getDiskID_def sample_stage_def sample_npub_def)

lemma sample_stage_run:
  "\<exists>s1. run_state (NodeStageVolume sample_os sample_stage) sample_host = (Inr (), s1) \<and>
     trace s1 = [OsReadDir devDiskID, OsLstat (diskPath ''6000c29''), OsEvalSymlinks (diskPath ''6000c29''),
       OsStat ''/dev/sdb'', OsStat ''/stage'', OsGetDevMounts ''/dev/sdb'',
       OsFormatAndMount (diskPath ''6000c29'') ''/stage'' DefaultFsType []]"
  by (simp add: NodeStageVolume_def stageMountVol_def stageFresh_def sample_run_simps sample_host_def segment_def
      readOnlyMode_def GetMode_def)

lemma sample_publish_run:
  "\<exists>s2. run_state (NodePublishVolume sample_os sample_npub) s1 = (Inr (), s2) \<and>
     trace s2 = trace s1 @ [OsReadDir devDiskID, OsLstat (diskPath ''6000c29''), OsEvalSymlinks (diskPath ''6000c29''),
       OsStat ''/dev/sdb'', OsStat ''/pod'', OsStat ''/stage'', OsGetMounts, OsBindMount ''/stage'' ''/pod'' []]"
  if "trace s1 = [OsReadDir devDiskID, OsLstat (diskPath ''6000c29''), OsEvalSymlinks (diskPath ''6000c29''),
       OsStat ''/dev/sdb'', OsStat ''/stage'', OsGetDevMounts ''/dev/sdb'',
       OsFormatAndMount (diskPath ''6000c29'') ''/stage'' DefaultFsType []]"
  using that by (simp add: NodePublishVolume_def publishMountVol_def sample_run_simps)

lemmas sample_table_simps = mount_table_reads sample_os_answers node_mount_defs run_bindE run_handle sample_links_def
  diskPath_def devDiskID_def mount_entry_def sample_listing_def

lemma sample_unpublish_run:
  assumes "mount_table sample_os sample_links sample_boot (trace s2) =
    mount_entry ''/dev/sdb'' ''/pod'' [] # mount_entry ''/dev/sdb'' ''/stage'' [] # sample_boot"
  shows "\<exists>s3. run_state (NodeUnpublishVolume sample_os ''/pod'') s2 = (Inr (), s3)"
  using assms by (simp add: NodeUnpublishVolume_def sample_table_simps sample_boot_def)

lemma sample_unstage_run:
  assumes "mount_table sample_os sample_links sample_boot (trace s3) = mount_entry ''/dev/sdb'' ''/stage'' [] # sample_boot"
  shows "\<exists>s4. run_state (NodeUnstageVolume sample_os ''/stage'') s3 = (Inr (), s4)"
  using assms by (simp add: NodeUnstageVolume_def sample_table_simps sample_boot_def)

lemma sample_lifecycle:
  obtains s1 s2 s3 s4 where "run_state (NodeStageVolume sample_os sample_stage) sample_host = (Inr (), s1)"
    and "run_state (NodePublishVolume sample_os sample_npub) s1 = (Inr (), s2)"
    and "run_state (NodeUnpublishVolume sample_os ''/pod'') s2 = (Inr (), s3)"
    and "run_state (NodeUnstageVolume sample_os ''/stage'') s3 = (Inr (), s4)"
proof -
  let ?T = "mount_table sample_os sample_links sample_boot"
  obtain s1 where s1: "run_state (NodeStageVolume sample_os sample_stage) sample_host = (Inr (), s1)"
    "trace s1 = [OsReadDir devDiskID, OsLstat (diskPath ''6000c29''), OsEvalSymlinks (diskPath ''6000c29''),
       OsStat ''/dev/sdb'', OsStat ''/stage'', OsGetDevMounts ''/dev/sdb'',
       OsFormatAndMount (diskPath ''6000c29'') ''/stage'' DefaultFsType []]"
    using sample_stage_run by blast
  obtain s2 where s2: "run_state (NodePublishVolume sample_os sample_npub) s1 = (Inr (), s2)"
    "trace s2 = trace s1 @ [OsReadDir devDiskID, OsLstat (diskPath ''6000c29''), OsEvalSymlinks (diskPath ''6000c29''),
       OsStat ''/dev/sdb'', OsStat ''/pod'', OsStat ''/stage'', OsGetMounts, OsBindMount ''/stage'' ''/pod'' []]"
    using sample_publish_run [OF s1(2)] by blast
  have t2: "?T (trace s2) = mount_entry ''/dev/sdb'' ''/pod'' [] # mount_entry ''/dev/sdb'' ''/stage'' [] # sample_boot"
    unfolding s2(2) s1(2) by (simp add: mount_table_def sample_os_answers sample_links_def mount_entry_def)
  obtain s3 where s3: "run_state (NodeUnpublishVolume sample_os ''/pod'') s2 = (Inr (), s3)"
    using sample_unpublish_run [OF t2] by blast
  have "?T (trace s3) = mount_entry ''/dev/sdb'' ''/stage'' [] # sample_boot"
    by (rule NodeUnpublishVolume_table [OF s3 sample_os_laws t2, of "''/dev/sdb''"])
       (simp_all add: mount_entry_def sample_boot_def sample_links_def diskPath_def devDiskID_def)
  from sample_unstage_run [OF this] s1(1) s2(1) s3 that show ?thesis by blast
qed

theorem NodeStageVolume_mounts_once_witness:
  "\<exists>s1 c. run_state (NodeStageVolume sample_os sample_stage) sample_host = (Inr (), s1) \<and>
     staging_mount sample_stage ''6000c29'' c \<and> changes s1 = [c]"
proof -
  obtain s1 where run: "run_state (NodeStageVolume sample_os sample_stage) sample_host = (Inr (), s1)"
    and "changes s1 \<noteq> []" using sample_stage_run by (fastforce simp: changes_def)
  moreover have "changes sample_host = []" by (simp add: changes_def sample_host_def)
  ultimately show ?thesis using NodeStageVolume_mounts_once [OF run] sample_disk(1) by auto
qed


theorem mounts_elsewhere_kept_witness:
  "\<exists>s1 s2 s3 s4. run_state (NodeStageVolume sample_os sample_stage) sample_host = (Inr (), s1) \<and>
     run_state (NodePublishVolume sample_os sample_npub) s1 = (Inr (), s2) \<and>
     run_state (NodeUnpublishVolume sample_os ''/pod'') s2 = (Inr (), s3) \<and>
     run_state (NodeUnstageVolume sample_os ''/stage'') s3 = (Inr (), s4) \<and>
     count_list (mount_table sample_os sample_links sample_boot (trace s4)) (mount_entry ''/dev/sda1'' ''/'' []) = 1"
proof -
  obtain s1 s2 s3 s4 where run: "run_state (NodeStageVolume sample_os sample_stage) sample_host = (Inr (), s1)"
    "run_state (NodePublishVolume sample_os sample_npub) s1 = (Inr (), s2)"
    "run_state (NodeUnpublishVolume sample_os ''/pod'') s2 = (Inr (), s3)"
    "run_state (NodeUnstageVolume sample_os ''/stage'') s3 = (Inr (), s4)"
    by (rule sample_lifecycle)
  have "count_list (mount_table sample_os sample_links sample_boot (trace s4)) (mount_entry ''/dev/sda1'' ''/'' []) = 1"
    using mounts_elsewhere_kept [OF run, of "mount_entry ''/dev/sda1'' ''/'' []" sample_links sample_boot]
    by (simp add: sample_stage_def sample_npub_def mount_entry_def sample_host_def mount_table_def sample_boot_def)
  with run show ?thesis by blast
qed

theorem convertUUID_byte_order_witness:
  "convertUUID ''6B8C2042-0DD1-D037-156F-435F999D94C1'' = Inr ''42208c6b-d10d-37d0-156f-435f999d94c1'' \<and>
   convertUUID ''42208c6b-d10d-37d0-156f-435f999d94c1'' = Inr ''6b8c2042-0dd1-d037-156f-435f999d94c1''"
proof -
  let ?u = "''6B8C2042-0DD1-D037-156F-435F999D94C1''"
  have "ToLower (other_byte_order ?u) = ''42208c6b-d10d-37d0-156f-435f999d94c1''"
    "ToLower ?u = ''6b8c2042-0dd1-d037-156f-435f999d94c1''"
    by (simp_all add: other_byte_order_def uuid_fields_def ToLower_def ToLower_char_def char_of_def bit_0)
  with convertUUID_byte_order [of ?u] show ?thesis by (simp add: uuid_form_def)
qed

definition sample_dev :: device where
  "sample_dev = \<lparr>FullPath = diskPath ''6000c29'', dev_Name = ''wwn-0x6000c29'', RealDev = ''/dev/sdb''\<rparr>"

lemma publishBlockVol_panics_witness:
  "\<exists>p s'. run_state (publishBlockVol (sample_os\<lparr>ans_Stat := (\<lambda>_ _. Inl (OutsideError ''permission denied''))\<rparr>) sample_npub sample_dev)
     sample_host = (Inl (Panic p), s')"
  by (rule publishBlockVol_panics [of _ _ _ "OutsideError ''permission denied''"]) simp_all

lemma publish_ignores_staging_path_witness:
  "\<exists>flags s' r. run_state (publishMountVol sample_os sample_npub sample_dev)
       \<lparr>trace = [OsMount (diskPath ''6000c29'') ''/other'' ''ext4'' []]\<rparr> = (r, s') \<and>
     OsBindMount ''/stage'' ''/pod'' flags \<in> set (changes s')"
proof -
  define s :: "os_call proc" where "s = \<lparr>trace = [OsMount (diskPath ''6000c29'') ''/other'' ''ext4'' []]\<rparr>"
  define s1 where "s1 = s\<lparr>trace := trace s @ [OsStat ''/pod'']\<rparr>"
  define s2 where "s2 = s1\<lparr>trace := trace s1 @ [OsStat ''/stage'']\<rparr>"
  have cap: "ensureMountVol (npub_VolumeCapability sample_npub) = Inr ([], [])"
    by (simp add: ensureMountVol_def sample_npub_def sample_cap_def GetAccessType_def)
  have mk: "run_state (mkdir sample_os (npub_TargetPath sample_npub)) s = (Inr False, s1)"
    by (simp add: mkdir_def Stat_def run_handle sample_os_answers sample_npub_def s1_def)
  have ver: "run_state (verifyTargetDir sample_os (npub_StagingTargetPath sample_npub)) s1 = (Inr (), s2)"
    by (simp add: verifyTargetDir_def Stat_def run_handle sample_os_answers sample_npub_def s2_def)
  have get: "\<exists>s3. run_state (getDevMounts sample_os sample_dev) s2 = (Inr (sample_listing [mount_entry ''/dev/sdb'' ''/other'' []]), s3)"
    by (simp add: getDevMounts_def GetMounts_def run_bindE sample_os_answers sample_dev_def s1_def s2_def s_def
        mount_table_def sample_links_def sample_boot_def mount_entry_def sample_listing_def)
  then obtain m s3 where get: "run_state (getDevMounts sample_os sample_dev) s2 = (Inr [m], s3)" "mnt_Path m = ''/other''"
    by (auto simp: sample_listing_def mount_entry_def)
  from publish_ignores_staging_path [OF cap mk ver get(1)] get(2) show ?thesis
    by (fastforce simp: sample_npub_def s_def)
qed

declare run_bindE [simp] run_handle [simp]

end
