(* ===== verification/Node_Info.thy ===== *)
theory Node_Info
  imports Controller Node_Lifecycle
begin

text \<open>
  The rest of \<open>pkg/csi/service\<close>: \<open>NodeGetInfo\<close> of \<open>node.go\<close>, through which a node tells the container
  orchestrator its name and its topology, the identity service (\<open>identity.go\<close>) and the start of the
  plugin (\<open>service.go\<close>).

  The name of the host and the content of its file \<^verbatim>\<open>/sys/class/dmi/id/product_uuid\<close> are the fields
  of \<open>node_host\<close>. The names of the environment variables that gocsi defines are arguments.
\<close>

record node_host =
  os_Hostname :: "error + string"
  dmi_product_uuid :: "error + string"

definition getSystemUUID :: "node_host \<Rightarrow> error + string" where
  "getSystemUUID host = (case dmi_product_uuid host of
     Inl err \<Rightarrow> Inl err
   | Inr idb \<Rightarrow> Inr (ToLower (TrimSpace idb)))"

definition internal :: "error \<Rightarrow> error" where
  "internal err = Status Internal ''%v''"

text \<open>The virtual machine of the node: a UUID that vCenter does not know is tried in the other byte order.\<close>

definition findNodeVM :: "env \<Rightarrow> inventory_env \<Rightarrow> string \<Rightarrow> ('z, virtual_machine) progE" where
  "findNodeVM env ienv uuid =
     handle (GetVirtualMachineByUUID env ienv uuid False)
       (\<lambda>_. case convertUUID uuid of
          Inl err \<Rightarrow> State_Monad.return (Inl (internal err))
        | Inr uuid' \<Rightarrow>
            handle (GetVirtualMachineByUUID env ienv uuid' False)
              (\<lambda>err. State_Monad.return (Inl (internal err)))
              (\<lambda>nodeVM. State_Monad.return (Inr nodeVM)))
       (\<lambda>nodeVM. State_Monad.return (Inr nodeVM))"

text \<open>From the connection to vCenter to the zone and the region of the node.\<close>

definition nodeZoneRegion ::
  "env \<Rightarrow> inventory_env \<Rightarrow> node_host \<Rightarrow> config \<Rightarrow> nat \<Rightarrow> ('z, string \<times> string) progE" where
  "nodeZoneRegion env ienv host cfg vcenter =
     handle (Connect env vcenter)
       (\<lambda>err. State_Monad.return (Inl (internal err)))
       (\<lambda>_. case getSystemUUID host of
          Inl err \<Rightarrow> State_Monad.return (Inl (internal err))
        | Inr uuid \<Rightarrow>
            bindE (findNodeVM env ienv uuid) (\<lambda>vm.
            handle (GetZoneRegion env ienv vm (Labels_Zone cfg) (Labels_Region cfg))
              (\<lambda>err. State_Monad.return (Inl (internal err)))
              (\<lambda>zr. State_Monad.return (Inr zr))))"

text \<open>
  The deferred \<open>UnregisterAllVirtualCenters\<close> runs on every return after the registration; its error is
  dropped.
\<close>

definition nodeTopology ::
  "env \<Rightarrow> inventory_env \<Rightarrow> node_host \<Rightarrow> config \<Rightarrow> ('z, string \<times> string) progE" where
  "nodeTopology env ienv host cfg =
     (case GetVirtualCenterConfig cfg of
        Inl err \<Rightarrow> State_Monad.return (Inl (internal err))
      | Inr vcenterconfig \<Rightarrow>
          handle (RegisterVirtualCenter vcenterconfig)
            (\<lambda>err. State_Monad.return (Inl (internal err)))
            (\<lambda>vcenter. do {
              r \<leftarrow> nodeZoneRegion env ienv host cfg vcenter;
              d \<leftarrow> UnregisterAllVirtualCenters env;
              State_Monad.return (case d of Inl (Panic p) \<Rightarrow> Inl (Panic p) | _ \<Rightarrow> r)
            }))"

record node_info_response =
  info_NodeId :: string
  info_Segments :: topology

definition NodeGetInfo :: "env \<Rightarrow> inventory_env \<Rightarrow> node_host \<Rightarrow> ('z, node_info_response) progE" where
  "NodeGetInfo env ienv host =
     (case os_Hostname host of
        Inl err \<Rightarrow> State_Monad.return (Inl (Status Internal ''Unable to retrieve Node ID, err: %s''))
      | Inr nodeID \<Rightarrow> do {
          file \<leftarrow> perform (CallReadConfig (configPath env)) (host_Files env (configPath env));
          case GetCnsconfig (host_Environ env) (\<lambda>_. file) (configPath env) of
            Inl err \<Rightarrow> State_Monad.return (Inl (internal err))
          | Inr cfg \<Rightarrow>
              bindE (if Labels_Zone cfg \<noteq> [] \<and> Labels_Region cfg \<noteq> []
                     then nodeTopology env ienv host cfg else State_Monad.return (Inr ([], [])))
                (\<lambda>(zone, region). State_Monad.return (Inr \<lparr>info_NodeId = nodeID,
                  info_Segments = (if zone \<noteq> [] \<and> region \<noteq> []
                    then [(LabelRegionFailureDomain, region), (LabelZoneFailureDomain, zone)] else [])\<rparr>))
        })"

section \<open>Identity and start\<close>

definition UnixSocketPrefix :: string where "UnixSocketPrefix = ''unix://''"

definition Probe :: "error + unit" where "Probe = Inr ()"

definition GetPluginInfo :: "string \<Rightarrow> string \<times> string" where
  "GetPluginInfo version = (DriverName, version)"

datatype plugin_capability = CONTROLLER_SERVICE | VOLUME_ACCESSIBILITY_CONSTRAINTS

definition GetPluginCapabilities :: "plugin_capability list" where
  "GetPluginCapabilities = [CONTROLLER_SERVICE, VOLUME_ACCESSIBILITY_CONSTRAINTS]"

text \<open>The socket an earlier instance left behind, which \<open>init\<close> removes.\<close>

definition staleSocket :: "string \<Rightarrow> environ \<Rightarrow> string option" where
  "staleSocket EnvVarEndpoint environ =
     (let sockPath = TrimPrefix (Getenv environ EnvVarEndpoint) UnixSocketPrefix
      in if length sockPath > 1 then Some sockPath else None)"

text \<open>\<open>BeforeServe\<close>: in every mode but \<open>node\<close> the controller is initialized; \<open>None\<close> when it is not.\<close>

definition BeforeServe ::
  "string \<Rightarrow> env \<Rightarrow> inventory_env \<Rightarrow> (error + unit) answer \<Rightarrow> ('z, common_manager option) nodesE" where
  "BeforeServe EnvVarMode env ienv newClientAnswer =
     (if EqualFold (Getenv (host_Environ env) EnvVarMode) ''node''
      then State_Monad.return (Inr None)
      else do {
        file \<leftarrow> perform (CallReadConfig (configPath env)) (host_Files env (configPath env));
        case GetCnsconfig (host_Environ env) (\<lambda>_. file) (configPath env) of
          Inl err \<Rightarrow> State_Monad.return (Inl err)
        | Inr cfg \<Rightarrow>
            bindE (ControllerInit env ienv newClientAnswer cfg) (\<lambda>m. State_Monad.return (Inr (Some m)))
      })"

section \<open>The topology of a node\<close>

text \<open>
  An inventory in which the hosts of the virtual machines, their ancestors and the tags do not change.
\<close>

definition stable_inventory ::
  "inventory_env \<Rightarrow> (moref \<Rightarrow> moref) \<Rightarrow> (moref \<Rightarrow> moref list) \<Rightarrow> (moref \<Rightarrow> (string \<times> string) list) \<Rightarrow> bool" where
  "stable_inventory ienv hostOf ancestors tags \<longleftrightarrow> (\<forall>cl. tags_are ienv cl tags) \<and>
     (\<forall>cl vm h. ans_VmHost ienv cl vm h = Inr (hostOf vm)) \<and> (\<forall>cl host h. ans_Ancestors ienv cl host h = Inr (ancestors host))"

lemma GetZoneRegion_stable:
  assumes "run_state (GetZoneRegion env ienv vm zc rc) s = (Inr (zone, region), s')"
    and "stable_inventory ienv hostOf ancestors tags" and "zc \<noteq> rc"
  shows "zone = first_tag (concat (map tags (rev (ancestors (hostOf (vm_ref vm)))))) zc"
    and "region = first_tag (concat (map tags (rev (ancestors (hostOf (vm_ref vm)))))) rc"
  using GetZoneRegion_tags [OF assms(1) _ assms(3), of tags] assms(2) by (auto simp: stable_inventory_def)

text \<open>Two virtual machine objects of the same machine are in the same zone and region.\<close>

lemma IsInZoneRegion_stable:
  assumes node: "run_state (GetZoneRegion env ienv vm zc rc) s = (Inr (zone, region), s')"
    and stable: "stable_inventory ienv hostOf ancestors tags" and "zc \<noteq> rc" and "zone \<noteq> []" "region \<noteq> []"
    and "vm_ref vm' = vm_ref vm"
    and run: "run_state (IsInZoneRegion env' ienv vm' zc rc zone region) (t :: 'z driver_scheme) = (Inr b, t')"
  shows b
proof -
  from run obtain s1 s2 :: "'z driver_scheme" where
    "run_state (bindE (GetZoneRegion env' ienv vm' zc rc) (\<lambda>(vmZone, vmRegion). State_Monad.return (Inr
       (if region = [] \<and> zone \<noteq> [] \<and> vmZone = zone then True
        else if zone = [] \<and> region \<noteq> [] \<and> vmRegion = region then True
        else if vmZone \<noteq> [] \<and> vmRegion \<noteq> [] \<and> vmRegion = region \<and> vmZone = zone then True
        else False)))) s1 = (Inr b, s2)"
    unfolding IsInZoneRegion_def by (rule withTagManager_Inr)
  then obtain z r t1 where zr: "run_state (GetZoneRegion env' ienv vm' zc rc) s1 = (Inr (z, r), t1)"
    and b: "b \<longleftrightarrow> z \<noteq> [] \<and> r \<noteq> [] \<and> r = region \<and> z = zone"
    using assms(4,5) by (auto split: prod.splits sum.splits if_splits)
  have "z = zone" "r = region"
    using GetZoneRegion_stable [OF zr stable assms(3)] GetZoneRegion_stable [OF node stable assms(3)] assms(6) by simp_all
  with b assms(4,5) show b by simp
qed

lemma findNodeVM_reported:
  assumes "run_state (findNodeVM env ienv uuid) s = (Inr vm, s')"
  shows "\<exists>uuid'. (uuid' = uuid \<or> convertUUID uuid = Inr uuid') \<and> reported ienv uuid' False vm"
  using assms search_reported
  by (fastforce simp: findNodeVM_def split: prod.splits sum.splits error.splits)

text \<open>The zone and region a node reports are those of its virtual machine.\<close>

lemma nodeZoneRegion_Inr:
  assumes "run_state (nodeZoneRegion env ienv host cfg a) s = (Inr zr, s')"
  obtains uuid vm s1 s2 where "getSystemUUID host = Inr uuid" and "run_state (Connect env a) s = (Inr (), s1)"
    and "run_state (findNodeVM env ienv uuid) s1 = (Inr vm, s2)"
    and "run_state (GetZoneRegion env ienv vm (Labels_Zone cfg) (Labels_Region cfg)) s2 = (Inr zr, s')"
proof -
  from assms obtain s1 where con: "run_state (Connect env a) s = (Inr (), s1)"
    and rest: "run_state (case getSystemUUID host of
      Inl err \<Rightarrow> State_Monad.return (Inl (internal err))
    | Inr uuid \<Rightarrow> bindE (findNodeVM env ienv uuid) (\<lambda>vm.
        handle (GetZoneRegion env ienv vm (Labels_Zone cfg) (Labels_Region cfg))
          (\<lambda>err. State_Monad.return (Inl (internal err))) (\<lambda>zr. State_Monad.return (Inr zr)))) s1 = (Inr zr, s')"
    unfolding nodeZoneRegion_def handle_Inr_iff by auto
  then obtain uuid where uuid: "getSystemUUID host = Inr uuid" by (cases "getSystemUUID host") auto
  from rest [unfolded uuid sum.case success_iffs] obtain vm s2 x t where
    "run_state (findNodeVM env ienv uuid) s1 = (Inr vm, s2)"
    and "run_state (GetZoneRegion env ienv vm (Labels_Zone cfg) (Labels_Region cfg)) s2 = (Inr x, t)"
    and "run_state (State_Monad.return (Inr x :: error + string \<times> string)) t = (Inr zr, s')"
    by blast
  then show ?thesis using that [OF uuid con] by simp
qed

lemma nodeTopology_vm:
  assumes "run_state (nodeTopology env ienv host cfg) (s :: 'z driver_scheme) = (Inr (zone, region), s')"
  shows "\<exists>uuid vm (t :: 'z driver_scheme) t'. getSystemUUID host = Inr uuid \<and>
    (\<exists>uuid'. (uuid' = uuid \<or> convertUUID uuid = Inr uuid') \<and> reported ienv uuid' False vm) \<and>
    run_state (GetZoneRegion env ienv vm (Labels_Zone cfg) (Labels_Region cfg)) t = (Inr (zone, region), t')"
proof -
  from assms obtain a and s1 s2 :: "'z driver_scheme" where
    "run_state (nodeZoneRegion env ienv host cfg a) s1 = (Inr (zone, region), s2)"
    by (auto simp: nodeTopology_def split: sum.splits prod.splits error.splits)
  then show ?thesis by (rule nodeZoneRegion_Inr) (blast dest: findNodeVM_reported)
qed

section \<open>The registration of the vCenter\<close>

lemma steady_findNodeVM: "steady I \<Longrightarrow> keeps I (findNodeVM env ienv uuid)"
  unfolding findNodeVM_def by (intro keeps_handle keeps_case_sum keeps_return steady_search)

lemma steady_nodeZoneRegion: "steady I \<Longrightarrow> keeps I (nodeZoneRegion env ienv host cfg a)"
  unfolding nodeZoneRegion_def findNodeVM_def GetZoneRegion_def GetAncestors_def GetHostSystem_def
  by (intro keeps_handle keeps_bindE keeps_case_sum keeps_return steady_Connect steady_search steady_withTagManager
      steady_scan steady_perform keeps_bind)

lemma vcs_scanTags: "keeps (\<lambda>s. vcs s = x) (scanTags ienv tm zc rc zone region tags)"
  by (induction tags arbitrary: zone region)
     (auto split: prod.splits intro!: keeps_bindE keeps_return vcs_perform keeps_if)

lemma vcs_scanObjects: "keeps (\<lambda>s. vcs s = x) (scanObjects ienv tm zc rc zone region objs)"
  by (induction objs arbitrary: zone region)
     (auto intro!: keeps_bindE keeps_return vcs_perform keeps_if keeps_case_prod vcs_scanTags)

text \<open>Reading the tags of a machine touches no session.\<close>

lemma vcs_GetZoneRegion: "keeps (\<lambda>s. vcs s = x) (GetZoneRegion env ienv vm zc rc)"
  unfolding GetZoneRegion_def withTagManager_def GetTagManager_def signer_def GetAncestors_def GetHostSystem_def
    GetVirtualCenter_def Let_def
  by (intro keeps_handle keeps_bindE keeps_bind keeps_case_sum keeps_return keeps_if keeps_get keeps_load_vc
      keeps_case_prod vcs_perform vcs_scanObjects)

text \<open>When the topology could be read, the machine was found, and its vCenter still has a session.\<close>

lemma findNodeVM_current:
  assumes "run_state (findNodeVM env ienv uuid) s = (Inr vm, s')" and "registry_ok s"
  shows "current_vm s' vm"
proof -
  obtain r1 s1 where one: "run_state (GetVirtualMachineByUUID env ienv uuid False) s = (r1, s1)" by fastforce
  have ok: "registry_ok s1" using keepsD [OF registry_ok_search one assms(2)] .
  from assms(1) one search_current [of env ienv uuid False s] search_current [OF _ ok] assms(2) show ?thesis
    by (cases r1) (auto simp: findNodeVM_def split: prod.splits sum.splits error.splits)
qed

lemma nodeZoneRegion_session:
  assumes run: "run_state (nodeZoneRegion env ienv host cfg a) s = (Inr zr, s')" and ok: "registry_ok s"
  shows "\<exists>h b vc cl. map_of (virtualCenters s) h = Some b \<and> vcs s' b = Some vc \<and> vc_Client vc = Some cl"
proof -
  from run obtain uuid vm s1 s2 where con: "run_state (Connect env a) s = (Inr (), s1)"
    and vm: "run_state (findNodeVM env ienv uuid) s1 = (Inr vm, s2)"
    and zr: "run_state (GetZoneRegion env ienv vm (Labels_Zone cfg) (Labels_Region cfg)) s2 = (Inr zr, s')"
    by (rule nodeZoneRegion_Inr)
  have "registry_ok s1" using keepsD [OF registry_ok_Connect con ok] .
  from findNodeVM_current [OF vm this] have cur: "current_vm s2 vm" .
  have "virtualCenters s2 = virtualCenters s"
    using keepsD [OF steady_Connect [OF steady_registry] con] keepsD [OF steady_findNodeVM [OF steady_registry] vm] by simp
  moreover have "vcs s' = vcs s2" using keepsD [OF vcs_GetZoneRegion zr] by simp
  ultimately show ?thesis using cur by (auto simp: current_vm_def)
qed

lemma refused_Unregister:
  assumes "virtualCenters s = [(h, a)]" and "vcs s a = Some vc" and "vc_Client vc = Some cl"
    and refused: "\<And>h. \<exists>e. ans_Logout env h = Inl e"
    and "run_state (UnregisterAllVirtualCenters env) s = (r, s')"
  shows "virtualCenters s' = [(h, a)]"
proof -
  have "run_state (UnregisterVirtualCenter env h) s = (r, s')"
    using assms by (auto simp: UnregisterAllVirtualCenters_def split: prod.splits sum.splits)
  moreover obtain e where "ans_Logout env (trace s) = Inl e" using refused by blast
  ultimately show ?thesis
    using assms(1-3)
    by (auto simp: UnregisterVirtualCenter_def GetVirtualCenter_def DisconnectPbm_def Disconnect_def load_vc_def
        store_vc_def split: sum.splits)
qed

text \<open>A call that reports a topology while vCenter refuses logouts leaves the vCenter registered.\<close>

lemma nodeTopology_stays:
  assumes conf: "GetVirtualCenterConfig cfg = Inr conf" and empty: "virtualCenters s = []"
    and refused: "\<And>h. \<exists>e. ans_Logout env h = Inl e"
    and run: "run_state (nodeTopology env ienv host cfg) s = (Inr zr, s')"
  shows "map_of (virtualCenters s') (conf_Host conf) \<noteq> None"
proof -
  obtain a s1 where reg: "run_state (RegisterVirtualCenter conf) s = (Inr a, s1)" "virtualCenters s1 = [(conf_Host conf, a)]"
    using empty by (auto simp: RegisterVirtualCenter_def)
  have "registry_ok s" using empty by (simp add: registry_ok_def registry_wf_def)
  then have ok: "registry_ok s1" using keepsD [OF registry_ok_Register reg(1)] by blast
  from run conf reg(1) obtain s2 d where zone: "run_state (nodeZoneRegion env ienv host cfg a) s1 = (Inr zr, s2)"
    and un: "run_state (UnregisterAllVirtualCenters env) s2 = (d, s')"
    by (auto simp: nodeTopology_def split: sum.splits prod.splits error.splits)
  have s2: "virtualCenters s2 = [(conf_Host conf, a)]"
    using keepsD [OF steady_nodeZoneRegion [OF steady_registry] zone reg(2)] .
  from nodeZoneRegion_session [OF zone ok] reg(2) obtain vc cl where "vcs s2 a = Some vc" "vc_Client vc = Some cl"
    by (auto split: if_splits)
  from refused_Unregister [OF s2 this refused un] show ?thesis by simp
qed

section \<open>Properties\<close>

text \<open>
  C17. The topology a node reports and the one the controller sees agree: when a node reports a region and
  a zone, they are those of the virtual machine vCenter reported for the UUID of the firmware, in one
  of its two byte orders, and in an inventory that does not change the controller's check finds every
  object of that machine in this zone and region.\<close>

theorem node_topology_agrees:
  assumes run: "run_state (NodeGetInfo env ienv host) (s :: 'z driver_scheme) = (Inr info, s')"
    and segs: "info_Segments info \<noteq> []" and stable: "stable_inventory ienv hostOf ancestors tags"
  shows "os_Hostname host = Inr (info_NodeId info) \<and>
    (\<exists>cfg uuid uuid' vm zone region.
      GetCnsconfig (host_Environ env) (\<lambda>_. host_Files env (configPath env) (trace s)) (configPath env) = Inr cfg \<and>
      getSystemUUID host = Inr uuid \<and> (uuid' = uuid \<or> convertUUID uuid = Inr uuid') \<and>
      reported ienv uuid' False vm \<and>
      info_Segments info = [(LabelRegionFailureDomain, region), (LabelZoneFailureDomain, zone)] \<and>
      (\<forall>env' vm' b (t :: 'y driver_scheme) t'. vm_ref vm' = vm_ref vm \<longrightarrow> Labels_Zone cfg \<noteq> Labels_Region cfg \<longrightarrow>
        run_state (IsInZoneRegion env' ienv vm' (Labels_Zone cfg) (Labels_Region cfg) zone region) t = (Inr b, t') \<longrightarrow> b))"
proof -
  from run segs obtain cfg zone region s1 where id: "os_Hostname host = Inr (info_NodeId info)"
    and cfg: "GetCnsconfig (host_Environ env) (\<lambda>_. host_Files env (configPath env) (trace s)) (configPath env) = Inr cfg"
    and topo: "run_state (nodeTopology env ienv host cfg) s1 = (Inr (zone, region), s')" and ne: "zone \<noteq> []" "region \<noteq> []"
    and info: "info_Segments info = [(LabelRegionFailureDomain, region), (LabelZoneFailureDomain, zone)]"
    by (auto simp: NodeGetInfo_def split: sum.splits prod.splits if_splits)
  from nodeTopology_vm [OF topo] obtain uuid uuid' vm and t t' :: "'z driver_scheme" where
    vm: "getSystemUUID host = Inr uuid" "uuid' = uuid \<or> convertUUID uuid = Inr uuid'" "reported ienv uuid' False vm"
    and zr: "run_state (GetZoneRegion env ienv vm (Labels_Zone cfg) (Labels_Region cfg)) t = (Inr (zone, region), t')"
    by blast
  have "\<forall>env' vm' b (t :: 'y driver_scheme) t'. vm_ref vm' = vm_ref vm \<longrightarrow> Labels_Zone cfg \<noteq> Labels_Region cfg \<longrightarrow>
      run_state (IsInZoneRegion env' ienv vm' (Labels_Zone cfg) (Labels_Region cfg) zone region) t = (Inr b, t') \<longrightarrow> b"
    using IsInZoneRegion_stable [OF zr stable _ ne] by iprover
  with id cfg vm info show ?thesis by (intro conjI exI)
qed

text \<open>With the vCenter of the configuration registered, a call fails and changes nothing.\<close>

lemma NodeGetInfo_fails:
  assumes "os_Hostname host = Inr nodeID" and "GetCnsconfig (host_Environ env) (\<lambda>_. content) (configPath env) = Inr cfg"
    and "Labels_Zone cfg \<noteq> []" "Labels_Region cfg \<noteq> []" and "GetVirtualCenterConfig cfg = Inr conf"
    and "\<And>h. host_Files env (configPath env) h = content" and "map_of (virtualCenters s) (conf_Host conf) \<noteq> None"
  shows "run_state (NodeGetInfo env ienv host) s =
    (Inl (Status Internal ''%v''), s\<lparr>trace := trace s @ [CallReadConfig (configPath env)]\<rparr>)"
  using assms by (auto simp: NodeGetInfo_def nodeTopology_def RegisterVirtualCenter_def internal_def)

text \<open>
  C40. \<open>NodeGetInfo\<close> cannot be repeated when vCenter refuses the logout. From an empty registry the first
  call registers the vCenter and succeeds with a topology; the deferred \<open>UnregisterAllVirtualCenters\<close>
  fails at the refused logout, its error is dropped and the vCenter stays registered. From then on,
  as long as the configuration file keeps its content, every call, the first and each later one, fails
  with an internal error and leaves the registry as it is.\<close>

theorem NodeGetInfo_not_repeatable:
  assumes first: "run_state (NodeGetInfo env ienv host) s = (Inr info, s1)" and segs: "info_Segments info \<noteq> []"
    and empty: "virtualCenters s = []" and refused: "\<And>h. \<exists>e. ans_Logout env h = Inl e"
    and content: "\<And>h. host_Files env (configPath env) h = content"
  shows "virtualCenters s1 \<noteq> [] \<and>
    (\<forall>n. let sn = ((\<lambda>t. snd (run_state (NodeGetInfo env ienv host) t)) ^^ n) s1 in
       fst (run_state (NodeGetInfo env ienv host) sn) = Inl (Status Internal ''%v'') \<and> virtualCenters sn = virtualCenters s1)"
proof -
  let ?s = "s\<lparr>trace := trace s @ [CallReadConfig (configPath env)]\<rparr>"
  from first segs obtain nodeID cfg zr where id: "os_Hostname host = Inr nodeID"
    and cfg: "GetCnsconfig (host_Environ env) (\<lambda>_. content) (configPath env) = Inr cfg"
    and labels: "Labels_Zone cfg \<noteq> []" "Labels_Region cfg \<noteq> []"
    and topo: "run_state (nodeTopology env ienv host cfg) ?s = (Inr zr, s1)"
    by (auto simp: NodeGetInfo_def content split: sum.splits prod.splits if_splits)
  from topo obtain conf where conf: "GetVirtualCenterConfig cfg = Inr conf"
    by (cases "GetVirtualCenterConfig cfg") (auto simp: nodeTopology_def)
  have reg: "map_of (virtualCenters s1) (conf_Host conf) \<noteq> None"
    using nodeTopology_stays [OF conf _ refused topo] empty by simp
  note fails = NodeGetInfo_fails [OF id cfg labels conf content, of _ ienv]
  have later: "virtualCenters (((\<lambda>t. snd (run_state (NodeGetInfo env ienv host) t)) ^^ n) s1) = virtualCenters s1" for n
    by (induction n) (use reg in \<open>simp_all add: fails\<close>)
  have "virtualCenters s1 \<noteq> []" using reg by auto
  moreover have "map_of (virtualCenters (((\<lambda>t. snd (run_state (NodeGetInfo env ienv host) t)) ^^ n) s1)) (conf_Host conf) \<noteq> None" for n
    using reg by (simp add: later)
  ultimately show ?thesis by (simp add: Let_def fails later)
qed

section \<open>Witnesses\<close>

text \<open>A node whose configuration names the tag categories of the sample inventory, on a vCenter that may refuse logouts.\<close>

definition sample_labels :: config where
  "sample_labels = empty_config\<lparr>Labels_Zone := ''c-zone'', Labels_Region := ''c-region'',
     VirtualCenter := [(''vc1'', \<lparr>User = ''u'', Password = ''p'', VCenterPort = ''443'', InsecureFlag = False,
       Datacenters = ''dc1''\<rparr>)]\<rparr>"

definition sample_label_env :: "bool \<Rightarrow> env" where
  "sample_label_env refuse = sample_env\<lparr>host_Files := (\<lambda>_ _. Opened (Inr sample_labels)),
     ans_Logout := (\<lambda>_. if refuse then Inl (OutsideError ''timeout'') else Inr ())\<rparr>"

definition sample_host_info :: node_host where
  "sample_host_info = \<lparr>os_Hostname = Inr ''node1'', dmi_product_uuid = Inr ''4A''\<rparr>"

definition sample_fresh :: driver where
  "sample_fresh = \<lparr>trace = [], vcs = Map.empty, next_vc = 0, virtualCenters = []\<rparr>"

lemma sample_label_env_answers:
  "ans_NewVimClient (sample_label_env refuse) = (\<lambda>h. Inr (length h))" "ans_PemDecode (sample_label_env refuse) = (\<lambda>_. False)"
  "ans_Login (sample_label_env refuse) = (\<lambda>_. Inr ())" "ans_UserSession (sample_label_env refuse) = (\<lambda>_. Inr (Some ''svc@vsphere.local''))"
  "ans_Logout (sample_label_env refuse) = (\<lambda>_. if refuse then Inl (OutsideError ''timeout'') else Inr ())" "host_Environ (sample_label_env refuse) = []"
  "host_Files (sample_label_env refuse) = (\<lambda>_ _. Opened (Inr sample_labels))"
  by (simp_all add: sample_label_env_def sample_env_answers)

lemma sample_label_config:
  "\<exists>cfg conf. GetCnsconfig [] (\<lambda>_. Opened (Inr sample_labels)) path = Inr cfg \<and> GetVirtualCenterConfig cfg = Inr conf \<and>
     Labels_Zone cfg = ''c-zone'' \<and> Labels_Region cfg = ''c-region'' \<and> conf_Host conf = ''vc1'' \<and>
     conf_DatacenterPaths conf = [''dc1'']"
  by (simp add: sample_labels_def empty_config_def GetCnsconfig_def ReadConfig_def
        fromEnvOrError_def overrideGlobals_def ParseBool_def addGlobalVC_def validateConfig_def Let_def
        validateVC_def DefaultVCenterPort_def GetVirtualCenterConfig_def GetVcenterIPs_def Atoi_def TrimSpace_def is_space_def)

lemma sample_label_Connect:
  assumes "vcs s 0 = Some vc" and "vc_Client vc = None"
  shows "\<exists>s1 vc1. run_state (Connect (sample_label_env refuse) 0) s = (Inr (), s1) \<and> vcs s1 0 = Some vc1 \<and>
     vc_Client vc1 \<noteq> None \<and> conf_DatacenterPaths (vc_Config vc1) = conf_DatacenterPaths (vc_Config vc) \<and>
     conf_Host (vc_Config vc1) = conf_Host (vc_Config vc) \<and> virtualCenters s1 = virtualCenters s \<and> next_vc s1 = next_vc s"
  using assms by (simp add: vc_program_defs sample_label_env_answers)

lemma sample_label_Connect_again:
  assumes "vcs s 0 = Some vc" and "vc_Client vc \<noteq> None"
  shows "\<exists>s1. run_state (Connect (sample_label_env refuse) 0) s = (Inr (), s1) \<and> vcs s1 0 = Some vc"
  using assms by (auto simp: vc_program_defs sample_label_env_answers)

lemma sample_label_GetZoneRegion:
  assumes "virtualCenters s = [(''vc1'', 0)]" and "vcs s 0 = Some vc" and "vm_VirtualCenterHost vm = ''vc1''"
  shows "\<exists>s'. run_state (GetZoneRegion (sample_label_env refuse) (sample_race 1) vm ''c-zone'' ''c-region'') s = (Inr (''t-east'', ''t-us''), s') \<and>
    vcs s' = vcs s \<and> virtualCenters s' = virtualCenters s"
  using assms
  by (simp add: GetZoneRegion_def withTagManager_def GetTagManager_def signer_def GetAncestors_def GetHostSystem_def
        GetVirtualCenter_def load_vc_def sample_race_def sample_ienv_answers sample_label_env_answers)

lemma sample_label_search:
  assumes "vcs s 0 = Some vc" and "vc_Client vc \<noteq> None" and "conf_DatacenterPaths (vc_Config vc) = [''dc1'']"
    and "conf_Host (vc_Config vc) = ''vc1''" and "virtualCenters s = [(''vc1'', 0)]"
  shows "\<exists>vm s'. run_state (GetVirtualMachineByUUID (sample_label_env refuse) (sample_race 1) uuid False) s = (Inr vm, s') \<and>
     vm_VirtualCenterHost vm = ''vc1''"
proof -
  obtain s1 where con: "run_state (Connect (sample_label_env refuse) 0) s = (Inr (), s1)" "vcs s1 0 = Some vc"
    using sample_label_Connect_again [OF assms(1,2)] by blast
  obtain dc s2 where dcs: "run_state (GetDatacenters (sample_race 1) 0) s1 = (Inr [dc], s2)" "dc_VirtualCenterHost dc = ''vc1''"
    using con(2) assms(2-4) by (auto simp: GetDatacenters_def getDatacenters_def clientOf_def load_vc_def sample_race_answers)
  from race_found [OF con(1) dcs(1), of uuid] dcs(2) assms(5) show ?thesis
    by (auto simp: GetVirtualMachineByUUID_def sample_race_answers)
qed

lemma sample_label_Unregister:
  assumes "virtualCenters s = [(''vc1'', 0)]" and "vcs s 0 = Some vc"
  shows "\<exists>d s'. run_state (UnregisterAllVirtualCenters (sample_label_env refuse)) s = (d, s') \<and> (\<forall>p. d \<noteq> Inl (Panic p))"
  using assms
  by (cases "vc_Client vc"; cases refuse) (simp_all add: UnregisterAllVirtualCenters_def vc_program_defs sample_label_env_answers)

lemma sample_label_zone:
  assumes "virtualCenters s = [(''vc1'', 0)]" and "vcs s 0 = Some vc" and "vc_Client vc = None" and "next_vc s = 1"
    and "conf_DatacenterPaths (vc_Config vc) = [''dc1'']" and "conf_Host (vc_Config vc) = ''vc1''"
    and "Labels_Zone cfg = ''c-zone''" and "Labels_Region cfg = ''c-region''"
  shows "\<exists>s' vc'. run_state (nodeZoneRegion (sample_label_env refuse) (sample_race 1) sample_host_info cfg 0) s = (Inr (''t-east'', ''t-us''), s') \<and>
    virtualCenters s' = [(''vc1'', 0)] \<and> vcs s' 0 = Some vc'"
proof -
  obtain s1 vc1 where con: "run_state (Connect (sample_label_env refuse) 0) s = (Inr (), s1)" "vcs s1 0 = Some vc1" "vc_Client vc1 \<noteq> None"
    "conf_DatacenterPaths (vc_Config vc1) = [''dc1'']" "conf_Host (vc_Config vc1) = ''vc1''" "virtualCenters s1 = [(''vc1'', 0)]" "next_vc s1 = 1"
    using sample_label_Connect [OF assms(2,3), of refuse] assms(1,4-6) by auto
  define uuid where "uuid = ToLower (TrimSpace ''4A'')"
  obtain vm s2 where find: "run_state (GetVirtualMachineByUUID (sample_label_env refuse) (sample_race 1) uuid False) s1 = (Inr vm, s2)"
    and host: "vm_VirtualCenterHost vm = ''vc1''"
    using sample_label_search [OF con(2-6)] by blast
  have "virtualCenters s2 = [(''vc1'', 0)]"
    using keepsD [OF steady_search [OF steady_registry] find con(6)] .
  moreover have "registry_wf s2" using keepsD [OF keeps_search_wf find] con(2,6,7) by (simp add: registry_wf_def)
  ultimately obtain vc2 where s2: "virtualCenters s2 = [(''vc1'', 0)]" "vcs s2 0 = Some vc2" by (auto simp: registry_wf_def)
  obtain s3 where "run_state (GetZoneRegion (sample_label_env refuse) (sample_race 1) vm ''c-zone'' ''c-region'') s2 = (Inr (''t-east'', ''t-us''), s3)"
    and "vcs s3 = vcs s2" and "virtualCenters s3 = virtualCenters s2"
    using sample_label_GetZoneRegion [OF s2 host] by blast
  with con(1) find s2 assms(7,8) show ?thesis
    by (simp add: nodeZoneRegion_def findNodeVM_def getSystemUUID_def sample_host_info_def uuid_def)
qed

lemma sample_NodeGetInfo:
  "\<exists>s'. run_state (NodeGetInfo (sample_label_env refuse) (sample_race 1) sample_host_info) sample_fresh =
     (Inr \<lparr>info_NodeId = ''node1'', info_Segments = [(LabelRegionFailureDomain, ''t-us''), (LabelZoneFailureDomain, ''t-east'')]\<rparr>, s')"
proof -
  obtain cfg conf where cfg: "GetCnsconfig [] (\<lambda>_. Opened (Inr sample_labels)) (configPath (sample_label_env refuse)) = Inr cfg"
      "GetVirtualCenterConfig cfg = Inr conf" "Labels_Zone cfg = ''c-zone''" "Labels_Region cfg = ''c-region''"
      "conf_Host conf = ''vc1''" "conf_DatacenterPaths conf = [''dc1'']"
    using sample_label_config by blast
  define s0 where "s0 = sample_fresh\<lparr>trace := [CallReadConfig (configPath (sample_label_env refuse))]\<rparr>"
  obtain s1 where reg: "run_state (RegisterVirtualCenter conf) s0 = (Inr 0, s1)" "virtualCenters s1 = [(''vc1'', 0)]"
      "vcs s1 0 = Some \<lparr>vc_Config = conf, vc_Client = None, vc_PbmClient = None, vc_CnsClient = None\<rparr>" "next_vc s1 = 1"
    using cfg(5) by (simp add: RegisterVirtualCenter_def s0_def sample_fresh_def)
  obtain s2 vc2 where zone: "run_state (nodeZoneRegion (sample_label_env refuse) (sample_race 1) sample_host_info cfg 0) s1 = (Inr (''t-east'', ''t-us''), s2)"
    and s2: "virtualCenters s2 = [(''vc1'', 0)]" "vcs s2 0 = Some vc2"
    using sample_label_zone [OF reg(2,3) _ reg(4), of cfg refuse] cfg(3-6) by auto
  obtain d s3 where "run_state (UnregisterAllVirtualCenters (sample_label_env refuse)) s2 = (d, s3)" "\<And>p. d \<noteq> Inl (Panic p)"
    using sample_label_Unregister [OF s2] by blast
  with reg(1) zone cfg(2) have "run_state (nodeTopology (sample_label_env refuse) (sample_race 1) sample_host_info cfg) s0 = (Inr (''t-east'', ''t-us''), s3)"
    by (cases d) (auto simp: nodeTopology_def split: error.splits)
  with cfg(1,3,4) show ?thesis
    by (simp add: NodeGetInfo_def sample_host_info_def sample_label_env_answers s0_def sample_fresh_def)
qed

lemma sample_stable:
  "stable_inventory (sample_race 1) (\<lambda>_. ''host1'') (\<lambda>_. [''folder1'', ''dc1'', ''cluster1''])
     (\<lambda>obj. if obj = ''cluster1'' then [(''c-zone'', ''t-east'')]
       else if obj = ''dc1'' then [(''c-zone'', ''t-west''), (''c-region'', ''t-us'')] else [])"
  unfolding stable_inventory_def tags_are_def
proof (intro conjI allI exI)
  fix cl obj h
  show "ans_ListAttachedTags (sample_race 1) cl obj h =
      Inr (if obj = ''cluster1'' then [''t-east''] else if obj = ''dc1'' then [''t-west'', ''t-us''] else [])"
    by (simp add: sample_race_def sample_ienv_answers)
  show "ans_GetTag (sample_race 1) cl obj h = Inr (obj, if obj = ''t-us'' then ''c-region'' else ''c-zone'')"
    by (simp add: sample_race_def sample_ienv_answers)
  show "ans_GetCategory (sample_race 1) cl obj h = Inr obj" by (simp add: sample_race_def sample_ienv_answers)
qed (simp_all add: sample_race_def sample_ienv_answers)

theorem node_topology_agrees_witness:
  "\<exists>info s' vm. run_state (NodeGetInfo (sample_label_env False) (sample_race 1) sample_host_info) sample_fresh = (Inr info, s') \<and>
     info_NodeId info = ''node1'' \<and> reported (sample_race 1) (ToLower (TrimSpace ''4A'')) False vm"
proof -
  obtain info s' where run: "run_state (NodeGetInfo (sample_label_env False) (sample_race 1) sample_host_info) sample_fresh = (Inr info, s')"
    and info: "info_Segments info \<noteq> []" using sample_NodeGetInfo [of False] by fastforce
  have uuid: "getSystemUUID sample_host_info = Inr (ToLower (TrimSpace ''4A''))"
    by (simp add: getSystemUUID_def sample_host_info_def)
  have conv: "convertUUID (ToLower (TrimSpace ''4A'')) = Inl (Errorf ''uuid length should be 36'')"
    by (simp add: convertUUID_def TrimSpace_def is_space_def)
  from node_topology_agrees [OF run info sample_stable] run uuid conv show ?thesis
    by (fastforce simp: sample_host_info_def)
qed


theorem NodeGetInfo_not_repeatable_witness:
  "\<exists>info s1. run_state (NodeGetInfo (sample_label_env True) (sample_race 1) sample_host_info) sample_fresh = (Inr info, s1) \<and>
     fst (run_state (NodeGetInfo (sample_label_env True) (sample_race 1) sample_host_info) s1) = Inl (Status Internal ''%v'')"
proof -
  obtain info s1 where first: "run_state (NodeGetInfo (sample_label_env True) (sample_race 1) sample_host_info) sample_fresh = (Inr info, s1)"
    and segs: "info_Segments info \<noteq> []"
    using sample_NodeGetInfo [of True] by fastforce
  have empty: "virtualCenters sample_fresh = []" by (simp add: sample_fresh_def)
  have refused: "\<exists>e. ans_Logout (sample_label_env True) h = Inl e" for h by (simp add: sample_label_env_answers)
  have content: "host_Files (sample_label_env True) (configPath (sample_label_env True)) h = Opened (Inr sample_labels)" for h
    by (simp add: sample_label_env_answers)
  from NodeGetInfo_not_repeatable [OF first segs empty refused content, THEN conjunct2, THEN spec [of _ 0]] first
  show ?thesis by (auto simp: Let_def)
qed

end
