(* ===== verification/Spec2Isabelle.thy ===== *)
theory Spec2Isabelle
  imports Syncer_Safety Startup Config_Simulator Node_Cache Node_Info
begin

text \<open>
  A verification development for the vSphere CSI driver: the container storage interface (CSI) plugin
  that gives Kubernetes volumes on vSphere, and the syncer that keeps the metadata of the volumes in
  the Cloud Native Storage service (CNS) of a vCenter up to date.

  \<^bold>\<open>The program.\<close> The controller (\<open>pkg/csi/service/cns\<close>) creates, deletes, attaches and detaches volumes.
  It keeps a registry of the nodes of the cluster and their virtual machines
  (\<open>pkg/common/cns-lib/node\<close>), which it finds by searching the inventory of the registered vCenters, and
  sends its changes through the volume manager (\<open>pkg/common/cns-lib/volume\<close>) over the connection of
  \<open>pkg/common/cns-lib/vsphere\<close>. The node service (\<open>pkg/csi/service/node.go\<close>) stages an attached disk (formats
  and mounts it), publishes it to pods by bind mounts, undoes both, and reports the zone and
  region of its node. The syncer (\<open>pkg/syncer\<close>) answers the events of Kubernetes on volumes, claims and
  pods, and compares all of Kubernetes with all of CNS in a periodic full sync.

  \<^bold>\<open>The model.\<close> A Go function is a program in the state monad whose result is a value or an error
  (\<open>progE\<close>, composed by \<open>bindE\<close> and, where the code tests \<open>err\<close>, by \<open>handle\<close>). A panic is the error
  \<open>Panic\<close>, which no error branch of the code intercepts. The state is a record that grows
  with the components: \<open>driver\<close> (the trace of calls to the outside, the store of \<open>VirtualCenter\<close>
  objects under their addresses, the registry of vCenters), \<open>csi\<close> (the volume manager's singleton),
  then \<open>nodes\<close> for the controller and \<open>syncer\<close> for the syncer. Programs of a component are
  polymorphic in the rest of the state and run unchanged in the larger ones.

  Systems outside the repository (vCenter, CNS, Kubernetes, the operating system, \<open>gofsutil\<close>) are records
  of answers, \<open>vsphere_env\<close>, \<open>inventory_env\<close>, \<open>k8s_env\<close> and \<open>os_env\<close>. An answer is an arbitrary function of
  the arguments and of the history of calls, so a theorem that holds for every such record assumes
  nothing about these systems; what a theorem does assume of them is among its hypotheses:
  \<open>vsphere_returns\<close> and \<open>k8s_returns\<close> (their calls return), \<open>unique_volumes\<close> (a listing of CNS names a volume once),
  \<open>mount_laws\<close> (the devices and mount points the host lists are those of the mount and unmount calls made; the
  sources of bind mounts and the options it reports are free), \<open>stable_inventory\<close> and \<open>tags_are\<close> (the tags do not change
  between two questions), and in \<open>NodeGetInfo_not_repeatable\<close> a configuration file that keeps its content. Nothing is assumed of
  the volume handles of the PVs: two PVs may share one. What the driver does to the outside is read off the trace:
  \<open>mutations\<close> are the calls that change CNS, \<open>changes\<close> those that change the host.

  Go maps whose iteration order can be observed are association lists, in an arbitrary order;
  the order is part of the state or the argument, so that the theorems cover all of them. Machine integers
  are integers with the wrap-around of \<open>int64\<close> written out (\<open>wrap64\<close>) where they are computed
  with. Mutexes make an operation one step, except where the interleaving matters, below.

  \<^bold>\<open>The theories.\<close>
  \<^item> \<open>Go_Prelude\<close>: the strings and conversions of Go's library, the program combinators, and the two
    judgements that carry most proofs, \<open>emits P p\<close> (all calls of \<open>p\<close> satisfy \<open>P\<close>) and \<open>keeps I p\<close> (\<open>p\<close> keeps
    the invariant \<open>I\<close>), with the rule collections \<open>emits_rules\<close> and \<open>keeps_rules\<close>.
  \<^item> \<open>External\<close>: errors, API objects, calls and answers.
  \<^item> \<open>Program_Logic\<close>: triples with a postcondition for errors, and the judgement \<open>sound\<close> (a program keeps an invariant and
    panics only where it is allowed to), with its rules \<open>sound_rules\<close>.
  \<^item> \<open>Config\<close> (\<open>pkg/common/config/config.go\<close>): the configuration file, the environment variables, defaults
    and validation. An accepted configuration has a complete section for every vCenter.
  \<^item> \<open>Config_Simulator\<close> (\<open>pkg/common/config/util.go\<close>): the configuration for a simulated vCenter.
  \<^item> \<open>VCenter\<close> (\<open>virtualcenter.go\<close>, \<open>cns.go\<close>, \<open>pbm.go\<close>, \<open>virtualcentermanager.go\<close>): sessions and their renewal, the
    registry of vCenters, with the locale \<open>registry\<close> for its contract. \<open>registry_contract\<close> says what registering and
    unregistering do on every outcome, \<open>connect_coherent\<close> which of the three clients a connection replaces.
  \<^item> \<open>Cns_Utils\<close> (\<open>utils.go\<close>): metadata and their comparison.
  \<^item> \<open>Volume_Manager\<close> (\<open>pkg/common/cns-lib/volume\<close>): create, delete, update, attach, detach and query. The locale
    \<open>cns_operation\<close> states the contract of the five changing operations, at most one change and
    exactly one on success, and is interpreted for each.
  \<^item> \<open>Connection_Safety\<close>: where the connection and the volume manager can panic, under the locales \<open>live_vc\<close> (the
    virtual center exists) and \<open>ready_vc\<close> (its clients too), of which the first gives the second after a connection.
  \<^item> \<open>Full_Sync\<close> and \<open>Full_Sync_Steps\<close> (\<open>fullsync.go\<close>, \<open>types.go\<close>): the comparison of Kubernetes with CNS and
    the plan that results; then the three goroutines that carry the plan out, as the step relation
    \<open>sync_step\<close> with the lock \<open>volumeOperationsLock\<close> and the wait group, and \<open>triggerFullSync\<close> as its complete
    runs. Invariants by rule induction give what is deleted and created under every interleaving.
  \<^item> \<open>Metadata_Syncer\<close> (\<open>metadatasyncer.go\<close>): the initialisation and the handlers of volume, claim and pod events.
  \<^item> \<open>Syncer_Run\<close> (\<open>metadatasyncer.go\<close>, \<open>Init\<close>): the running syncer, as the runs \<open>syncer_run\<close> in which handlers come between the
    steps of the full syncs, and why such a run deletes or creates a volume in CNS.
  \<^item> \<open>Syncer_Safety\<close>: after \<open>Init\<close> a handler, a plan or a goroutine of the syncer panics only right after vCenter answered that there
    is no session, or CNS with an entry that is not Kubernetes metadata.
  \<^item> \<open>Informers\<close> (\<open>pkg/kubernetes\<close>): the informer manager, with the calls it makes to client-go, as a registry of
    callbacks (the locale \<open>callback_registry\<close>), and the constructors of a client.
  \<^item> \<open>Startup\<close> (\<open>Init\<close>, \<open>Initialize\<close>): the listeners of the two processes, which are the events of \<open>Syncer_Run\<close> and
    \<open>Controller_Run\<close>, and the wait at the end of \<open>Init\<close>.
  \<^item> \<open>Node_Cache\<close> (\<open>node/cache.go\<close>): the two maps of names and UUIDs as one bijection, with the locale
    \<open>node_directory\<close>.
  \<^item> \<open>Inventory\<close> (\<open>datacenter.go\<close>, \<open>datastore.go\<close>, \<open>hostsystem.go\<close>, \<open>virtualmachine.go\<close>): datacenters, datastores, hosts,
    tags, zone and region of a virtual machine.
  \<^item> \<open>VM_Search\<close> (\<open>virtualmachine.go\<close>, \<open>datacenter.go\<close>): the search for a virtual machine by UUID with its lister
    goroutine, eight workers and two channels, under an arbitrary schedule. What it finds uses the session its vCenter has now.
  \<^item> \<open>Csi_Common\<close> (\<open>pkg/csi/service/common\<close>): requests, their validation and small conversions.
  \<^item> \<open>Node_Manager\<close> (\<open>node/manager.go\<close>, \<open>kubernetes.go\<close>): registration, discovery and renewal of nodes.
  \<^item> \<open>Shared_Datastores\<close> (\<open>cns/nodes.go\<close>): node events, and the datastores all nodes, or the nodes of a topology, reach.
  \<^item> \<open>Controller\<close> (\<open>cns/controller.go\<close>, \<open>controller_helper.go\<close>, \<open>vsphereutil.go\<close>): the controller service. Every
    request makes at most one change in CNS, and the theorems say which.
  \<^item> \<open>Controller_Run\<close>: the running controller as a sequence of requests and node events, with the locale \<open>node_facts\<close> for what
    its registry of nodes keeps, and the account of every change in CNS by the request that made it.
  \<^item> \<open>Node_Mounts\<close> and \<open>Node_Lifecycle\<close> (\<open>service/node.go\<close>): the mount operations, the locale \<open>path_operation\<close>
    (an operation on a path changes nothing elsewhere) with its four interpretations, and the
    life cycle of a volume on a node against a mount table.
  \<^item> \<open>Node_Info\<close> (\<open>service/node.go\<close>, \<open>identity.go\<close>, \<open>service.go\<close>): \<open>NodeGetInfo\<close> and the identity service.
  \<^item> This theory: the properties that span controller and node.

  \<^bold>\<open>Loops and bounds.\<close> No definition uses fuel. Loops over lists are structural or instances of \<open>forE\<close>
  and \<open>mapE\<close>. The worker pool \<open>runPool\<close> is a terminating function with a measure on what is left in the
  lister, the channels and the workers; the schedule is an arbitrary function of the history and the step number, and the
  sizes (8 workers, 80 buffered datacenters) are those of the code. The full sync is a relation,
  and its termination is a theorem of its own: no run of its goroutines is infinite and, unless a listing
  fails, each can be continued to the end (\<open>full_sync_terminates\<close>), where all of the plan is done (\<open>full_sync_carries_out\<close>).

  \<^bold>\<open>Not modelled.\<close> The two \<open>main\<close> functions and \<open>provider.go\<close> (flags, logging set-up, and the hand-over of the services to the
  \<open>gocsi\<close> server: no decision of their own), the period of the timer (only its value, \<open>getFullSyncIntervalInMin\<close>), the \<open>String\<close> methods, and all logging; the
  tests. The text of an error is its format string without the arguments. Contexts are modelled only where the code cancels one.
  The requests of the controller, the operations of the node manager and of the node service run to their end before the
  next one begins. An event handler of the syncer is one step too: it may come between the steps of the goroutines of a full
  sync, but nothing comes between its connection to vCenter and its call of CNS. \<open>failed_reconnection_race\<close> shows what this leaves
  out: a reconnection of another goroutine that fails at that moment makes the handler dereference a nil client.

  \<^bold>\<open>What the model showed.\<close> Several theorems state behaviour that the code does not intend: a full sync that
  never ends after a failed listing (\<open>full_sync_hangs\<close>), a search that misses an existing virtual
  machine under some schedules (\<open>search_misses\<close>), metadata differences that are not noticed
  (\<open>missing_entry_unnoticed\<close>), a stale CNS client (\<open>ConnectCNS_keeps_stale_client\<close>), virtual machines left behind
  or left out (\<open>UnregisterNode_leaves_stale_vm\<close>, \<open>GetAllNodes_omits_undiscovered\<close>), an overflow of the capacity
  (\<open>CreateVolume_capacity\<close>), panics (\<open>publishBlockVol_panics\<close>, \<open>UpdateVolumeMetadata_nil_session\<close>, \<open>Connect_nil_session\<close>,
  \<open>foreign_entry_panics\<close>, \<open>failed_reconnection_race\<close>), a volume created in the cycle that records it because two PVs share its
  handle (\<open>duplicate_handle_creates\<close>), an \<open>Init\<close> that does not
  return when the syncer is stopped (\<open>Init_never_returns\<close>), a node service that fails for good after a
  failed logout (\<open>NodeGetInfo_not_repeatable\<close>), and a file system parameter lost by its spelling
  (\<open>staged_filesystem\<close>).
\<close>

section \<open>From the controller to the node\<close>

text \<open>The publish context of a successful attachment.\<close>

lemma publish_context:
  assumes "run_state (ControllerPublishVolume env ienv kenv m req) (s :: 'z nodes_scheme) = (Inr ctx, s')"
  shows "\<exists>vm diskUUID (t :: 'z nodes_scheme).
    run_state (AttachVolume env (VolumeManager m) vm (publish_VolumeId req)) t = (Inr diskUUID, s') \<and>
    getDiskID (publish_VolumeId req) ctx = Inr (FormatDiskUUID diskUUID)"
proof -
  have valid: "validateVanillaControllerPublishVolumeRequest req = Inr ()"
    using assms by (cases "validateVanillaControllerPublishVolumeRequest req") (auto simp: ControllerPublishVolume_def)
  then have "publish_VolumeId req \<noteq> []"
    by (auto simp: validateVanillaControllerPublishVolumeRequest_def ValidateControllerPublishVolumeRequest_def)
  moreover from assms obtain vm t diskUUID where attach:
    "run_state (AttachVolume env (VolumeManager m) (vm_ref (vm :: virtual_machine)) (publish_VolumeId req)) (t :: 'z nodes_scheme)
       = (Inr diskUUID, s')"
    and "ctx = [(AttributeDiskType, DiskTypeString), (AttributeFirstClassDiskUUID, FormatDiskUUID diskUUID)]"
    by (auto simp: ControllerPublishVolume_def valid handle_Inr_iff AttachVolumeUtil_def simp del: run_handle)
  ultimately have "getDiskID (publish_VolumeId req) ctx = Inr (FormatDiskUUID diskUUID)"
    by (simp add: getDiskID_def attribute_defs)
  with attach show ?thesis by blast
qed

text \<open>The file system type that reaches the volume context is the parameter with the exact spelling.\<close>

lemma scanParameters_exact:
  "scanParameters params (u, p, f) entries = (url, policy, fsType) \<Longrightarrow>
   fsType = (if \<exists>(k, v) \<in> set entries. ToLower k = AttributeFsType then segment params AttributeFsType else f)"
  by (induction params "(u, p, f)" entries arbitrary: u p f rule: scanParameters.induct)
     (auto simp: attribute_defs split: if_splits)

lemma ToLower_fstype: "ToLower AttributeFsType = AttributeFsType"
  by (simp add: AttributeFsType_def ToLower_def ToLower_char_def)

lemma created_fsType:
  assumes "run_state (ControllerCreateVolume env ienv kenv m rnd req) s = (Inr resp, s')"
  shows "segment (VolumeContext resp) AttributeFsType = segment (Parameters req) AttributeFsType"
proof -
  obtain url policy fsType where
      params: "scanParameters (Parameters req) ([], [], []) (Parameters req) = (url, policy, fsType)"
    and ctx: "VolumeContext resp = [(AttributeDiskType, DiskTypeString), (AttributeFsType, fsType)]"
    using assms by (rule ControllerCreateVolume_response)
  have "segment (Parameters req) AttributeFsType = []" if "\<not> (\<exists>(k, v) \<in> set (Parameters req). ToLower k = AttributeFsType)"
    using that ToLower_fstype by (auto simp: segment_def split: option.splits dest!: map_of_SomeD)
  with scanParameters_exact [OF params] have "fsType = segment (Parameters req) AttributeFsType" by auto
  with ctx show ?thesis by (simp add: segment_def attribute_defs)
qed

text \<open>The file system a mount call asks for.\<close>

fun mounted_fs :: "os_call \<Rightarrow> string option" where
  "mounted_fs (OsMount _ _ fs _) = Some fs"
| "mounted_fs (OsFormatAndMount _ _ fs _) = Some fs"
| "mounted_fs _ = None"

section \<open>Properties of the whole driver\<close>

text \<open>
  C6. The disk the controller attaches is the disk the node mounts: when publishing a volume succeeds and
  the node stages it with the publish context of the answer, the only disk it may mount is the one
  with the UUID vCenter gave for this attachment, in lower case and without blanks and hyphens.\<close>

theorem published_disk_is_mounted:
  assumes pub: "run_state (ControllerPublishVolume env ienv kenv m req) (s :: 'z nodes_scheme) = (Inr ctx, s')"
    and stage: "run_state (NodeStageVolume os st) t = (r, t')"
    and "stage_PublishContext st = ctx" and "stage_VolumeId st = publish_VolumeId req"
  shows "\<exists>vm diskUUID (s1 :: 'z nodes_scheme).
    run_state (AttachVolume env (VolumeManager m) vm (publish_VolumeId req)) s1 = (Inr diskUUID, s') \<and>
    (changes t' = changes t \<or> (\<exists>c. staging_mount st (FormatDiskUUID diskUUID) c \<and> changes t' = changes t @ [c]))"
  using publish_context [OF pub] NodeStageVolume_changes [OF stage] assms(3,4) by fastforce

text \<open>
  C16. The file system of a new volume: when a created volume is staged with the volume context of the
  creation, every mount asks for the file system of the capability, else for the parameter spelled
  exactly \<open>fstype\<close> in the storage class, else for \<open>ext4\<close>. A parameter in another spelling, which the
  validation accepts, is ignored.\<close>

theorem staged_filesystem:
  assumes create: "run_state (ControllerCreateVolume env ienv kenv m rnd req) s = (Inr resp, s')"
    and stage: "run_state (NodeStageVolume os st) t = (r, t')"
    and ctx: "stage_VolumeContext st = VolumeContext resp" and cap: "ensureMountVol (stage_VolumeCapability st) = Inr (fs, flags)"
  shows "changes t' = changes t \<or> (\<exists>c. changes t' = changes t @ [c] \<and>
    mounted_fs c = Some (if fs \<noteq> [] then fs
      else if segment (Parameters req) AttributeFsType \<noteq> [] then segment (Parameters req) AttributeFsType
      else ''ext4''))"
proof (cases "changes t' = changes t")
  case False
  with NodeStageVolume_changes [OF stage] obtain diskID c where c: "staging_mount st diskID c" "changes t' = changes t @ [c]"
    by blast
  from c(1) cap ctx created_fsType [OF create] have "mounted_fs c = Some (if fs \<noteq> [] then fs
      else if segment (Parameters req) AttributeFsType \<noteq> [] then segment (Parameters req) AttributeFsType else ''ext4'')"
    by (auto simp: staging_mount_def stageFs_def DefaultFsType_def)
  with c(2) show ?thesis by blast
qed simp

text \<open>
  C7. Without a topology requirement and a datastore in the storage class, a created volume lies on
  datastores that every discovered node of the cluster reaches.\<close>

theorem provisioned_reachable:
  assumes create: "run_state (ControllerCreateVolume env ienv kenv m rnd req) s = (Inr resp, s')"
    and "AccessibilityRequirements req = None" and "requestedURL req = []"
  shows "\<exists>c spec nodes accs. mutations s' = mutations s @ [c] \<and> is_create env spec c \<and> create_Datastores spec \<noteq> [] \<and>
    nodes \<noteq> [] \<and> list_all2 same_vm (map snd (nodeVMs s)) nodes \<and> list_all2 (accessible ienv) nodes accs \<and>
    (\<forall>ref \<in> set (create_Datastores spec). \<exists>d \<in> set (hd accs). ds_ref (di_Datastore d) = ref \<and>
       (\<forall>acc \<in> set accs. di_Url d \<in> di_Url ` set acc))"
proof -
  from ControllerCreateVolume_attempted [OF create] obtain c shared tmap t where
    c: "mutations s' = mutations s @ [c]" and prov: "provisions env ienv req shared c"
    and shared: "run_state (sharedDatastoresFor env ienv kenv m req (requestedURL req)) s = (Inr (shared, tmap), t)"
    unfolding attempted_def by blast
  from shared assms(2) obtain t1 where cluster: "run_state (GetSharedDatastoresInK8SCluster env ienv kenv) s = (Inr shared, t1)"
    by (auto simp: sharedDatastoresFor_def handle_Inr_iff simp del: run_handle split: if_splits)
  then obtain nodes s1 where nodes: "run_state (GetAllNodes env kenv) s = (Inr nodes, s1)" "nodes \<noteq> []"
    and get: "run_state (GetSharedDatastoresForVMs ienv nodes) s1 = (Inr shared, t1)"
    unfolding GetSharedDatastoresInK8SCluster_def bindE_Inr_iff by (fastforce split: if_splits)
  obtain accs where accs: "list_all2 (accessible ienv) nodes accs" "shared = intersection accs" "shared \<noteq> []"
    using GetSharedDatastoresForVMs_spec [OF get nodes(2)] by blast
  from prov assms(3) obtain spec where spec: "is_create env spec c" "create_Datastores spec = getDatastoreMoRefs shared"
    by (auto simp: provisions_def placed_def)
  have "\<exists>d \<in> set (hd accs). ds_ref (di_Datastore d) = ref \<and> (\<forall>acc \<in> set accs. di_Url d \<in> di_Url ` set acc)"
    if "ref \<in> set (create_Datastores spec)" for ref
  proof -
    from that obtain d where d: "d \<in> set (intersection accs)" "ds_ref (di_Datastore d) = ref"
      by (auto simp: spec(2) getDatastoreMoRefs_def accs(2))
    then have "d \<in> set (hd accs)" by (cases accs) (auto simp: intersection_def)
    with d intersection_urls [OF d(1)] show ?thesis by blast
  qed
  with c spec accs nodes GetAllNodes_same [OF nodes(1)] show ?thesis
    by (intro exI [of _ c] exI [of _ spec] exI [of _ nodes] exI [of _ accs] conjI ballI)
       (simp_all add: getDatastoreMoRefs_def)
qed

section \<open>Witnesses\<close>

definition sample_attach_env :: env where
  "sample_attach_env = sample_env\<lparr>ans_TaskResult := (\<lambda>_. Inr (Some (AttachResult None ''vol-1'' ''6000-C29'')))\<rparr>"

lemma sample_attach_answers:
  "ans_NewVimClient sample_attach_env = (\<lambda>h. Inr (length h))" "ans_PemDecode sample_attach_env = (\<lambda>_. False)"
  "ans_Login sample_attach_env = (\<lambda>_. Inr ())" "ans_UserSession sample_attach_env = (\<lambda>_. Inr (Some ''svc@vsphere.local''))"
  "ans_NewCnsClient sample_attach_env = (\<lambda>_. Inr ())" "ans_CnsTask sample_attach_env = (\<lambda>_. Inr ''task-1'')"
  "ans_TaskInfo sample_attach_env = (\<lambda>_. Inr ''info-1'')"
  "ans_TaskResult sample_attach_env = (\<lambda>_. Inr (Some (AttachResult None ''vol-1'' ''6000-C29'')))"
  by (simp_all add: sample_attach_env_def sample_env_answers)

lemma sample_attach:
  assumes "vcs s 0 = Some vc"
  shows "\<exists>s'. run_state (AttachVolume sample_attach_env (Some 0) vm ''vol-1'') s = (Inr ''6000-C29'', s')"
  using assms
  by (cases "vc_Client vc"; cases "vc_CnsClient vc")
     (simp_all add: AttachVolume_def withCNS_def validateManager_def cnsTask_def cnsClient_def vc_program_defs
       sample_attach_answers)

lemma sample_ControllerPublishVolume:
  obtains ctx s' where "run_state (ControllerPublishVolume sample_attach_env sample_ienv sample_k8s sample_manager sample_publish)
      sample_nodes = (Inr ctx, s')"
proof -
  obtain s1 vc where con: "run_state (Connect sample_attach_env 0) sample_nodes = (Inr (), s1)" "vcs s1 0 = Some vc"
    using sample_nodes_sel(1) by (simp add: vc_program_defs sample_attach_answers sample_vc_def sample_conf_def)
  obtain vm where "run_state (Renew sample_attach_env sample_vm True) sample_nodes = (Inr vm, s1)"
    using Renew_reconnects [of sample_nodes sample_vm 0, OF _ con(1)] by (auto simp: sample_nodes_sel sample_vm_sel)
  then obtain s2 where node: "run_state (GetNodeByName sample_attach_env sample_ienv sample_k8s ''node1'') sample_nodes = (Inr vm, s2)"
    and "vcs s2 0 = Some vc" using con(2) by (auto simp: GetNodeByName_def GetNode_def sample_nodes_sel storeVM_def)
  then obtain s3 where "run_state (AttachVolume sample_attach_env (Some 0) (vm_ref vm) ''vol-1'') s2 = (Inr ''6000-C29'', s3)"
    using sample_attach by blast
  moreover have "validateVanillaControllerPublishVolumeRequest sample_publish = Inr ()"
    by (simp add: validateVanillaControllerPublishVolumeRequest_def ValidateControllerPublishVolumeRequest_def
        sample_publish_def IsValidVolumeCapabilities_def VolumeCaps_def GetMode_def)
  moreover have "publish_NodeId sample_publish = ''node1''" "publish_VolumeId sample_publish = ''vol-1''"
    by (simp_all add: sample_publish_def)
  ultimately show ?thesis
    using that node by (simp add: ControllerPublishVolume_def AttachVolumeUtil_def sample_manager_sel)
qed

theorem published_disk_is_mounted_witness:
  "\<exists>ctx s' r t' vm diskUUID s1.
     run_state (ControllerPublishVolume sample_attach_env sample_ienv sample_k8s sample_manager sample_publish)
       sample_nodes = (Inr ctx, s') \<and>
     run_state (NodeStageVolume sample_os (sample_stage\<lparr>stage_PublishContext := ctx\<rparr>)) sample_host = (r, t') \<and>
     run_state (AttachVolume sample_attach_env (Some 0) vm ''vol-1'') (s1 :: nodes) = (Inr diskUUID, s')"
proof -
  obtain ctx s' where pub: "run_state (ControllerPublishVolume sample_attach_env sample_ienv sample_k8s sample_manager sample_publish)
      sample_nodes = (Inr ctx, s')" by (rule sample_ControllerPublishVolume)
  obtain r t' where stage: "run_state (NodeStageVolume sample_os (sample_stage\<lparr>stage_PublishContext := ctx\<rparr>)) sample_host = (r, t')"
    by fastforce
  have "stage_PublishContext (sample_stage\<lparr>stage_PublishContext := ctx\<rparr>) = ctx"
    and "stage_VolumeId (sample_stage\<lparr>stage_PublishContext := ctx\<rparr>) = publish_VolumeId sample_publish"
    by (simp_all add: sample_stage_def sample_publish_def)
  from published_disk_is_mounted [OF pub stage this] obtain vm diskUUID and s1 :: nodes where
    "run_state (AttachVolume sample_attach_env (Some 0) vm ''vol-1'') s1 = (Inr diskUUID, s')"
    by (auto simp: sample_manager_sel sample_publish_def)
  with pub stage show ?thesis by blast
qed

theorem staged_filesystem_witness:
  "\<exists>resp s' r t'. run_state (ControllerCreateVolume sample_env sample_ienv sample_k8s sample_manager 0 sample_create)
       sample_nodes = (Inr resp, s') \<and>
     run_state (NodeStageVolume sample_os (sample_stage\<lparr>stage_VolumeContext := VolumeContext resp\<rparr>)) sample_host = (r, t') \<and>
     (changes t' = changes sample_host \<or> (\<exists>c. changes t' = changes sample_host @ [c] \<and> mounted_fs c = Some ''ext4''))"
proof -
  obtain resp s' where create: "run_state (ControllerCreateVolume sample_env sample_ienv sample_k8s sample_manager 0 sample_create)
      sample_nodes = (Inr resp, s')" by (rule sample_ControllerCreateVolume)
  let ?st = "sample_stage\<lparr>stage_VolumeContext := VolumeContext resp\<rparr>"
  obtain r t' where stage: "run_state (NodeStageVolume sample_os ?st) sample_host = (r, t')" by fastforce
  have ctx: "stage_VolumeContext ?st = VolumeContext resp" by simp
  have cap: "ensureMountVol (stage_VolumeCapability ?st) = Inr ([], [])"
    by (simp add: ensureMountVol_def sample_stage_def sample_cap_def GetAccessType_def)
  have "segment (Parameters sample_create) AttributeFsType = []"
    by (simp add: sample_create_sel segment_def AttributeFsType_def)
  with staged_filesystem [OF create stage ctx cap] create stage show ?thesis by auto
qed

theorem provisioned_reachable_witness:
  "\<exists>resp s' c spec nodes. run_state (ControllerCreateVolume sample_env sample_ienv sample_k8s sample_manager 0 sample_create)
       sample_nodes = (Inr resp, s') \<and> mutations s' = mutations sample_nodes @ [c] \<and> is_create sample_env spec c \<and>
     list_all2 same_vm [sample_vm] nodes \<and> create_Datastores spec \<noteq> []"
proof -
  obtain resp s' where create: "run_state (ControllerCreateVolume sample_env sample_ienv sample_k8s sample_manager 0 sample_create)
      sample_nodes = (Inr resp, s')" by (rule sample_ControllerCreateVolume)
  have "requestedURL sample_create = []" unfolding requestedURL_def sample_create_sel sample_create_valid by simp
  from provisioned_reachable [OF create sample_create_sel(4) this] create show ?thesis
    by (auto simp: sample_nodes_sel)
qed

end
